(* ===== verification/Prelude.thy ===== *)
theory Prelude
  imports Main
begin

text \<open>
  What every component shares: Python's exceptions as values of \<open>py_error\<close>, a sequence of
  guarded \<open>raise\<close> statements as a list of checks (the first one that fires is the exception that
  leaves the function), results as \<open>py_error + 'a\<close>, decimal rendering of integers as
  \<open>str(int)\<close> does it, and the list lemmas the components use.
\<close>

section \<open>Exceptions and results\<close>

text \<open>
  The exception classes the Python raises. The payload is the message without the parts that
  are only \<open>repr\<close> renderings of the offending value.
\<close>

datatype py_error =
    ValidationError string
  | ConfigError string
  | FileExistsError string
  | ValueError string
  | KeyError string
  | TypeError string
  | IndexError
  | ZeroDivisionError
  | OverflowError
  | AttributeError string
  | OSError string
  | UnicodeDecodeError
  | HTTPException string
  | DownloadError string

type_synonym check = "py_error option"
type_synonym 'a res = "py_error + 'a"

named_theorems accept_simps \<open>what it means that a check or a result accepts\<close>

text \<open>\<open>if b: raise e\<close>\<close>

definition reject :: "bool \<Rightarrow> py_error \<Rightarrow> check" where
  "reject b e = (if b then Some e else None)"

text \<open>Statements executed one after the other: the first exception wins.\<close>

fun first_error :: "check list \<Rightarrow> check" where
  "first_error [] = None"
| "first_error (c # cs) = (case c of Some e \<Rightarrow> Some e | None \<Rightarrow> first_error cs)"

declare first_error.simps(2) [simp del]

text \<open>Run the checks, then go on with the rest of the function.\<close>

definition checked :: "check \<Rightarrow> 'a res \<Rightarrow> 'a res" where
  "checked c k = (case c of Some e \<Rightarrow> Inl e | None \<Rightarrow> k)"

definition rbind :: "'a res \<Rightarrow> ('a \<Rightarrow> 'b res) \<Rightarrow> 'b res" where
  "rbind r f = (case r of Inl e \<Rightarrow> Inl e | Inr x \<Rightarrow> f x)"

text \<open>A loop that calls a fallible function on every element and collects the results.\<close>

fun rmap :: "('a \<Rightarrow> 'b res) \<Rightarrow> 'a list \<Rightarrow> 'b list res" where
  "rmap f [] = Inr []"
| "rmap f (x # xs) = rbind (f x) (\<lambda>y. rbind (rmap f xs) (\<lambda>ys. Inr (y # ys)))"

text \<open>The exception of a result, seen as a check.\<close>

definition error_of :: "'a res \<Rightarrow> check" where
  "error_of r = (case r of Inl e \<Rightarrow> Some e | Inr _ \<Rightarrow> None)"

lemma reject_None [simp, accept_simps]: "reject b e = None \<longleftrightarrow> \<not> b"
  by (simp add: reject_def)

lemma reject_Some [simp]: "reject b e = Some e' \<longleftrightarrow> b \<and> e' = e"
  by (auto simp: reject_def)

lemma first_error_Cons_None [simp, accept_simps]:
  "first_error (c # cs) = None \<longleftrightarrow> c = None \<and> first_error cs = None"
  by (cases c) (simp_all add: first_error.simps(2))

lemma first_error_None_Cons [simp]: "first_error (None # cs) = first_error cs"
  by (simp add: first_error.simps(2))

lemma first_error_Some_Cons [simp]: "first_error (Some e # cs) = Some e"
  by (simp add: first_error.simps(2))

lemma first_error_append [simp]:
  "first_error (cs @ ds) = None \<longleftrightarrow> first_error cs = None \<and> first_error ds = None"
  by (induction cs) auto

lemma first_error_None: "first_error cs = None \<longleftrightarrow> (\<forall>c \<in> set cs. c = None)"
  by (induction cs) auto

lemma first_error_map_None [simp, accept_simps]:
  "first_error (map f xs) = None \<longleftrightarrow> (\<forall>x \<in> set xs. f x = None)"
  by (induction xs) auto

lemma first_error_Some: "first_error cs = Some e \<Longrightarrow> Some e \<in> set cs"
  by (induction cs) (auto simp: first_error.simps(2) split: option.splits)

lemma checked_Inr [simp, accept_simps]: "checked c k = Inr v \<longleftrightarrow> c = None \<and> k = Inr v"
  by (cases c) (auto simp: checked_def)

lemma checked_None [simp]: "checked None k = k"
  by (simp add: checked_def)

lemma checked_Some [simp]: "checked (Some e) k = Inl e"
  by (simp add: checked_def)

lemma rbind_Inr_iff [simp, accept_simps]:
  "rbind r f = Inr v \<longleftrightarrow> (\<exists>x. r = Inr x \<and> f x = Inr v)"
  by (cases r) (auto simp: rbind_def)

lemma rbind_Inr [simp]: "rbind (Inr x) f = f x"
  by (simp add: rbind_def)

lemma rbind_Inl [simp]: "rbind (Inl e) f = Inl e"
  by (simp add: rbind_def)

lemma rbind_Inl_iff:
  "rbind r f = Inl e \<longleftrightarrow> r = Inl e \<or> (\<exists>x. r = Inr x \<and> f x = Inl e)"
  by (cases r) auto

lemma error_of_None [simp, accept_simps]: "error_of r = None \<longleftrightarrow> (\<exists>v. r = Inr v)"
  by (cases r) (auto simp: error_of_def)

lemma rmap_Inr: "rmap f xs = Inr ys \<longleftrightarrow> list_all2 (\<lambda>x y. f x = Inr y) xs ys"
proof (induction xs arbitrary: ys)
  case Nil
  then show ?case by auto
next
  case (Cons x xs)
  then show ?case by (cases ys) auto
qed

lemma rmap_Inr_id: "(\<forall>x \<in> set xs. f x = Inr (g x)) \<Longrightarrow> rmap f xs = Inr (map g xs)"
  by (induction xs) auto

lemma rmap_guarded:
  assumes "\<And>x v. f x = Inr v \<longleftrightarrow> v = h x \<and> P (h x)"
  shows "rmap f xs = Inr ys \<longleftrightarrow> ys = map h xs \<and> list_all P ys"
proof (induction xs arbitrary: ys)
  case (Cons x xs)
  have "rmap f (x # xs) = Inr ys \<longleftrightarrow> P (h x) \<and> list_all P (map h xs) \<and> h x # map h xs = ys"
    using Cons.IH by (simp add: assms) 
  also have "\<dots> \<longleftrightarrow> ys = map h (x # xs) \<and> list_all P ys" by auto
  finally show ?case .
qed auto

section \<open>Decimal rendering\<close>

definition digit :: "nat \<Rightarrow> char" where
  "digit d = (char_of (48 + d) :: char)"

definition digit_val :: "char \<Rightarrow> nat" where
  "digit_val c = (of_char c :: nat) - 48"

text \<open>\<open>str(n)\<close> for a non-negative \<open>n\<close>.\<close>

fun str_nat :: "nat \<Rightarrow> string" where
  "str_nat n = (if n < 10 then [digit n] else str_nat (n div 10) @ [digit (n mod 10)])"

declare str_nat.simps [simp del]

text \<open>\<open>str(i)\<close> for any integer.\<close>

definition str_int :: "int \<Rightarrow> string" where
  "str_int i = (if i < 0 then CHR ''-'' # str_nat (nat (- i)) else str_nat (nat i))"

definition digits_val :: "string \<Rightarrow> nat" where
  "digits_val s = foldl (\<lambda>a c. 10 * a + digit_val c) 0 s"

definition is_digit :: "char \<Rightarrow> bool" where
  "is_digit c \<longleftrightarrow> 48 \<le> (of_char c :: nat) \<and> (of_char c :: nat) \<le> 57"

lemma digit_val_digit [simp]: "d < 10 \<Longrightarrow> digit_val (digit d) = d"
  by (simp add: digit_def digit_val_def)

lemma is_digit_digit [simp]: "d < 10 \<Longrightarrow> is_digit (digit d)"
  by (simp add: digit_def is_digit_def)

lemma digits_val_snoc [simp]: "digits_val (s @ [c]) = 10 * digits_val s + digit_val c"
  by (simp add: digits_val_def)

lemma digits_val_Nil [simp]: "digits_val [] = 0"
  by (simp add: digits_val_def)

lemma digits_val_single [simp]: "digits_val [c] = digit_val c"
  by (simp add: digits_val_def)

lemma digits_val_str_nat [simp]: "digits_val (str_nat n) = n"
proof (induction n rule: str_nat.induct)
  case (1 n)
  show ?case
  proof (cases "n < 10")
    case True
    then show ?thesis by (subst str_nat.simps) simp
  next
    case False
    with 1 show ?thesis by (subst str_nat.simps) simp
  qed
qed

lemma str_nat_digits: "\<forall>c \<in> set (str_nat n). is_digit c"
proof (induction n rule: str_nat.induct)
  case (1 n)
  show ?case
  proof (cases "n < 10")
    case True
    then show ?thesis by (subst str_nat.simps) simp
  next
    case False
    with 1 show ?thesis by (subst str_nat.simps) auto
  qed
qed

lemma str_nat_not_Nil [simp]: "str_nat n \<noteq> []"
  by (subst str_nat.simps) simp

lemma str_nat_inj [simp]: "str_nat m = str_nat n \<longleftrightarrow> m = n"
  by (metis digits_val_str_nat)

lemma str_nat_no_minus: "CHR ''-'' \<notin> set (str_nat n)"
  using str_nat_digits [of n] by (auto simp: is_digit_def)

lemma str_int_inj [simp]: "str_int i = str_int j \<longleftrightarrow> i = j"
proof
  assume eq: "str_int i = str_int j"
  have nohd: "CHR ''-'' # s \<noteq> str_nat n" for s n
    using str_nat_no_minus [of n] by (metis list.set_intros(1))
  then have nohd': "str_nat n \<noteq> CHR ''-'' # s" for s n
    by metis
  from eq show "i = j"
    by (auto simp: str_int_def nohd nohd' split: if_splits)
qed simp

section \<open>Lists\<close>

text \<open>\<open>enumerate(xs, 1)\<close>\<close>

definition enumerate1 :: "'a list \<Rightarrow> (nat \<times> 'a) list" where
  "enumerate1 xs = zip [1..<length xs + 1] xs"

lemma map_snd_enumerate1 [simp]: "map snd (enumerate1 xs) = xs"
  by (simp add: enumerate1_def del: upt_Suc)

lemma map_fst_enumerate1 [simp]: "map fst (enumerate1 xs) = [1..<length xs + 1]"
  by (simp add: enumerate1_def del: upt_Suc)

lemma length_enumerate1 [simp]: "length (enumerate1 xs) = length xs"
  by (simp add: enumerate1_def del: upt_Suc)

lemma map_enumerate1: "map (\<lambda>item. f (snd item)) (enumerate1 xs) = map f xs"
proof -
  have "map (\<lambda>item. f (snd item)) (enumerate1 xs) = map f (map snd (enumerate1 xs))"
    by (simp only: list.map_comp comp_def)
  then show ?thesis by simp
qed

text \<open>The part before the first separator is determined.\<close>

lemma same_split:
  assumes "a @ c # s = b @ c # t" "c \<notin> set a" "c \<notin> set b"
  shows "a = b \<and> s = t"
  using assms
proof (induction a arbitrary: b)
  case (Cons x a)
  then show ?case by (cases b) auto
next
  case Nil
  then show ?case by (cases b) auto
qed

lemma set_enumerate1D: "(n, x) \<in> set (enumerate1 xs) \<Longrightarrow> x \<in> set xs"
  by (auto simp: enumerate1_def dest: set_zip_rightD)

lemma ex_enumerate1: "x \<in> set xs \<Longrightarrow> \<exists>n. (n, x) \<in> set (enumerate1 xs)"
  using map_snd_enumerate1 [of xs] by (metis imageE list.set_map prod.collapse)

lemma sum_list_map_filter_count:
  "(\<Sum>x\<leftarrow>xs. if P x then 1 else 0) = (length (filter P xs) :: nat)"
  by (induction xs) auto

lemma sum_list_nonneg_int: "(\<forall>x \<in> set xs. 0 \<le> f x) \<Longrightarrow> 0 \<le> (\<Sum>x\<leftarrow>xs. f x :: int)"
  by (induction xs) auto

section \<open>Scans that reject duplicates\<close>

text \<open>
  The interface of a loop that checks its items one by one and remembers the keys it has seen:
  the code has several (workload lines, deferred requests, invocation identifiers), and what they
  promise is proved once.
\<close>

locale unique_scan =
  fixes scan :: "'k list \<Rightarrow> 'a list \<Rightarrow> bool"
    and ok :: "'a \<Rightarrow> bool"
    and key :: "'a \<Rightarrow> 'k"
  assumes scan_Nil: "scan seen []"
    and scan_Cons: "scan seen (x # xs) \<longleftrightarrow> ok x \<and> key x \<notin> set seen \<and> scan (key x # seen) xs"
begin

lemma scan_iff:
  "scan seen xs \<longleftrightarrow>
     (\<forall>x \<in> set xs. ok x) \<and> distinct (map key xs) \<and> set (map key xs) \<inter> set seen = {}"
  by (induction xs arbitrary: seen) (auto simp: scan_Nil scan_Cons)

lemma scan_fresh: "scan [] xs \<longleftrightarrow> (\<forall>x \<in> set xs. ok x) \<and> distinct (map key xs)"
  by (simp add: scan_iff)

lemma scan_prefix: "scan seen (xs @ ys) \<Longrightarrow> scan seen xs"
  by (auto simp: scan_iff)

end

end
