(* ===== verification/Py_Float.thy ===== *)
theory Py_Float
  imports Prelude Complex_Main "HOL-Library.Log_Nat"
begin

text \<open>
  Python's \<open>float\<close> is IEEE 754 binary64. A finite float is the rational number it denotes, and
  every arithmetic operation the code uses (\<open>int / int\<close>, \<open>float * int\<close>, \<open>float(int)\<close>) is the
  exact rational result rounded to nearest, ties to even: \<open>fl\<close>. The exponent is bounded below
  (subnormals, \<open>-1074\<close>) and an overflow above \<open>2 ^ 1024\<close> is reported by \<open>fl_checked\<close>, where CPython
  raises \<open>OverflowError\<close>. The lemmas are what the metrics need: \<open>fl\<close> is monotone, and exact on the
  integers up to \<open>2 ^ 53\<close>.
\<close>

section \<open>Powers of two with an integer exponent\<close>

definition pow2 :: "int \<Rightarrow> rat" where
  "pow2 e = (if 0 \<le> e then 2 ^ nat e else 1 / 2 ^ nat (- e))"

lemma pow2_powi: "pow2 e = 2 powi e"
  by (simp add: pow2_def power_int_def field_simps)

lemma pow2_pos [simp]: "0 < pow2 e"
  by (simp add: pow2_def)

lemma pow2_nonzero [simp]: "pow2 e \<noteq> 0"
  using pow2_pos [of e] by linarith

lemma pow2_add: "pow2 (a + b) = pow2 a * pow2 b"
  by (simp add: pow2_powi power_int_add)

lemma pow2_diff: "pow2 (a - b) = pow2 a / pow2 b"
  by (simp add: pow2_powi power_int_diff)

lemma pow2_0 [simp]: "pow2 0 = 1"
  by (simp add: pow2_def)

lemma pow2_nat: "pow2 (int n) = 2 ^ n"
  by (simp add: pow2_def)

lemma pow2_mono: "a \<le> b \<Longrightarrow> pow2 a \<le> pow2 b"
  by (simp add: pow2_powi power_int_increasing)

lemma pow2_less_iff: "pow2 a < pow2 b \<longleftrightarrow> a < b"
  by (metis linorder_not_le order_le_less pow2_mono pow2_powi power_int_strict_increasing
      one_less_numeral_iff semiring_norm(76))

section \<open>Binary exponent of a positive rational\<close>

text \<open>\<open>flog2 x\<close> is the exponent \<open>k\<close> with \<open>2 ^ k \<le> x < 2 ^ (k + 1)\<close>.\<close>

definition flog2 :: "rat \<Rightarrow> int" where
  "flog2 x = (case quotient_of x of (a, b) \<Rightarrow>
     let d = bitlen a - bitlen b in if pow2 d \<le> x then d else d - 1)"

lemma bitlen_pow2_bounds:
  assumes "0 < n"
  shows "pow2 (bitlen n - 1) \<le> of_int n" and "of_int n < pow2 (bitlen n)"
proof -
  have nn: "0 \<le> bitlen n - 1"
    using assms bitlen_nonneg [of n] bitlen_eq_zero_iff [of n] by linarith
  from bitlen_bounds [OF assms] have
    "2 ^ nat (bitlen n - 1) \<le> n" and "n < 2 ^ nat (bitlen n)" by auto
  then have "(of_int (2 ^ nat (bitlen n - 1)) :: rat) \<le> of_int n"
    and "(of_int n :: rat) < of_int (2 ^ nat (bitlen n))"
    by (simp_all only: of_int_le_iff of_int_less_iff)
  with nn show "pow2 (bitlen n - 1) \<le> of_int n" and "of_int n < pow2 (bitlen n)"
    by (simp_all add: pow2_def)
qed

lemma flog2_bounds:
  assumes "0 < x"
  shows "pow2 (flog2 x) \<le> x" and "x < pow2 (flog2 x + 1)"
proof -
  obtain a b where q: "quotient_of x = (a, b)" by fastforce
  have b: "0 < b" by (rule quotient_of_denom_pos [OF q])
  have x: "x = of_int a / of_int b" by (rule quotient_of_div [OF q])
  have a: "0 < a"
    using assms b by (simp add: x zero_less_divide_iff)
  let ?d = "bitlen a - bitlen b"
  have "pow2 (bitlen a - 1) / pow2 (bitlen b) \<le> of_int a / of_int b"
    using bitlen_pow2_bounds [OF a] bitlen_pow2_bounds [OF b] a b
    by (intro frac_le) (auto intro: less_imp_le)
  then have lo: "pow2 (?d - 1) \<le> x"
    by (simp add: x algebra_simps flip: pow2_diff)
  have "of_int a / of_int b < pow2 (bitlen a) / pow2 (bitlen b - 1)"
    using bitlen_pow2_bounds [OF a] bitlen_pow2_bounds [OF b] a
    by (intro frac_less) auto
  then have hi: "x < pow2 (?d + 1)"
    by (simp add: x algebra_simps flip: pow2_diff)
  show "pow2 (flog2 x) \<le> x" and "x < pow2 (flog2 x + 1)"
    using lo hi by (auto simp: flog2_def q Let_def)
qed

lemma flog2_mono:
  assumes "0 < x" "x \<le> y"
  shows "flog2 x \<le> flog2 y"
proof -
  have "pow2 (flog2 x) \<le> x" using assms(1) by (rule flog2_bounds)
  also have "x < pow2 (flog2 y + 1)"
    using flog2_bounds(2) [of y] assms by linarith
  finally show ?thesis by (simp add: pow2_less_iff)
qed

section \<open>Rounding to nearest, ties to even\<close>

definition round_half_even :: "rat \<Rightarrow> int" where
  "round_half_even x =
     (let f = \<lfloor>x\<rfloor>; r = x - of_int f in
      if r < 1 / 2 then f else if 1 / 2 < r then f + 1 else if even f then f else f + 1)"

lemma round_half_even_int [simp]: "round_half_even (of_int n) = n"
  by (simp add: round_half_even_def)

lemma round_half_even_cases: "round_half_even x = \<lfloor>x\<rfloor> \<or> round_half_even x = \<lfloor>x\<rfloor> + 1"
  by (auto simp: round_half_even_def Let_def)

lemma round_half_even_mono:
  assumes "x \<le> y"
  shows "round_half_even x \<le> round_half_even y"
proof (cases "\<lfloor>x\<rfloor> = \<lfloor>y\<rfloor>")
  case True
  with assms show ?thesis
    by (auto simp: round_half_even_def Let_def)
next
  case False
  with floor_mono [OF assms] have "\<lfloor>x\<rfloor> + 1 \<le> \<lfloor>y\<rfloor>" by linarith
  with round_half_even_cases [of x] round_half_even_cases [of y] show ?thesis by linarith
qed

text \<open>The multiple of \<open>2 ^ e\<close> nearest to \<open>x\<close>.\<close>

definition on_grid :: "int \<Rightarrow> rat \<Rightarrow> rat" where
  "on_grid e x = of_int (round_half_even (x / pow2 e)) * pow2 e"

lemma on_grid_mono: "x \<le> y \<Longrightarrow> on_grid e x \<le> on_grid e y"
  by (simp add: on_grid_def mult_right_mono divide_right_mono less_imp_le
      round_half_even_mono)

lemma on_grid_exact: "on_grid e (of_int m * pow2 e) = of_int m * pow2 e"
  by (simp add: on_grid_def)

lemma on_grid_pow2: "e \<le> k \<Longrightarrow> on_grid e (pow2 k) = pow2 k"
proof -
  assume "e \<le> k"
  then have "pow2 k = of_int (2 ^ nat (k - e)) * pow2 e"
    using pow2_add [of "k - e" e] by (simp add: pow2_def)
  then show ?thesis by (metis on_grid_exact)
qed

text \<open>The exponent of the last place of a binary64 number of the size of \<open>x\<close>.\<close>

definition fl_exp :: "rat \<Rightarrow> int" where
  "fl_exp x = max (flog2 x - 52) (- 1074)"

definition fl :: "rat \<Rightarrow> rat" where
  "fl x = (if x = 0 then 0
           else if 0 < x then on_grid (fl_exp x) x
           else - on_grid (fl_exp (- x)) (- x))"

text \<open>\<open>None\<close>: the result is too large for a float.\<close>

definition fl_checked :: "rat \<Rightarrow> rat option" where
  "fl_checked x = (if \<bar>fl x\<bar> < 2 ^ 1024 then Some (fl x) else None)"

lemma fl_0 [simp]: "fl 0 = 0"
  by (simp add: fl_def)

lemma fl_minus: "fl (- x) = - fl x"
  by (auto simp: fl_def)

lemma fl_pos_mono:
  assumes "0 < x" "x \<le> y"
  shows "fl x \<le> fl y"
proof -
  have y: "0 < y" using assms by simp
  show ?thesis
  proof (cases "fl_exp x = fl_exp y")
    case True
    with assms y show ?thesis by (simp add: fl_def on_grid_mono)
  next
    case False
    let ?k = "flog2 y"
    from flog2_mono [OF assms] False have lt: "flog2 x + 1 \<le> ?k" and ye: "fl_exp y = ?k - 52"
      and xe: "fl_exp x \<le> ?k"
      by (auto simp: fl_exp_def max_def split: if_splits)
    have "x \<le> pow2 ?k"
      using flog2_bounds(2) [OF assms(1)] pow2_mono [OF lt] by linarith
    then have "on_grid (fl_exp x) x \<le> on_grid (fl_exp x) (pow2 ?k)" by (rule on_grid_mono)
    also have "\<dots> = on_grid (fl_exp y) (pow2 ?k)"
      using xe ye by (simp add: on_grid_pow2)
    also have "\<dots> \<le> on_grid (fl_exp y) y"
      using flog2_bounds(1) [OF y] by (rule on_grid_mono)
    finally show ?thesis using assms y by (simp add: fl_def)
  qed
qed

lemma fl_nonneg: "0 \<le> x \<Longrightarrow> 0 \<le> fl x"
proof (cases "x = 0")
  case False
  assume "0 \<le> x"
  with False have "0 < x" by simp
  moreover have "on_grid (fl_exp x) 0 \<le> on_grid (fl_exp x) x"
    using \<open>0 \<le> x\<close> by (rule on_grid_mono)
  moreover have "on_grid (fl_exp x) 0 = 0"
    using on_grid_exact [of "fl_exp x" 0] by simp
  ultimately show ?thesis by (simp add: fl_def)
qed simp

lemma fl_mono: "x \<le> y \<Longrightarrow> fl x \<le> fl y"
proof -
  assume le: "x \<le> y"
  consider "0 < x" | "x \<le> 0" "0 \<le> y" | "y < 0" by linarith
  then show "fl x \<le> fl y"
  proof cases
    case 1
    then show ?thesis using le by (rule fl_pos_mono)
  next
    case 2
    then have "0 \<le> fl (- x)" "0 \<le> fl y" by (simp_all add: fl_nonneg)
    then show ?thesis by (simp add: fl_minus)
  next
    case 3
    with le have "fl (- y) \<le> fl (- x)" by (intro fl_pos_mono) auto
    then show ?thesis by (simp add: fl_minus)
  qed
qed

text \<open>Integers up to \<open>2 ^ 53\<close> are floats.\<close>

lemma fl_of_nat_exact:
  assumes "n \<le> 2 ^ 53"
  shows "fl (of_nat n) = of_nat n"
proof (cases "n = 0")
  case False
  let ?x = "of_nat n :: rat"
  have pos: "0 < ?x" using False by simp
  show ?thesis
  proof (cases "n = 2 ^ 53")
    case True
    have x: "?x = pow2 53" by (simp add: True pow2_def)
    have "pow2 (flog2 ?x) < pow2 54"
      using flog2_bounds(1) [OF pos] by (simp add: x pow2_def)
    then have "fl_exp ?x \<le> 53" by (simp add: pow2_less_iff fl_exp_def)
    then have "on_grid (fl_exp ?x) ?x = ?x" by (simp only: x on_grid_pow2)
    with pos show ?thesis by (simp add: fl_def)
  next
    case False
    with assms have "n < 2 ^ 53" by simp
    then have "?x < of_nat (2 ^ 53)" by (simp only: of_nat_less_iff)
    then have "?x < pow2 53" by (simp add: pow2_def)
    with flog2_bounds(1) [OF pos] have "pow2 (flog2 ?x) < pow2 53" by linarith
    then have e: "fl_exp ?x \<le> 0" by (simp add: pow2_less_iff fl_exp_def)
    let ?m = "int n * 2 ^ nat (- fl_exp ?x)"
    have "?x = of_int ?m * pow2 (fl_exp ?x)"
      using e by (simp add: pow2_def)
    then have "on_grid (fl_exp ?x) ?x = ?x" by (metis on_grid_exact)
    with pos show ?thesis by (simp add: fl_def)
  qed
qed simp

lemma fl_1 [simp]: "fl 1 = 1"
  using fl_of_nat_exact [of 1] by simp

lemma fl_unit_interval: "0 \<le> x \<Longrightarrow> x \<le> 1 \<Longrightarrow> 0 \<le> fl x \<and> fl x \<le> 1"
  using fl_mono [of x 1] by (simp add: fl_nonneg)

lemma fl_checked_unit: "0 \<le> x \<Longrightarrow> x \<le> 1 \<Longrightarrow> fl_checked x = Some (fl x)"
proof -
  assume "0 \<le> x" "x \<le> 1"
  then have b: "0 \<le> fl x" "fl x \<le> 1" by (simp_all add: fl_unit_interval)
  have "(1::rat) < 2 ^ 1024" by simp
  with b(2) have "fl x < 2 ^ 1024" by (rule order_le_less_trans)
  with b(1) show ?thesis by (simp only: fl_checked_def abs_of_nonneg if_True)
qed

section \<open>Float values of Python\<close>

datatype pyfloat = Fin rat | Inf bool \<comment> \<open>\<open>True\<close>: negative\<close> | NaN

text \<open>
  \<open>a / b\<close> on Python ints: \<open>ZeroDivisionError\<close> for a zero divisor, \<open>OverflowError\<close> for a quotient
  that is no float, otherwise the correctly rounded quotient.
\<close>

definition py_truediv :: "int \<Rightarrow> int \<Rightarrow> rat res" where
  "py_truediv a b = (if b = 0 then Inl ZeroDivisionError
     else (case fl_checked (of_int a / of_int b) of None \<Rightarrow> Inl OverflowError | Some q \<Rightarrow> Inr q))"

lemma py_truediv_unit:
  assumes "0 \<le> a" "a \<le> b" "0 < b"
  shows "py_truediv a b = Inr (fl (of_int a / of_int b))"
    and "0 \<le> fl (of_int a / of_int b)" and "fl (of_int a / of_int b) \<le> 1"
proof -
  have r: "0 \<le> (of_int a / of_int b :: rat)" "(of_int a / of_int b :: rat) \<le> 1"
    using assms by (simp_all add: divide_le_eq)
  then show "py_truediv a b = Inr (fl (of_int a / of_int b))"
    using assms fl_checked_unit [OF r] by (simp add: py_truediv_def)
  from r show "0 \<le> fl (of_int a / of_int b)" and "fl (of_int a / of_int b) \<le> 1"
    by (simp_all add: fl_unit_interval)
qed

lemma py_truediv_no_zero_div: "b \<noteq> 0 \<Longrightarrow> py_truediv a b \<noteq> Inl ZeroDivisionError"
  by (simp add: py_truediv_def split: option.splits)

lemma py_truediv_small:
  assumes "0 \<le> a" "a \<le> 2 ^ 53" "0 < b"
  shows "\<exists>q. py_truediv a b = Inr q \<and> 0 \<le> q"
proof -
  let ?x = "of_int a / of_int b :: rat"
  have "of_int a \<le> (2 ^ 53 :: rat)"
    using assms(2) by (metis of_int_le_iff of_int_numeral of_int_power)
  moreover have "?x \<le> of_int a"
    using assms by (simp add: divide_le_eq mult_le_cancel_left1)
  ultimately have "?x \<le> of_nat (2 ^ 53)" by simp
  then have "fl ?x \<le> fl (of_nat (2 ^ 53))" by (rule fl_mono)
  also have "\<dots> = of_nat (2 ^ 53)" by (rule fl_of_nat_exact) simp
  also have "\<dots> < 2 ^ 1024" by simp
  finally have hi: "fl ?x < 2 ^ 1024" .
  have lo: "0 \<le> fl ?x" using assms by (intro fl_nonneg) simp
  with hi have "fl_checked ?x = Some (fl ?x)"
    by (simp only: fl_checked_def abs_of_nonneg if_True)
  with lo assms(3) show ?thesis by (simp add: py_truediv_def)
qed

end
