(* ===== verification/Py_Json.thy ===== *)
theory Py_Json
  imports Prelude Py_Float
begin

text \<open>
  JSON values as Python's \<open>json\<close> module hands them to the code: \<open>None\<close>, \<open>bool\<close>, unbounded \<open>int\<close>,
  \<open>float\<close>, \<open>str\<close>, \<open>list\<close>, and \<open>dict\<close> as an association list in insertion order. Access is by
  \<open>dict.get\<close> (\<open>jget\<close>, \<open>None\<close> for an absent key) and equality is Python's \<open>==\<close> (\<open>py_eq\<close>): numbers
  compare by value across \<open>bool\<close>, \<open>int\<close> and \<open>float\<close>, dictionaries by their set of items.
\<close>

section \<open>Values\<close>

datatype json =
    JNull
  | JBool bool
  | JInt int
  | JFloat pyfloat
  | JStr string
  | JList "json list"
  | JObj "(string \<times> json) list"

definition is_JInt :: "json \<Rightarrow> bool" where
  "is_JInt v \<longleftrightarrow> (case v of JInt _ \<Rightarrow> True | _ \<Rightarrow> False)"
definition is_JStr :: "json \<Rightarrow> bool" where
  "is_JStr v \<longleftrightarrow> (case v of JStr _ \<Rightarrow> True | _ \<Rightarrow> False)"
definition is_JBool :: "json \<Rightarrow> bool" where
  "is_JBool v \<longleftrightarrow> (case v of JBool _ \<Rightarrow> True | _ \<Rightarrow> False)"
definition is_JList :: "json \<Rightarrow> bool" where
  "is_JList v \<longleftrightarrow> (case v of JList _ \<Rightarrow> True | _ \<Rightarrow> False)"
definition is_JObj :: "json \<Rightarrow> bool" where
  "is_JObj v \<longleftrightarrow> (case v of JObj _ \<Rightarrow> True | _ \<Rightarrow> False)"

text \<open>Readers for a value whose type a check has established.\<close>

definition int_of :: "json \<Rightarrow> int" where
  "int_of v = (case v of JInt i \<Rightarrow> i | _ \<Rightarrow> 0)"
definition str_of :: "json \<Rightarrow> string" where
  "str_of v = (case v of JStr s \<Rightarrow> s | _ \<Rightarrow> [])"
definition bool_of :: "json \<Rightarrow> bool" where
  "bool_of v = (case v of JBool b \<Rightarrow> b | _ \<Rightarrow> False)"
definition list_of :: "json \<Rightarrow> json list" where
  "list_of v = (case v of JList xs \<Rightarrow> xs | _ \<Rightarrow> [])"

text \<open>\<open>None\<close> or an integer.\<close>

definition opt_int :: "json \<Rightarrow> int option" where
  "opt_int v = (case v of JInt i \<Rightarrow> Some i | _ \<Rightarrow> None)"

definition ints_of :: "json \<Rightarrow> int list" where
  "ints_of v = map int_of (list_of v)"

fun jopt :: "('a \<Rightarrow> json) \<Rightarrow> 'a option \<Rightarrow> json" where
  "jopt f None = JNull"
| "jopt f (Some x) = f x"

definition jints :: "int list \<Rightarrow> json" where
  "jints xs = JList (map JInt xs)"

lemma json_readers [simp]:
  "int_of (JInt i) = i" "str_of (JStr s) = s" "bool_of (JBool b) = b" "list_of (JList xs) = xs"
  "opt_int (JInt i) = Some i" "opt_int JNull = None"
  by (simp_all add: int_of_def str_of_def bool_of_def list_of_def opt_int_def)

lemma is_JInt_simps [simp]:
  "is_JInt (JInt i)" "\<not> is_JInt JNull" "\<not> is_JInt (JStr s)" "\<not> is_JInt (JBool b)"
  "\<not> is_JInt (JFloat f)" "\<not> is_JInt (JList xs)" "\<not> is_JInt (JObj kvs)"
  by (simp_all add: is_JInt_def)

lemma is_JStr_simps [simp]:
  "is_JStr (JStr s)" "\<not> is_JStr JNull" "\<not> is_JStr (JInt i)" "\<not> is_JStr (JBool b)"
  "\<not> is_JStr (JFloat f)" "\<not> is_JStr (JList xs)" "\<not> is_JStr (JObj kvs)"
  by (simp_all add: is_JStr_def)

lemma is_JBool_simps [simp]:
  "is_JBool (JBool b)" "\<not> is_JBool JNull" "\<not> is_JBool (JInt i)" "\<not> is_JBool (JStr s)"
  "\<not> is_JBool (JFloat f)" "\<not> is_JBool (JList xs)" "\<not> is_JBool (JObj kvs)"
  by (simp_all add: is_JBool_def)

lemma is_JList_simps [simp]:
  "is_JList (JList xs)" "\<not> is_JList JNull" "\<not> is_JList (JInt i)" "\<not> is_JList (JBool b)"
  "\<not> is_JList (JFloat f)" "\<not> is_JList (JStr s)" "\<not> is_JList (JObj kvs)"
  by (simp_all add: is_JList_def)

lemma is_JObj_simps [simp]:
  "is_JObj (JObj kvs)" "\<not> is_JObj JNull" "\<not> is_JObj (JInt i)" "\<not> is_JObj (JBool b)"
  "\<not> is_JObj (JFloat f)" "\<not> is_JObj (JStr s)" "\<not> is_JObj (JList xs)"
  by (simp_all add: is_JObj_def)

lemma is_JIntE: "is_JInt v \<Longrightarrow> (\<And>i. v = JInt i \<Longrightarrow> P) \<Longrightarrow> P"
  by (cases v) auto
lemma is_JStrE: "is_JStr v \<Longrightarrow> (\<And>s. v = JStr s \<Longrightarrow> P) \<Longrightarrow> P"
  by (cases v) auto
lemma is_JListE: "is_JList v \<Longrightarrow> (\<And>xs. v = JList xs \<Longrightarrow> P) \<Longrightarrow> P"
  by (cases v) auto
lemma is_JObjE: "is_JObj v \<Longrightarrow> (\<And>kvs. v = JObj kvs \<Longrightarrow> P) \<Longrightarrow> P"
  by (cases v) auto

lemma is_JInt_int_of: "is_JInt v \<Longrightarrow> v = JInt (int_of v)"
  by (auto elim: is_JIntE)

lemma opt_int_Some_iff: "opt_int v = Some i \<longleftrightarrow> v = JInt i"
  by (cases v) (auto simp: opt_int_def)

section \<open>Dictionaries\<close>

definition jitems :: "json \<Rightarrow> (string \<times> json) list" where
  "jitems v = (case v of JObj kvs \<Rightarrow> kvs | _ \<Rightarrow> [])"

definition jkeys :: "json \<Rightarrow> string list" where
  "jkeys v = map fst (jitems v)"

definition jhas :: "json \<Rightarrow> string \<Rightarrow> bool" where
  "jhas v k \<longleftrightarrow> k \<in> set (jkeys v)"

text \<open>\<open>d.get(k, default)\<close>\<close>

definition jget_default :: "json \<Rightarrow> string \<Rightarrow> json \<Rightarrow> json" where
  "jget_default v k d = (case map_of (jitems v) k of Some w \<Rightarrow> w | None \<Rightarrow> d)"

text \<open>\<open>d.get(k)\<close>, and \<open>d[k]\<close> where a check has established that \<open>k\<close> is present.\<close>

definition jget :: "json \<Rightarrow> string \<Rightarrow> json" where
  "jget v k = jget_default v k JNull"

text \<open>\<open>d[k] = w\<close>: overwrite in place, or append a new key.\<close>

fun al_put :: "string \<Rightarrow> json \<Rightarrow> (string \<times> json) list \<Rightarrow> (string \<times> json) list" where
  "al_put k w [] = [(k, w)]"
| "al_put k w ((k', v) # kvs) = (if k' = k then (k, w) # kvs else (k', v) # al_put k w kvs)"

definition jset :: "json \<Rightarrow> string \<Rightarrow> json \<Rightarrow> json" where
  "jset v k w = JObj (al_put k w (jitems v))"

text \<open>\<open>bool(v)\<close>\<close>

fun truthy :: "json \<Rightarrow> bool" where
  "truthy JNull \<longleftrightarrow> False"
| "truthy (JBool b) \<longleftrightarrow> b"
| "truthy (JInt i) \<longleftrightarrow> i \<noteq> 0"
| "truthy (JFloat f) \<longleftrightarrow> f \<noteq> Fin 0"
| "truthy (JStr s) \<longleftrightarrow> s \<noteq> []"
| "truthy (JList vs) \<longleftrightarrow> vs \<noteq> []"
| "truthy (JObj kvs) \<longleftrightarrow> kvs \<noteq> []"

text \<open>\<open>set(d) - set(ks)\<close> and \<open>set(ks) - set(d)\<close>, in the dictionary's and the list's order.\<close>

definition keys_outside :: "json \<Rightarrow> string list \<Rightarrow> string list" where
  "keys_outside v ks = filter (\<lambda>k. k \<notin> set ks) (jkeys v)"

definition keys_missing :: "json \<Rightarrow> string list \<Rightarrow> string list" where
  "keys_missing v ks = filter (\<lambda>k. \<not> jhas v k) ks"

text \<open>\<open>set(d) == set(ks)\<close>\<close>

definition has_exactly :: "json \<Rightarrow> string list \<Rightarrow> bool" where
  "has_exactly v ks \<longleftrightarrow> keys_outside v ks = [] \<and> keys_missing v ks = []"

lemma jitems_JObj [simp]: "jitems (JObj kvs) = kvs"
  by (simp add: jitems_def)

lemma jget_default_JObj:
  "jget_default (JObj kvs) k d = (case map_of kvs k of Some w \<Rightarrow> w | None \<Rightarrow> d)"
  by (simp add: jget_default_def)

lemma jget_JObj: "jget (JObj kvs) k = (case map_of kvs k of Some w \<Rightarrow> w | None \<Rightarrow> JNull)"
  by (simp add: jget_def jget_default_def)

lemma jget_Cons [simp]:
  "jget (JObj ((k, v) # kvs)) k' = (if k' = k then v else jget (JObj kvs) k')"
  by (simp add: jget_JObj)

lemma jget_Nil [simp]: "jget (JObj []) k = JNull"
  by (simp add: jget_JObj)

lemma jhas_Cons [simp]: "jhas (JObj ((k, v) # kvs)) k' \<longleftrightarrow> k' = k \<or> jhas (JObj kvs) k'"
  by (simp add: jhas_def jkeys_def)

lemma jhas_Nil [simp]: "\<not> jhas (JObj []) k"
  by (simp add: jhas_def jkeys_def)

lemma jget_not_has: "\<not> jhas v k \<Longrightarrow> jget v k = JNull"
  by (simp add: jget_def jget_default_def jhas_def jkeys_def flip: map_of_eq_None_iff)

lemma map_of_al_put: "map_of (al_put k w kvs) = (map_of kvs)(k \<mapsto> w)"
  by (induction kvs) auto

lemma jget_jset: "jget (jset v k w) k' = (if k' = k then w else jget v k')"
  by (simp add: jget_def jget_default_def jset_def map_of_al_put)

lemma fst_al_put: "set (map fst (al_put k w kvs)) = insert k (set (map fst kvs))"
proof (induction kvs)
  case (Cons p kvs)
  then show ?case by (cases p) (auto simp del: set_map)
qed simp

lemma jhas_jset [simp]: "jhas (jset v k w) k' \<longleftrightarrow> k' = k \<or> jhas v k'"
  using fst_al_put [of k w "jitems v"] by (auto simp: jhas_def jkeys_def jset_def)

lemma is_JObj_jset [simp]: "is_JObj (jset v k w)"
  by (simp add: jset_def)

lemma keys_outside_Nil: "keys_outside v ks = [] \<longleftrightarrow> set (jkeys v) \<subseteq> set ks"
  by (auto simp: keys_outside_def filter_empty_conv)

lemma keys_missing_Nil: "keys_missing v ks = [] \<longleftrightarrow> (\<forall>k \<in> set ks. jhas v k)"
  by (auto simp: keys_missing_def filter_empty_conv)

lemma has_exactly_iff: "has_exactly v ks \<longleftrightarrow> set (jkeys v) = set ks"
  by (auto simp: has_exactly_def keys_outside_Nil keys_missing_Nil jhas_def)

section \<open>Python equality and membership\<close>

text \<open>The numeric value of a \<open>bool\<close>, \<open>int\<close> or \<open>float\<close>; \<open>None\<close> for the other types.\<close>

definition num_of :: "json \<Rightarrow> pyfloat option" where
  "num_of v = (case v of JBool b \<Rightarrow> Some (Fin (if b then 1 else 0)) | JInt i \<Rightarrow> Some (Fin (of_int i))
     | JFloat f \<Rightarrow> Some f | _ \<Rightarrow> None)"

fun float_eq :: "pyfloat \<Rightarrow> pyfloat \<Rightarrow> bool" where
  "float_eq (Fin a) (Fin b) \<longleftrightarrow> a = b"
| "float_eq (Inf a) (Inf b) \<longleftrightarrow> a = b"
| "float_eq _ _ \<longleftrightarrow> False"

fun py_eq :: "json \<Rightarrow> json \<Rightarrow> bool" where
  "py_eq (JStr s) w \<longleftrightarrow> w = JStr s"
| "py_eq (JList xs) w \<longleftrightarrow>
     (case w of JList ys \<Rightarrow> list_all2 py_eq xs ys | _ \<Rightarrow> False)"
| "py_eq (JObj kvs) w \<longleftrightarrow>
     (case w of JObj lws \<Rightarrow> length kvs = length lws \<and>
        list_all (\<lambda>(k, v). case map_of lws k of None \<Rightarrow> False | Some u \<Rightarrow> py_eq v u) kvs
      | _ \<Rightarrow> False)"
| "py_eq JNull w \<longleftrightarrow> w = JNull"
| "py_eq v w \<longleftrightarrow> (case (num_of v, num_of w) of (Some a, Some b) \<Rightarrow> float_eq a b | _ \<Rightarrow> False)"

declare py_eq.simps [simp del]

lemma py_eq_JInt [simp]: "py_eq (JInt i) (JInt j) \<longleftrightarrow> i = j"
  by (simp add: py_eq.simps num_of_def)

lemma py_eq_JStr [simp]: "py_eq (JStr s) w \<longleftrightarrow> w = JStr s"
  by (simp add: py_eq.simps)

lemma py_eq_JNull [simp]: "py_eq JNull w \<longleftrightarrow> w = JNull"
  by (simp add: py_eq.simps)

lemma py_eq_JStr_right [simp]: "py_eq v (JStr s) \<longleftrightarrow> v = JStr s"
  by (cases v) (auto simp: py_eq.simps num_of_def)

lemma py_eq_JNull_right [simp]: "py_eq v JNull \<longleftrightarrow> v = JNull"
  by (cases v) (auto simp: py_eq.simps num_of_def)

text \<open>Between an integer and an expected integer, equality of values forces equality.\<close>

lemma py_eq_is_JInt: "is_JInt v \<Longrightarrow> py_eq v (JInt j) \<longleftrightarrow> v = JInt j"
  by (auto elim: is_JIntE)

lemma list_all2_py_eq_JInt:
  "list_all is_JInt xs \<Longrightarrow> list_all2 py_eq xs (map JInt js) \<longleftrightarrow> xs = map JInt js"
proof (induction xs arbitrary: js)
  case Nil
  then show ?case by (cases js) auto
next
  case (Cons x xs)
  then show ?case by (cases js) (auto simp: py_eq_is_JInt)
qed

lemma py_eq_jints:
  "list_all is_JInt xs \<Longrightarrow> py_eq (JList xs) (jints js) \<longleftrightarrow> xs = map JInt js"
  by (simp add: py_eq.simps jints_def list_all2_py_eq_JInt)

lemma py_eq_jints_jints [simp]: "py_eq (jints xs) (jints ys) \<longleftrightarrow> xs = ys"
proof -
  have "inj JInt" by (rule injI) simp
  then show ?thesis
    using py_eq_jints [of "map JInt xs" ys] by (simp add: jints_def list_all_iff inj_map_eq_map)
qed

lemma py_eq_JFloat [simp]: "py_eq (JFloat x) (JFloat y) \<longleftrightarrow> float_eq x y"
  by (simp add: py_eq.simps num_of_def)

text \<open>
  Lists and dictionaries are unhashable: testing such a value for membership in a \<open>set\<close> raises
  \<open>TypeError\<close>.
\<close>

definition hashable :: "json \<Rightarrow> bool" where
  "hashable v \<longleftrightarrow> \<not> is_JList v \<and> \<not> is_JObj v"

text \<open>\<open>if v not in {ss}: raise e\<close> for a set of strings.\<close>

definition require_member :: "json \<Rightarrow> string list \<Rightarrow> py_error \<Rightarrow> check" where
  "require_member v ss e = first_error
     [reject (\<not> hashable v) (TypeError ''unhashable type''),
      reject (v \<notin> set (map JStr ss)) e]"

lemma require_member_None [simp, accept_simps]:
  "require_member v ss e = None \<longleftrightarrow> v \<in> set (map JStr ss)"
  by (auto simp: require_member_def hashable_def)

end
