(* ===== verification/Serving_Schema.thy ===== *)
theory Serving_Schema
  imports Py_Json
begin

text \<open>
  The schema constants of \<open>benchmarks/serving_common.py\<close> and its field checkers
  (\<open>_require_int\<close>, \<open>_require_str\<close>, \<open>_field_int\<close>, \<open>_exact_number\<close>, \<open>_closed_fields\<close>,
  \<open>_nullable_str\<close>, \<open>_number_in_unit_interval\<close>, \<open>_id_array\<close>, \<open>_conserved\<close>). A checker is the
  exception it raises, or \<open>None\<close>; the lemmas in \<open>accept_simps\<close> say what its acceptance means.
\<close>

section \<open>Schema constants\<close>

definition WORKLOAD_SCHEMA_VERSION :: string where
  "WORKLOAD_SCHEMA_VERSION = ''serving-workload-v1''"
definition MANIFEST_SCHEMA_VERSION :: string where
  "MANIFEST_SCHEMA_VERSION = ''serving-workload-manifest-v1''"
definition CONFIG_SCHEMA_VERSION :: string where
  "CONFIG_SCHEMA_VERSION = ''serving-benchmark-config-v1''"
definition RESULT_SCHEMA_VERSION :: string where
  "RESULT_SCHEMA_VERSION = ''serving-result-v1''"
definition SIMULATOR_SCHEMA_VERSION :: string where
  "SIMULATOR_SCHEMA_VERSION = ''serving-simulator-v2''"
definition MATRIX_SCHEMA_VERSION :: string where
  "MATRIX_SCHEMA_VERSION = ''serving-matrix-v1''"

definition WORKLOAD_CLASSES :: "string list" where
  "WORKLOAD_CLASSES =
     [''chat'', ''shared_system_prompt'', ''coding_agent'', ''mixed'', ''overload'', ''burst'']"
definition ARRIVAL_MODELS :: "string list" where
  "ARRIVAL_MODELS = [''fixed_interval'', ''burst'', ''exponential'', ''manual'']"

definition RUN_RECORD_FIELDS :: "string list" where
  "RUN_RECORD_FIELDS =
    [''record_type'', ''schema_version'', ''evidence_type'', ''label'', ''git_revision'', ''branch'',
     ''dirty_worktree'', ''llama_cpp_submodule_revision'', ''normalized_config'', ''config_sha256'',
     ''workload_manifest'', ''workload_sha256'', ''seed'', ''simulator_schema_version'',
     ''result_schema_version'', ''python_version'', ''python_executable'', ''cmake_build_type'',
     ''benchmark_runner'', ''commands'', ''timestamp'', ''execution_mode'', ''scheduling_policy'']"
definition MANIFEST_RECORD_FIELDS :: "string list" where
  "MANIFEST_RECORD_FIELDS =
    [''schema_version'', ''workload_schema_version'', ''workload_class'', ''request_count'', ''seed'',
     ''generator_config'', ''generator'', ''timestamp'', ''workload_sha256'']"
definition REQUEST_RECORD_FIELDS :: "string list" where
  "REQUEST_RECORD_FIELDS =
    [''record_type'', ''schema_version'', ''evidence_type'', ''internal_id'', ''request_id'',
     ''workload_class'', ''prefix_group'', ''deadline_us'', ''metadata'', ''prompt_tokens'',
     ''arrival_time_us'', ''admitted_time_us'', ''first_token_time_us'', ''finish_time_us'',
     ''queue_delay_us'', ''ttft_us'', ''end_to_end_latency_us'', ''tpot_us'',
     ''prompt_tokens_original'', ''prompt_tokens_matched'', ''prompt_tokens_scheduled'',
     ''generated_tokens'', ''max_new_tokens'', ''final_state'', ''reason'',
     ''decode_token_times_us'', ''inter_token_latencies_us'']"
definition ITERATION_RECORD_FIELDS :: "string list" where
  "ITERATION_RECORD_FIELDS =
    [''record_type'', ''schema_version'', ''evidence_type'', ''iteration_number'', ''start_time_us'',
     ''end_time_us'', ''policy'', ''prefill_ids'', ''decode_ids'', ''deferred'',
     ''scheduled_sequences'', ''scheduled_prefill_tokens'', ''scheduled_decode_tokens'',
     ''total_scheduled_tokens'', ''kv_allocated'', ''kv_free'', ''kv_utilization'',
     ''represented_kv_tokens'', ''internal_fragmentation_tokens'', ''cached_blocks'',
     ''shared_referenced_blocks'', ''prefix_hits'', ''prefix_misses'', ''matched_tokens'',
     ''evicted_ids'', ''stall'']"
definition SUMMARY_RECORD_FIELDS :: "string list" where
  "SUMMARY_RECORD_FIELDS =
    [''record_type'', ''schema_version'', ''evidence_type'', ''execution_mode'', ''scheduling_policy'',
     ''run_status'', ''submitted'', ''completed'', ''cancelled'', ''rejected'', ''stalled'',
     ''makespan_us'', ''scheduling_iterations'', ''nonempty_batches'', ''idle_iterations'',
     ''total_scheduled_sequences'', ''average_batch_size'', ''max_batch_size'',
     ''max_scheduled_tokens'', ''deferred_requests'', ''current_allocated_blocks'',
     ''current_free_blocks'', ''peak_allocated_blocks'', ''kv_current_utilization'',
     ''kv_peak_utilization'', ''represented_kv_tokens'', ''internal_fragmentation_tokens'',
     ''cached_blocks'', ''shared_referenced_blocks'', ''kv_allocation_failures'',
     ''kv_capacity_deferrals'', ''prefix_lookups'', ''prefix_lookup_hits'', ''prefix_lookup_misses'',
     ''matched_prefix_blocks'', ''cache_eligible_prompt_tokens'', ''collision_verifications'',
     ''matched_prefix_tokens'', ''prefix_token_hit_rate'', ''saved_simulated_prefill_tokens'',
     ''eviction_count'', ''submitted_prompt_tokens'', ''scheduled_prefill_tokens'',
     ''generated_tokens'', ''scheduled_decode_tokens'']"

section \<open>Field checkers\<close>

definition require_int :: "json \<Rightarrow> string \<Rightarrow> int \<Rightarrow> check" where
  "require_int value name minimum = first_error
     [reject (\<not> is_JInt value) (ValidationError (name @ '' must be an integer'')),
      reject (int_of value < minimum) (ValidationError (name @ '' must be >= '' @ str_int minimum))]"

definition nonempty_str :: "json \<Rightarrow> bool" where
  "nonempty_str v \<longleftrightarrow> is_JStr v \<and> str_of v \<noteq> []"

definition require_str :: "json \<Rightarrow> string \<Rightarrow> bool \<Rightarrow> check" where
  "require_str value name allow_empty =
     reject (\<not> is_JStr value \<or> (str_of value = [] \<and> \<not> allow_empty))
       (ValidationError (name @ '' must be a '' @ (if allow_empty then ''possibly empty '' else []) @ ''string''))"

definition field_int :: "json \<Rightarrow> string \<Rightarrow> string \<Rightarrow> bool \<Rightarrow> check" where
  "field_int record name ctx nullable =
     (let value = jget record name in
      if value = JNull \<and> nullable then None
      else first_error
        [reject (\<not> is_JInt value) (ValidationError (ctx @ '': '' @ name @ '' must be ''
            @ (if nullable then ''null or '' else []) @ ''an integer'')),
         reject (int_of value < 0) (ValidationError (ctx @ '': '' @ name @ '' must be non-negative''))])"

definition is_number :: "json \<Rightarrow> bool" where
  "is_number v \<longleftrightarrow> (case v of JInt _ \<Rightarrow> True | JFloat _ \<Rightarrow> True | _ \<Rightarrow> False)"

definition exact_number :: "json \<Rightarrow> json \<Rightarrow> string \<Rightarrow> string \<Rightarrow> check" where
  "exact_number actual expected name ctx =
     (if expected = JNull
      then reject (actual \<noteq> JNull) (ValidationError (ctx @ '': '' @ name @ '' must be null''))
      else reject (\<not> is_number actual \<or> \<not> py_eq actual expected)
             (ValidationError (ctx @ '': contradictory '' @ name)))"

definition closed_fields :: "json \<Rightarrow> string list \<Rightarrow> string \<Rightarrow> check" where
  "closed_fields record expected ctx = first_error
     [reject (keys_missing record expected \<noteq> []) (ValidationError (ctx @ '': missing field'')),
      reject (keys_outside record expected \<noteq> []) (ValidationError (ctx @ '': unknown field''))]"

definition nullable_str :: "json \<Rightarrow> string \<Rightarrow> string \<Rightarrow> check" where
  "nullable_str value name ctx =
     reject (value \<noteq> JNull \<and> \<not> is_JStr value)
       (ValidationError (ctx @ '': '' @ name @ '' must be null or a string''))"

text \<open>
  \<open>math.isfinite(value)\<close> converts its argument to a float: an integer that is too large for one
  raises \<open>OverflowError\<close>.
\<close>

definition isfinite_overflows :: "json \<Rightarrow> bool" where
  "isfinite_overflows v \<longleftrightarrow> (case v of JInt i \<Rightarrow> fl_checked (of_int i) = None | _ \<Rightarrow> False)"

definition in_unit_interval :: "json \<Rightarrow> bool" where
  "in_unit_interval v \<longleftrightarrow>
     (case num_of v of Some (Fin q) \<Rightarrow> 0 \<le> q \<and> q \<le> 1 | _ \<Rightarrow> False)"

definition number_in_unit_interval :: "json \<Rightarrow> string \<Rightarrow> string \<Rightarrow> bool \<Rightarrow> check" where
  "number_in_unit_interval value name ctx nullable =
     (if nullable \<and> value = JNull then None
      else let e = ValidationError (ctx @ '': '' @ name @ '' must be ''
              @ (if nullable then ''null or '' else []) @ ''a finite number in [0,1]'') in
        first_error [reject (\<not> is_number value) e,
                     reject (isfinite_overflows value) OverflowError,
                     reject (\<not> in_unit_interval value) e])"

text \<open>\<open>not isinstance(item, bool) and isinstance(item, int) and item >= 0\<close>\<close>

definition nonneg_int :: "json \<Rightarrow> bool" where
  "nonneg_int v \<longleftrightarrow> is_JInt v \<and> 0 \<le> int_of v"

definition id_array :: "json \<Rightarrow> string \<Rightarrow> string \<Rightarrow> int list \<Rightarrow> check" where
  "id_array value name ctx known_ids = first_error
     [reject (\<not> is_JList value) (ValidationError (ctx @ '': '' @ name @ '' must be an array'')),
      reject (\<not> list_all nonneg_int (list_of value))
        (ValidationError (ctx @ '': '' @ name @ '' must contain non-negative integers'')),
      reject (\<not> distinct (ints_of value))
        (ValidationError (ctx @ '': '' @ name @ '' contains duplicate IDs'')),
      reject (\<not> set (ints_of value) \<subseteq> set known_ids)
        (ValidationError (ctx @ '': '' @ name @ '' references unknown request ID''))]"

definition conserved :: "json \<Rightarrow> json \<Rightarrow> string \<Rightarrow> string \<Rightarrow> check" where
  "conserved actual expected name ctx =
     reject (\<not> py_eq actual expected)
       (ValidationError (ctx @ '': '' @ name @ '' conservation mismatch''))"

text \<open>\<open>_conserved\<close> on two values the caller has computed as integers.\<close>

abbreviation conserved_int :: "int \<Rightarrow> int \<Rightarrow> string \<Rightarrow> string \<Rightarrow> check" where
  "conserved_int actual expected \<equiv> conserved (JInt actual) (JInt expected)"

section \<open>What acceptance means\<close>

lemma require_int_None [simp, accept_simps]:
  "require_int v name m = None \<longleftrightarrow> is_JInt v \<and> m \<le> int_of v"
  by (auto simp: require_int_def)

lemma require_str_None [simp, accept_simps]:
  "require_str v name allow = None \<longleftrightarrow> is_JStr v \<and> (str_of v \<noteq> [] \<or> allow)"
  by (auto simp: require_str_def)

lemma field_int_None [simp, accept_simps]:
  "field_int r name ctx nullable = None \<longleftrightarrow>
     (nullable \<and> jget r name = JNull) \<or> (is_JInt (jget r name) \<and> 0 \<le> int_of (jget r name))"
  by (auto simp: field_int_def Let_def)

lemma exact_number_JNull [simp, accept_simps]:
  "exact_number a JNull name ctx = None \<longleftrightarrow> a = JNull"
  by (simp add: exact_number_def)

lemma exact_number_JInt [simp, accept_simps]:
  "exact_number a (JInt i) name ctx = None \<longleftrightarrow> is_number a \<and> num_of a = Some (Fin (of_int i))"
proof (cases a)
  case (JFloat f)
  then show ?thesis
    by (cases f) (auto simp: exact_number_def is_number_def py_eq.simps num_of_def)
qed (auto simp: exact_number_def is_number_def py_eq.simps num_of_def)

lemma exact_number_JFloat [simp, accept_simps]:
  "exact_number a (JFloat (Fin q)) name ctx = None \<longleftrightarrow> is_number a \<and> num_of a = Some (Fin q)"
proof (cases a)
  case (JFloat f)
  then show ?thesis
    by (cases f) (auto simp: exact_number_def is_number_def py_eq.simps num_of_def)
qed (auto simp: exact_number_def is_number_def py_eq.simps num_of_def)

lemma closed_fields_None [simp, accept_simps]:
  "closed_fields r fs ctx = None \<longleftrightarrow> has_exactly r fs"
  by (auto simp: closed_fields_def has_exactly_def)

lemma nullable_str_None [simp, accept_simps]:
  "nullable_str v name ctx = None \<longleftrightarrow> v = JNull \<or> is_JStr v"
  by (auto simp: nullable_str_def)

lemma unit_no_overflow: "in_unit_interval v \<Longrightarrow> \<not> isfinite_overflows v"
  by (cases v) (auto simp: in_unit_interval_def isfinite_overflows_def num_of_def fl_checked_unit)

lemma number_in_unit_interval_None [simp, accept_simps]:
  "number_in_unit_interval v name ctx nullable = None \<longleftrightarrow>
     (nullable \<and> v = JNull) \<or> (is_number v \<and> in_unit_interval v)"
  by (auto simp: number_in_unit_interval_def Let_def is_number_def unit_no_overflow)

lemma id_array_None [simp, accept_simps]:
  "id_array v name ctx known = None \<longleftrightarrow>
     is_JList v \<and> list_all nonneg_int (list_of v) \<and> distinct (ints_of v) \<and>
     set (ints_of v) \<subseteq> set known"
  by (simp add: id_array_def)

lemma conserved_None [accept_simps]:
  "conserved a b name ctx = None \<longleftrightarrow> py_eq a b"
  by (simp add: conserved_def)

lemma conserved_int_None [simp, accept_simps]:
  "conserved_int i j name ctx = None \<longleftrightarrow> i = j"
  by (simp add: conserved_def)

lemma conserved_JInt_None [simp]:
  "is_JInt v \<Longrightarrow> conserved v (JInt i) name ctx = None \<longleftrightarrow> int_of v = i"
  by (auto simp: conserved_def elim: is_JIntE)

lemma exact_number_of_JInt:
  "is_JInt v \<Longrightarrow> exact_number v (JInt i) name ctx = None \<longleftrightarrow> int_of v = i"
  by (auto simp: num_of_def is_number_def elim: is_JIntE)

lemma has_exactly_jhas: "has_exactly r fs \<Longrightarrow> k \<in> set fs \<Longrightarrow> jhas r k"
  by (simp add: has_exactly_iff jhas_def)

end
