(* ===== verification/Native_Request.thy ===== *)
theory Native_Request
  imports Serving_Schema
begin

text \<open>
  The request records of the native result stream: \<open>request_metrics\<close> and the request loop of
  \<open>validate_native_records\<close> in \<open>benchmarks/serving_common.py\<close>, split at the code's own paragraphs
  (identity, token accounting, lifecycle, decode timing, derived metrics).

  The specification is a state machine of one request's life (submit, admit, start decoding,
  emit a token, finish, cancel). The two refinement lemmas say that the loop body accepts
  exactly the records that such a run leaves behind.
\<close>

section \<open>Derived metrics of a request\<close>

record metrics =
  m_queue_delay :: "int option"
  m_ttft :: "int option"
  m_e2e :: "int option"
  m_tpot :: "rat option"

text \<open>The readers name the four times and the token count that \<open>request_metrics\<close> reads.\<close>

definition r_arrival :: "json \<Rightarrow> int" where "r_arrival r = int_of (jget r ''arrival_time_us'')"
definition r_admitted :: "json \<Rightarrow> int option" where "r_admitted r = opt_int (jget r ''admitted_time_us'')"
definition r_first :: "json \<Rightarrow> int option" where "r_first r = opt_int (jget r ''first_token_time_us'')"
definition r_finish :: "json \<Rightarrow> int option" where "r_finish r = opt_int (jget r ''finish_time_us'')"
definition r_generated :: "json \<Rightarrow> int" where "r_generated r = int_of (jget r ''generated_tokens'')"
definition r_original :: "json \<Rightarrow> int" where "r_original r = int_of (jget r ''prompt_tokens_original'')"
definition r_matched :: "json \<Rightarrow> int" where "r_matched r = int_of (jget r ''prompt_tokens_matched'')"
definition r_scheduled :: "json \<Rightarrow> int" where "r_scheduled r = int_of (jget r ''prompt_tokens_scheduled'')"
definition r_max_new :: "json \<Rightarrow> int" where "r_max_new r = int_of (jget r ''max_new_tokens'')"
definition r_state :: "json \<Rightarrow> json" where "r_state r = jget r ''final_state''"
definition r_reason :: "json \<Rightarrow> json" where "r_reason r = jget r ''reason''"
definition r_times :: "json \<Rightarrow> int list" where "r_times r = ints_of (jget r ''decode_token_times_us'')"
definition r_gaps :: "json \<Rightarrow> int list" where "r_gaps r = ints_of (jget r ''inter_token_latencies_us'')"
definition r_native_id :: "json \<Rightarrow> int" where "r_native_id r = int_of (jget r ''internal_id'')"
definition r_request_id :: "json \<Rightarrow> string" where "r_request_id r = str_of (jget r ''request_id'')"

lemmas r_defs = r_arrival_def r_admitted_def r_first_def r_finish_def r_generated_def r_original_def
  r_matched_def r_scheduled_def r_max_new_def r_state_def r_reason_def r_times_def r_gaps_def
  r_native_id_def r_request_id_def

text \<open>\<open>None if x is None else x - y\<close>\<close>

definition opt_minus :: "int option \<Rightarrow> int \<Rightarrow> int option" where
  "opt_minus x y = (case x of None \<Rightarrow> None | Some i \<Rightarrow> Some (i - y))"

lemma opt_minus_simps [simp]: "opt_minus None y = None" "opt_minus (Some i) y = Some (i - y)"
  by (simp_all add: opt_minus_def)

definition request_metrics :: "json \<Rightarrow> metrics res" where
  "request_metrics record =
     (let arrival = r_arrival record; admitted = r_admitted record; first = r_first record;
          finish = r_finish record; generated = r_generated record in
      rbind (if generated < 2 then Inr None
             else case (first, finish) of
               (Some f, Some n) \<Rightarrow> map_sum id Some (py_truediv (n - f) (generated - 1))
             | _ \<Rightarrow> Inr None)
        (\<lambda>tpot. Inr \<lparr>m_queue_delay = opt_minus admitted arrival,
                m_ttft = (if generated = 0 then None else opt_minus first arrival),
                m_e2e = opt_minus finish arrival,
                m_tpot = tpot\<rparr>))"

section \<open>The request loop of validate_native_records\<close>

definition valid_states :: "string list" where
  "valid_states = [''Waiting'', ''Prefilling'', ''Decoding'', ''Finished'', ''Cancelled'']"

definition int32_token :: "json \<Rightarrow> bool" where
  "int32_token t \<longleftrightarrow> is_JInt t \<and> - (2 ^ 31) \<le> int_of t \<and> int_of t \<le> 2 ^ 31 - 1"

definition check_request_identity :: "string \<Rightarrow> string list \<Rightarrow> int list \<Rightarrow> json \<Rightarrow> check" where
  "check_request_identity ctx external_ids native_ids record =
     (let V = (\<lambda>m. ValidationError (ctx @ '': '' @ m)); g = jget record in first_error
      [closed_fields record REQUEST_RECORD_FIELDS ctx,
       reject (\<not> nonempty_str (g ''request_id'')) (V ''request_id must be a nonempty string''),
       reject (r_request_id record \<in> set external_ids) (V ''duplicate request_id''),
       field_int record ''internal_id'' ctx False,
       reject (r_native_id record \<in> set native_ids) (V ''duplicate internal_id''),
       reject (\<not> nonempty_str (g ''workload_class'')) (V ''workload_class must be a nonempty string''),
       reject (str_of (g ''workload_class'') \<notin> set WORKLOAD_CLASSES) (V ''unknown workload_class''),
       nullable_str (g ''prefix_group'') ''prefix_group'' ctx,
       reject (g ''prefix_group'' = JStr []) (V ''prefix_group must be null or nonempty''),
       field_int record ''deadline_us'' ctx True,
       reject (\<not> is_JObj (g ''metadata'')) (V ''metadata must be an object''),
       (let prompt_tokens = g ''prompt_tokens'' in
        if prompt_tokens = JNull then None
        else first_error
          [reject (\<not> is_JList prompt_tokens) (V ''prompt_tokens must be null or an array''),
           reject (\<not> list_all int32_token (list_of prompt_tokens))
             (V ''prompt_tokens must be a signed int32'')])])"

definition check_request_accounting :: "string \<Rightarrow> json \<Rightarrow> check" where
  "check_request_accounting ctx record =
     (let V = (\<lambda>m. ValidationError (ctx @ '': '' @ m));
          prompt_tokens = jget record ''prompt_tokens'';
          admitted = r_admitted record; generated = r_generated record;
          original = r_original record; matched = r_matched record; scheduled = r_scheduled record
      in first_error
      [first_error (map (\<lambda>name. field_int record name ctx False)
         [''arrival_time_us'', ''prompt_tokens_original'', ''prompt_tokens_matched'',
          ''prompt_tokens_scheduled'', ''generated_tokens'', ''max_new_tokens'']),
       field_int record ''admitted_time_us'' ctx True,
       field_int record ''first_token_time_us'' ctx True,
       field_int record ''finish_time_us'' ctx True,
       reject (prompt_tokens \<noteq> JNull \<and> int (length (list_of prompt_tokens)) \<noteq> original)
         (V ''prompt_tokens length disagrees with prompt_tokens_original''),
       reject (original < matched \<or> original < scheduled)
         (V ''matched/scheduled prompt tokens exceed original''),
       reject (admitted \<noteq> None \<and> matched + scheduled \<noteq> original)
         (V ''prompt accounting contradiction; expected original == matched + scheduled''),
       reject (admitted = None \<and> (matched \<noteq> 0 \<or> scheduled \<noteq> 0 \<or> generated \<noteq> 0))
         (V ''unadmitted request reports executed work''),
       reject (r_max_new record < generated) (V ''generated_tokens exceeds max_new_tokens'')])"

text \<open>\<open>x is not None and P(x)\<close>\<close>

definition opt_test :: "int option \<Rightarrow> (int \<Rightarrow> bool) \<Rightarrow> bool" where
  "opt_test x P \<longleftrightarrow> (case x of None \<Rightarrow> False | Some i \<Rightarrow> P i)"

lemma opt_test_simps [simp]: "\<not> opt_test None P" "opt_test (Some i) P \<longleftrightarrow> P i"
  by (simp_all add: opt_test_def)

definition check_request_lifecycle :: "string \<Rightarrow> json \<Rightarrow> check" where
  "check_request_lifecycle ctx record =
     (let V = (\<lambda>m. ValidationError (ctx @ '': '' @ m));
          arrival = r_arrival record; admitted = r_admitted record; first = r_first record;
          finish = r_finish record; generated = r_generated record;
          state = r_state record; reason = r_reason record
      in first_error
      [reject (opt_test admitted (\<lambda>a. a < arrival)) (V ''admitted_time_us precedes arrival_time_us''),
       reject (opt_test first (\<lambda>f. admitted = None \<or> opt_test admitted (\<lambda>a. f < a)))
         (V ''first_token_time_us precedes admission''),
       reject (opt_test finish (\<lambda>n. n < arrival \<or> opt_test admitted (\<lambda>a. n < a)
                                   \<or> opt_test first (\<lambda>f. n < f)))
         (V ''finish_time_us contradicts lifecycle order''),
       require_member state valid_states (V ''invalid final_state''),
       nullable_str reason ''reason'' ctx,
       reject (state = JStr ''Finished'' \<and> (admitted = None \<or> finish = None \<or> reason \<noteq> JNull))
         (V ''Finished lifecycle/reason fields are inconsistent''),
       reject (state \<noteq> JStr ''Finished'' \<and> finish \<noteq> None) (V ''unfinished request has finish_time_us''),
       reject (state = JStr ''Cancelled'' \<and> (reason = JNull \<or> reason = JStr []))
         (V ''Cancelled request requires a reason''),
       reject (state \<noteq> JStr ''Cancelled'' \<and> reason \<noteq> JNull)
         (V ''non-Cancelled request must have null reason''),
       reject (state = JStr ''Waiting'' \<and> (admitted \<noteq> None \<or> first \<noteq> None \<or> generated \<noteq> 0))
         (V ''Waiting request has admitted/decode state''),
       reject (state = JStr ''Prefilling'' \<and> (admitted = None \<or> first \<noteq> None \<or> generated \<noteq> 0))
         (V ''Prefilling lifecycle fields are inconsistent''),
       reject (state = JStr ''Decoding'' \<and> admitted = None) (V ''Decoding request lacks admission''),
       reject (generated = 0 \<and> first \<noteq> None) (V ''zero-output request has first_token_time_us''),
       reject (0 < generated \<and> first = None) (V ''generated request lacks first_token_time_us'')])"

text \<open>\<open>[right - left for left, right in zip(times, times[1:])]\<close>\<close>

definition gaps_of :: "int list \<Rightarrow> int list" where
  "gaps_of ts = map (\<lambda>(left, right). right - left) (zip ts (tl ts))"

definition check_request_timing :: "string \<Rightarrow> json \<Rightarrow> check" where
  "check_request_timing ctx record =
     (let V = (\<lambda>m. ValidationError (ctx @ '': '' @ m));
          jtimes = jget record ''decode_token_times_us''; jgaps = jget record ''inter_token_latencies_us'';
          times = r_times record; generated = r_generated record
      in first_error
      [reject (\<not> is_JList jtimes \<or> \<not> is_JList jgaps) (V ''decode timing fields must be arrays''),
       reject (\<not> list_all nonneg_int (list_of jtimes @ list_of jgaps))
         (V ''decode timing values must be non-negative integers''),
       conserved_int (int (length times)) generated ''decode timestamp count'' ctx,
       conserved_int (int (length (r_gaps record))) (max (generated - 1) 0)
         ''inter-token gap count'' ctx,
       reject (times \<noteq> sort times) (V ''decode timestamps must be non-decreasing''),
       reject (times \<noteq> [] \<and> Some (hd times) \<noteq> r_first record)
         (V ''first decode timestamp disagrees with first_token_time_us''),
       reject (r_state record = JStr ''Finished'' \<and> times \<noteq> [] \<and> Some (last times) \<noteq> r_finish record)
         (V ''final decode timestamp disagrees with finish_time_us''),
       conserved jgaps (jints (gaps_of times)) ''inter-token gaps'' ctx])"

definition check_request_derived :: "string \<Rightarrow> json \<Rightarrow> check" where
  "check_request_derived ctx record =
     (case request_metrics record of Inl e \<Rightarrow> Some e
      | Inr m \<Rightarrow> first_error
        [exact_number (jget record ''queue_delay_us'') (jopt JInt (m_queue_delay m)) ''queue_delay_us'' ctx,
         exact_number (jget record ''ttft_us'') (jopt JInt (m_ttft m)) ''ttft_us'' ctx,
         exact_number (jget record ''end_to_end_latency_us'') (jopt JInt (m_e2e m))
           ''end_to_end_latency_us'' ctx,
         exact_number (jget record ''tpot_us'') (jopt (\<lambda>q. JFloat (Fin q)) (m_tpot m)) ''tpot_us'' ctx])"

definition check_request :: "string list \<Rightarrow> int list \<Rightarrow> nat \<Rightarrow> json \<Rightarrow> check" where
  "check_request external_ids native_ids line record =
     (let ctx = ''request record at result line '' @ str_nat line in first_error
      [check_request_identity ctx external_ids native_ids record,
       check_request_accounting ctx record,
       check_request_lifecycle ctx record,
       check_request_timing ctx record,
       check_request_derived ctx record])"

text \<open>The loop: the identifier sets grow as the records are read.\<close>

fun check_requests :: "(nat \<times> json) list \<Rightarrow> string list \<Rightarrow> int list \<Rightarrow> check" where
  "check_requests [] external_ids native_ids = None"
| "check_requests ((line, record) # rest) external_ids native_ids =
     (case check_request external_ids native_ids line record of Some e \<Rightarrow> Some e
      | None \<Rightarrow> check_requests rest (r_request_id record # external_ids)
                  (r_native_id record # native_ids))"

end
