(* ===== verification/Request_Lifecycle.thy ===== *)
theory Request_Lifecycle
  imports Native_Request
begin

text \<open>
  The abstract specification behind the request checks: the life of one request as a step
  relation, the record such a life leaves behind, and the two directions of the refinement
  (an accepted record is the trace of a run; the trace of a run is accepted).
\<close>

section \<open>The life of a request\<close>

datatype phase = Waiting | Prefilling | Decoding | Finished | Cancelled

fun phase_name :: "phase \<Rightarrow> string" where
  "phase_name Waiting = ''Waiting''"
| "phase_name Prefilling = ''Prefilling''"
| "phase_name Decoding = ''Decoding''"
| "phase_name Finished = ''Finished''"
| "phase_name Cancelled = ''Cancelled''"

record life =
  l_phase :: phase
  l_now :: int
  l_arrival :: int
  l_admitted :: "int option"
  l_original :: int
  l_matched :: int
  l_scheduled :: int
  l_max_new :: int
  l_tokens :: "int list"
  l_finish :: "int option"
  l_reason :: string

definition submitted :: "int \<Rightarrow> int \<Rightarrow> int \<Rightarrow> life" where
  "submitted t original max_new =
     \<lparr>l_phase = Waiting, l_now = t, l_arrival = t, l_admitted = None, l_original = original,
      l_matched = 0, l_scheduled = 0, l_max_new = max_new, l_tokens = [], l_finish = None,
      l_reason = []\<rparr>"

text \<open>
  Time only moves forward (\<open>l_now\<close>). Admission splits the prompt into the part the prefix cache
  covers and the part that is scheduled; a request finishes at its last token, or, when it emits
  none, at any later time; any unfinished request can be cancelled.
\<close>

inductive life_step :: "life \<Rightarrow> life \<Rightarrow> bool" where
  admit: "l_phase l = Waiting \<Longrightarrow> l_now l \<le> t \<Longrightarrow> 0 \<le> m \<Longrightarrow> m \<le> l_original l \<Longrightarrow>
    life_step l (l\<lparr>l_phase := Prefilling, l_now := t, l_admitted := Some t, l_matched := m,
                   l_scheduled := l_original l - m\<rparr>)"
| start_decode: "l_phase l = Prefilling \<Longrightarrow> l_now l \<le> t \<Longrightarrow>
    life_step l (l\<lparr>l_phase := Decoding, l_now := t\<rparr>)"
| emit: "l_phase l = Decoding \<Longrightarrow> l_now l \<le> t \<Longrightarrow> int (length (l_tokens l)) < l_max_new l \<Longrightarrow>
    life_step l (l\<lparr>l_now := t, l_tokens := l_tokens l @ [t]\<rparr>)"
| finish: "l_phase l = Decoding \<Longrightarrow> l_tokens l \<noteq> [] \<Longrightarrow>
    life_step l (l\<lparr>l_phase := Finished, l_finish := Some (last (l_tokens l))\<rparr>)"
| finish_empty: "l_phase l = Prefilling \<or> l_phase l = Decoding \<Longrightarrow> l_tokens l = [] \<Longrightarrow> l_now l \<le> t \<Longrightarrow>
    life_step l (l\<lparr>l_phase := Finished, l_now := t, l_finish := Some t\<rparr>)"
| cancel: "l_phase l \<in> {Waiting, Prefilling, Decoding} \<Longrightarrow> why \<noteq> [] \<Longrightarrow>
    life_step l (l\<lparr>l_phase := Cancelled, l_reason := why\<rparr>)"

inductive_cases life_stepE: "life_step l l'"

definition life_reach :: "life \<Rightarrow> bool" where
  "life_reach l \<longleftrightarrow> (\<exists>t original max_new. 0 \<le> t \<and> 0 \<le> original \<and> 0 \<le> max_new \<and>
     life_step\<^sup>*\<^sup>* (submitted t original max_new) l)"

section \<open>The invariant of a life\<close>

definition admission_inv :: "life \<Rightarrow> bool" where
  "admission_inv l \<longleftrightarrow> (case l_admitted l of
     None \<Rightarrow> l_matched l = 0 \<and> l_scheduled l = 0 \<and> l_tokens l = [] \<and> l_phase l \<in> {Waiting, Cancelled}
   | Some a \<Rightarrow> l_arrival l \<le> a \<and> a \<le> l_now l \<and> 0 \<le> l_matched l \<and> 0 \<le> l_scheduled l \<and>
       l_matched l + l_scheduled l = l_original l \<and> (\<forall>t \<in> set (l_tokens l). a \<le> t) \<and>
       l_phase l \<noteq> Waiting)"

definition finish_inv :: "life \<Rightarrow> bool" where
  "finish_inv l \<longleftrightarrow> (case l_finish l of
     None \<Rightarrow> l_phase l \<noteq> Finished
   | Some n \<Rightarrow> l_phase l = Finished \<and> n \<le> l_now l \<and> (\<forall>a. l_admitted l = Some a \<longrightarrow> a \<le> n) \<and>
       (\<forall>t \<in> set (l_tokens l). t \<le> n) \<and> (l_tokens l \<noteq> [] \<longrightarrow> n = last (l_tokens l)))"

definition life_inv :: "life \<Rightarrow> bool" where
  "life_inv l \<longleftrightarrow> 0 \<le> l_arrival l \<and> l_arrival l \<le> l_now l \<and> 0 \<le> l_original l \<and>
     sorted (l_tokens l) \<and> (\<forall>t \<in> set (l_tokens l). t \<le> l_now l) \<and>
     int (length (l_tokens l)) \<le> l_max_new l \<and> admission_inv l \<and> finish_inv l \<and>
     (l_phase l \<in> {Waiting, Prefilling} \<longrightarrow> l_tokens l = []) \<and>
     (l_phase l = Cancelled \<longrightarrow> l_reason l \<noteq> [])"

lemma sorted_le_last: "sorted xs \<Longrightarrow> x \<in> set xs \<Longrightarrow> x \<le> last (xs :: int list)"
  by (induction xs) (auto split: if_splits)

lemma life_inv_submitted: "0 \<le> t \<Longrightarrow> 0 \<le> n \<Longrightarrow> 0 \<le> k \<Longrightarrow> life_inv (submitted t n k)"
  by (simp add: life_inv_def submitted_def admission_inv_def finish_inv_def)

lemma life_step_inv: "life_step l l' \<Longrightarrow> life_inv l \<Longrightarrow> life_inv l'"
proof (induction rule: life_step.induct)
  case (admit l t m)
  then show ?case
    by (auto simp: life_inv_def admission_inv_def finish_inv_def split: option.splits)
next
  case (start_decode l t)
  then show ?case
    by (force simp: life_inv_def admission_inv_def finish_inv_def split: option.splits)
next
  case (emit l t)
  then show ?case
    by (force simp: life_inv_def admission_inv_def finish_inv_def sorted_append split: option.splits)
next
  case (finish l)
  then show ?case
    by (force simp: life_inv_def admission_inv_def finish_inv_def sorted_le_last split: option.splits)
next
  case (finish_empty l t)
  then show ?case
    by (force simp: life_inv_def admission_inv_def finish_inv_def split: option.splits)
next
  case (cancel l why)
  then show ?case
    by (force simp: life_inv_def admission_inv_def finish_inv_def split: option.splits)
qed

lemma life_reach_inv: "life_reach l \<Longrightarrow> life_inv l"
proof -
  assume "life_reach l"
  then obtain t n k where nn: "0 \<le> t" "0 \<le> n" "0 \<le> k" and st: "life_step\<^sup>*\<^sup>* (submitted t n k) l"
    by (auto simp: life_reach_def)
  from st show ?thesis
    by (induction rule: rtranclp_induct) (use nn in \<open>auto intro: life_inv_submitted life_step_inv\<close>)
qed

section \<open>The record a life leaves behind\<close>

definition opt_hd :: "'a list \<Rightarrow> 'a option" where
  "opt_hd xs = (case xs of [] \<Rightarrow> None | x # _ \<Rightarrow> Some x)"

definition observes :: "json \<Rightarrow> life \<Rightarrow> bool" where
  "observes r l \<longleftrightarrow>
     r_arrival r = l_arrival l \<and> r_admitted r = l_admitted l \<and>
     r_first r = opt_hd (l_tokens l) \<and> r_finish r = l_finish l \<and>
     r_generated r = int (length (l_tokens l)) \<and> r_times r = l_tokens l \<and>
     r_gaps r = gaps_of (l_tokens l) \<and> r_original r = l_original l \<and>
     r_matched r = l_matched l \<and> r_scheduled r = l_scheduled l \<and> r_max_new r = l_max_new l \<and>
     r_state r = JStr (phase_name (l_phase l)) \<and>
     r_reason r = (if l_phase l = Cancelled then JStr (l_reason l) else JNull)"

section \<open>Runs\<close>

definition admitted_life :: "int \<Rightarrow> int \<Rightarrow> int \<Rightarrow> int \<Rightarrow> int \<Rightarrow> life" where
  "admitted_life t n k a m =
     (submitted t n k)\<lparr>l_phase := Prefilling, l_now := a, l_admitted := Some a, l_matched := m,
                       l_scheduled := n - m\<rparr>"

definition decoding_life :: "int \<Rightarrow> int \<Rightarrow> int \<Rightarrow> int \<Rightarrow> int \<Rightarrow> int list \<Rightarrow> life" where
  "decoding_life t n k a m ts =
     (admitted_life t n k a m)\<lparr>l_phase := Decoding, l_now := last (a # ts), l_tokens := ts\<rparr>"

lemma life_reach_submitted: "0 \<le> t \<Longrightarrow> 0 \<le> n \<Longrightarrow> 0 \<le> k \<Longrightarrow> life_reach (submitted t n k)"
  by (auto simp: life_reach_def)

lemma life_reach_step: "life_reach l \<Longrightarrow> life_step l l' \<Longrightarrow> life_reach l'"
  by (auto simp: life_reach_def intro: rtranclp.rtrancl_into_rtrancl)

lemma life_reach_admitted:
  assumes "0 \<le> t" "0 \<le> n" "0 \<le> k" "t \<le> a" "0 \<le> m" "m \<le> n"
  shows "life_reach (admitted_life t n k a m)"
proof -
  have "life_step (submitted t n k) (admitted_life t n k a m)"
    using life_step.admit [of "submitted t n k" a m] assms
    by (simp add: admitted_life_def submitted_def)
  with life_reach_submitted [OF assms(1-3)] show ?thesis by (rule life_reach_step)
qed

lemma life_reach_decoding:
  assumes "0 \<le> t" "0 \<le> n" "0 \<le> k" "t \<le> a" "0 \<le> m" "m \<le> n"
    and "sorted (a # ts)" "int (length ts) \<le> k"
  shows "life_reach (decoding_life t n k a m ts)"
  using assms(7,8)
proof (induction ts rule: rev_induct)
  case Nil
  have "life_step (admitted_life t n k a m) (decoding_life t n k a m [])"
    using life_step.start_decode [of "admitted_life t n k a m" a]
    by (simp add: decoding_life_def admitted_life_def submitted_def)
  with life_reach_admitted [OF assms(1-6)] show ?case by (rule life_reach_step)
next
  case (snoc x ts)
  then have IH: "life_reach (decoding_life t n k a m ts)"
    by (simp add: sorted_append)
  have "last (a # ts) \<le> x"
    using snoc.prems(1) by (auto simp: sorted_append)
  then have "life_step (decoding_life t n k a m ts) (decoding_life t n k a m (ts @ [x]))"
    using life_step.emit [of "decoding_life t n k a m ts" x] snoc.prems(2)
    by (simp add: decoding_life_def admitted_life_def submitted_def)
  with IH show ?case by (rule life_reach_step)
qed

section \<open>An accepted record is the trace of a run\<close>

text \<open>What the request checks establish, over the values the record holds.\<close>

definition request_wf :: "json \<Rightarrow> bool" where
  "request_wf r \<longleftrightarrow>
     0 \<le> r_arrival r \<and> 0 \<le> r_original r \<and> 0 \<le> r_matched r \<and> 0 \<le> r_scheduled r \<and>
     0 \<le> r_max_new r \<and>
     r_matched r \<le> r_original r \<and> r_scheduled r \<le> r_original r \<and>
     (r_admitted r = None \<longrightarrow> r_matched r = 0 \<and> r_scheduled r = 0 \<and> r_generated r = 0) \<and>
     (\<forall>a. r_admitted r = Some a \<longrightarrow> r_arrival r \<le> a \<and> r_matched r + r_scheduled r = r_original r) \<and>
     r_generated r \<le> r_max_new r \<and> r_generated r = int (length (r_times r)) \<and>
     sorted (r_times r) \<and> r_first r = opt_hd (r_times r) \<and> r_gaps r = gaps_of (r_times r) \<and>
     (\<forall>t a. r_first r = Some t \<longrightarrow> r_admitted r \<noteq> None \<and> (r_admitted r = Some a \<longrightarrow> a \<le> t)) \<and>
     (\<forall>n. r_finish r = Some n \<longrightarrow> r_arrival r \<le> n \<and> (\<forall>a. r_admitted r = Some a \<longrightarrow> a \<le> n)
        \<and> (r_times r \<noteq> [] \<longrightarrow> n = last (r_times r))) \<and>
     r_state r \<in> JStr ` set valid_states \<and>
     (r_state r = JStr ''Finished'' \<longleftrightarrow> r_finish r \<noteq> None) \<and>
     (r_state r = JStr ''Finished'' \<longrightarrow> r_admitted r \<noteq> None) \<and>
     (r_state r = JStr ''Cancelled'' \<longrightarrow> (\<exists>why. why \<noteq> [] \<and> r_reason r = JStr why)) \<and>
     (r_state r \<noteq> JStr ''Cancelled'' \<longrightarrow> r_reason r = JNull) \<and>
     (r_state r = JStr ''Waiting'' \<longrightarrow> r_admitted r = None) \<and>
     (r_state r = JStr ''Prefilling'' \<longrightarrow> r_admitted r \<noteq> None \<and> r_generated r = 0) \<and>
     (r_state r = JStr ''Decoding'' \<longrightarrow> r_admitted r \<noteq> None)"

lemma nullable_field_nonneg:
  "jget r k = JNull \<or> is_JInt (jget r k) \<and> 0 \<le> int_of (jget r k) \<Longrightarrow>
   opt_int (jget r k) = Some i \<Longrightarrow> 0 \<le> i"
  by (auto simp: opt_int_Some_iff)

lemma length_ints_of: "length (ints_of v) = length (list_of v)"
  by (simp add: ints_of_def)

lemma nonneg_int_jints: "list_all nonneg_int xs \<Longrightarrow> xs = map JInt (map int_of xs)"
  by (induction xs) (auto simp: nonneg_int_def elim: is_JIntE)

lemma nonneg_int_is_JInt: "list_all nonneg_int xs \<Longrightarrow> list_all is_JInt xs"
  by (induction xs) (auto simp: nonneg_int_def)

lemma conserved_jints:
  assumes "is_JList v" "list_all nonneg_int (list_of v)"
  shows "conserved v (jints xs) name ctx = None \<longleftrightarrow> ints_of v = xs"
proof -
  from assms(1) obtain ys where v: "v = JList ys" by (rule is_JListE)
  with assms(2) have ys: "list_all is_JInt ys" by (simp add: nonneg_int_is_JInt)
  have "ys = map JInt xs \<longleftrightarrow> map int_of ys = xs"
  proof
    assume "map int_of ys = xs"
    with assms(2) v show "ys = map JInt xs" using nonneg_int_jints [of ys] by simp
  qed (simp add: comp_def)
  with v ys show ?thesis by (simp add: conserved_None py_eq_jints ints_of_def)
qed

lemma opt_hd_eq: "(xs \<noteq> [] \<longrightarrow> Some (hd xs) = y) \<Longrightarrow> (xs = [] \<longrightarrow> y = None) \<Longrightarrow> y = opt_hd xs"
  by (cases xs) (auto simp: opt_hd_def)

lemma accepted_accounting:
  assumes "check_request_accounting ctx r = None"
  shows "0 \<le> r_arrival r" "0 \<le> r_original r" "0 \<le> r_matched r" "0 \<le> r_scheduled r"
    "0 \<le> r_max_new r" "0 \<le> r_generated r" "r_matched r \<le> r_original r" "r_scheduled r \<le> r_original r"
    "r_admitted r = None \<Longrightarrow> r_matched r = 0 \<and> r_scheduled r = 0 \<and> r_generated r = 0"
    "r_admitted r = Some a \<Longrightarrow> r_matched r + r_scheduled r = r_original r"
    "r_generated r \<le> r_max_new r"
  using assms by (auto simp: check_request_accounting_def Let_def r_defs)

lemma accepted_timing:
  assumes "check_request_timing ctx r = None"
  shows "r_generated r = int (length (r_times r))" "sorted (r_times r)"
    "r_gaps r = gaps_of (r_times r)"
    "r_times r \<noteq> [] \<Longrightarrow> r_first r = Some (hd (r_times r))"
    "r_state r = JStr ''Finished'' \<Longrightarrow> r_times r \<noteq> [] \<Longrightarrow> r_finish r = Some (last (r_times r))"
proof -
  from assms have t: "is_JList (jget r ''decode_token_times_us'')"
    "list_all nonneg_int (list_of (jget r ''decode_token_times_us''))"
    and g: "is_JList (jget r ''inter_token_latencies_us'')"
    "list_all nonneg_int (list_of (jget r ''inter_token_latencies_us''))"
    by (auto simp: check_request_timing_def Let_def)
  from assms show "r_generated r = int (length (r_times r))"
    "r_times r \<noteq> [] \<Longrightarrow> r_first r = Some (hd (r_times r))"
    "r_state r = JStr ''Finished'' \<Longrightarrow> r_times r \<noteq> [] \<Longrightarrow> r_finish r = Some (last (r_times r))"
    by (auto simp: check_request_timing_def Let_def)
  from assms have "r_times r = sort (r_times r)"
    by (auto simp: check_request_timing_def Let_def)
  then show "sorted (r_times r)" by (metis sorted_sort)
  from assms show "r_gaps r = gaps_of (r_times r)"
    by (auto simp: check_request_timing_def Let_def conserved_jints [OF g] r_gaps_def)
qed

lemma accepted_request_wf:
  assumes "check_request ext known line r = None"
  shows "request_wf r"
proof -
  from assms obtain ctx where
    a: "check_request_accounting ctx r = None" and l: "check_request_lifecycle ctx r = None"
    and t: "check_request_timing ctx r = None"
    by (auto simp: check_request_def Let_def)
  note acc = accepted_accounting [OF a] and tim = accepted_timing [OF t]
  have first: "r_first r = opt_hd (r_times r)"
    using l tim(1,4) by (intro opt_hd_eq) (auto simp: check_request_lifecycle_def Let_def)
  have state: "r_state r \<in> JStr ` set valid_states"
    using l by (simp add: check_request_lifecycle_def Let_def)
  have reason: "r_state r = JStr ''Cancelled'' \<longrightarrow> (\<exists>why. why \<noteq> [] \<and> r_reason r = JStr why)"
    using l by (auto simp: check_request_lifecycle_def Let_def elim: is_JStrE)
  have order: "r_admitted r = Some a \<longrightarrow> r_arrival r \<le> a"
    "r_first r = Some f \<longrightarrow> r_admitted r \<noteq> None \<and> (r_admitted r = Some a \<longrightarrow> a \<le> f)"
    "r_finish r = Some n \<longrightarrow> r_arrival r \<le> n \<and> (r_admitted r = Some a \<longrightarrow> a \<le> n)" for a f n
    using l by (auto simp: check_request_lifecycle_def Let_def opt_test_def split: option.splits)
  have fin: "r_state r = JStr ''Finished'' \<longleftrightarrow> r_finish r \<noteq> None"
    "r_state r = JStr ''Finished'' \<longrightarrow> r_admitted r \<noteq> None"
    using l by (auto simp: check_request_lifecycle_def Let_def)
  have last: "r_finish r = Some n \<longrightarrow> r_times r \<noteq> [] \<longrightarrow> n = last (r_times r)" for n
    using fin tim(5) by auto
  have rest: "r_state r \<noteq> JStr ''Cancelled'' \<longrightarrow> r_reason r = JNull"
    "r_state r = JStr ''Waiting'' \<longrightarrow> r_admitted r = None"
    "r_state r = JStr ''Prefilling'' \<longrightarrow> r_admitted r \<noteq> None \<and> r_generated r = 0"
    "r_state r = JStr ''Decoding'' \<longrightarrow> r_admitted r \<noteq> None"
    using l by (auto simp: check_request_lifecycle_def Let_def)
  show ?thesis
    unfolding request_wf_def
    using acc tim(1-3) first state reason order fin last rest by blast
qed

lemma opt_hd_Nil_iff: "opt_hd xs = None \<longleftrightarrow> xs = []"
  by (cases xs) (auto simp: opt_hd_def)

text \<open>The run behind an admitted record, up to the state Decoding.\<close>

lemma wf_decoding_reach:
  assumes "request_wf r" "r_admitted r = Some a"
  shows "life_reach (decoding_life (r_arrival r) (r_original r) (r_max_new r) a (r_matched r) (r_times r))"
proof (rule life_reach_decoding)
  have "sorted (r_times r)" and "\<forall>t. opt_hd (r_times r) = Some t \<longrightarrow> a \<le> t"
    using assms by (auto simp: request_wf_def)
  then show "sorted (a # r_times r)"
    by (cases "r_times r") (auto simp: opt_hd_def)
qed (use assms in \<open>auto simp: request_wf_def\<close>)

lemma wf_record_has_run:
  assumes wf: "request_wf r"
  shows "\<exists>l. life_reach l \<and> observes r l"
proof (cases "r_admitted r")
  case None
  let ?l = "submitted (r_arrival r) (r_original r) (r_max_new r)"
  have reach: "life_reach ?l"
    using wf by (auto simp: request_wf_def intro!: life_reach_submitted)
  have no_tokens: "r_times r = []" "r_finish r = None"
    using wf None by (auto simp: request_wf_def)
  from wf None have "r_state r = JStr ''Waiting'' \<or> r_state r = JStr ''Cancelled''"
    by (auto simp: request_wf_def valid_states_def)
  then show ?thesis
  proof
    assume "r_state r = JStr ''Waiting''"
    with wf None no_tokens have "observes r ?l"
      by (auto simp: observes_def request_wf_def submitted_def)
    with reach show ?thesis by blast
  next
    assume st: "r_state r = JStr ''Cancelled''"
    with wf obtain why where why: "why \<noteq> []" "r_reason r = JStr why"
      by (auto simp: request_wf_def)
    let ?c = "?l\<lparr>l_phase := Cancelled, l_reason := why\<rparr>"
    have "life_step ?l ?c"
      using why by (intro life_step.cancel) (auto simp: submitted_def)
    with reach have "life_reach ?c" by (rule life_reach_step)
    moreover have "observes r ?c"
      using wf None no_tokens st why by (auto simp: observes_def request_wf_def submitted_def)
    ultimately show ?thesis by blast
  qed
next
  case (Some a)
  let ?d = "decoding_life (r_arrival r) (r_original r) (r_max_new r) a (r_matched r) (r_times r)"
  have reach: "life_reach ?d" using wf Some by (rule wf_decoding_reach)
  have obs: "r_arrival r = l_arrival ?d" "r_admitted r = l_admitted ?d"
    "r_first r = opt_hd (l_tokens ?d)" "r_generated r = int (length (l_tokens ?d))"
    "r_times r = l_tokens ?d" "r_gaps r = gaps_of (l_tokens ?d)" "r_original r = l_original ?d"
    "r_matched r = l_matched ?d" "r_scheduled r = l_scheduled ?d" "r_max_new r = l_max_new ?d"
    "l_finish ?d = None"
    using wf Some by (auto simp: request_wf_def decoding_life_def admitted_life_def submitted_def)
  have ph: "l_phase ?d = Decoding" by (simp add: decoding_life_def)
  note obs' = obs(1-10)
  from wf Some consider "r_state r = JStr ''Prefilling''" | "r_state r = JStr ''Decoding''"
    | "r_state r = JStr ''Finished''" | "r_state r = JStr ''Cancelled''"
    by (auto simp: request_wf_def valid_states_def)
  then show ?thesis
  proof cases
    case 1
    let ?l = "admitted_life (r_arrival r) (r_original r) (r_max_new r) a (r_matched r)"
    have "life_reach ?l"
      using wf Some by (intro life_reach_admitted) (auto simp: request_wf_def)
    moreover have "observes r ?l"
      using wf Some 1 by (auto simp: observes_def request_wf_def admitted_life_def submitted_def)
    ultimately show ?thesis by blast
  next
    case 2
    then have "observes r ?d"
      using wf obs by (auto simp: observes_def request_wf_def ph)
    with reach show ?thesis by blast
  next
    case 3
    then obtain n where n: "r_finish r = Some n" using wf by (auto simp: request_wf_def)
    show ?thesis
    proof (cases "r_times r = []")
      case True
      let ?f = "?d\<lparr>l_phase := Finished, l_now := n, l_finish := Some n\<rparr>"
      have "life_step ?d ?f"
        using wf Some n True ph
        by (intro life_step.finish_empty) (auto simp: decoding_life_def request_wf_def)
      with reach have "life_reach ?f" by (rule life_reach_step)
      moreover have "observes r ?f"
        using wf 3 n obs' by (auto simp: observes_def request_wf_def)
      ultimately show ?thesis by blast
    next
      case False
      let ?f = "?d\<lparr>l_phase := Finished, l_finish := Some (last (l_tokens ?d))\<rparr>"
      have "life_step ?d ?f"
        using False ph obs(5) by (intro life_step.finish) auto
      with reach have "life_reach ?f" by (rule life_reach_step)
      moreover have "observes r ?f"
        using wf 3 n False obs' by (auto simp: observes_def request_wf_def)
      ultimately show ?thesis by blast
    qed
  next
    case 4
    with wf obtain why where why: "why \<noteq> []" "r_reason r = JStr why"
      by (auto simp: request_wf_def)
    let ?c = "?d\<lparr>l_phase := Cancelled, l_reason := why\<rparr>"
    have "life_step ?d ?c"
      using why ph by (intro life_step.cancel) auto
    with reach have "life_reach ?c" by (rule life_reach_step)
    moreover have "observes r ?c"
      using wf 4 why obs by (auto simp: observes_def request_wf_def)
    ultimately show ?thesis by blast
  qed
qed

section \<open>The trace of a run is accepted\<close>

text \<open>What a record carries besides the life: identity and workload attributes.\<close>

record request_meta =
  q_id :: string
  q_native :: int
  q_class :: string
  q_group :: "string option"
  q_deadline :: "int option"
  q_metadata :: "(string \<times> json) list"

definition meta_ok :: "request_meta \<Rightarrow> bool" where
  "meta_ok q \<longleftrightarrow> q_id q \<noteq> [] \<and> 0 \<le> q_native q \<and> q_class q \<in> set WORKLOAD_CLASSES \<and>
     q_group q \<noteq> Some [] \<and> (\<forall>d. q_deadline q = Some d \<longrightarrow> 0 \<le> d)"

definition tpot_of :: "life \<Rightarrow> json" where
  "tpot_of l = (case l_finish l of
     Some n \<Rightarrow> (if length (l_tokens l) < 2 then JNull
               else case py_truediv (n - hd (l_tokens l)) (int (length (l_tokens l)) - 1) of
                 Inr q \<Rightarrow> JFloat (Fin q) | Inl _ \<Rightarrow> JNull)
   | None \<Rightarrow> JNull)"

definition render_request :: "request_meta \<Rightarrow> life \<Rightarrow> json" where
  "render_request q l = JObj
    [(''record_type'', JStr ''request''), (''schema_version'', JStr SIMULATOR_SCHEMA_VERSION),
     (''evidence_type'', JStr ''SIMULATED''), (''internal_id'', JInt (q_native q)),
     (''request_id'', JStr (q_id q)), (''workload_class'', JStr (q_class q)),
     (''prefix_group'', jopt JStr (q_group q)), (''deadline_us'', jopt JInt (q_deadline q)),
     (''metadata'', JObj (q_metadata q)), (''prompt_tokens'', JNull),
     (''arrival_time_us'', JInt (l_arrival l)), (''admitted_time_us'', jopt JInt (l_admitted l)),
     (''first_token_time_us'', jopt JInt (opt_hd (l_tokens l))),
     (''finish_time_us'', jopt JInt (l_finish l)),
     (''queue_delay_us'', jopt JInt (opt_minus (l_admitted l) (l_arrival l))),
     (''ttft_us'', jopt JInt (opt_minus (opt_hd (l_tokens l)) (l_arrival l))),
     (''end_to_end_latency_us'', jopt JInt (opt_minus (l_finish l) (l_arrival l))),
     (''tpot_us'', tpot_of l), (''prompt_tokens_original'', JInt (l_original l)),
     (''prompt_tokens_matched'', JInt (l_matched l)),
     (''prompt_tokens_scheduled'', JInt (l_scheduled l)),
     (''generated_tokens'', JInt (int (length (l_tokens l)))), (''max_new_tokens'', JInt (l_max_new l)),
     (''final_state'', JStr (phase_name (l_phase l))),
     (''reason'', if l_phase l = Cancelled then JStr (l_reason l) else JNull),
     (''decode_token_times_us'', jints (l_tokens l)),
     (''inter_token_latencies_us'', jints (gaps_of (l_tokens l)))]"

lemma opt_int_jopt [simp]: "opt_int (jopt JInt x) = x"
  by (cases x) auto

lemma ints_of_jints [simp]: "ints_of (jints xs) = xs"
  by (simp add: ints_of_def jints_def comp_def)

lemma is_JList_jints [simp]: "is_JList (jints xs)" "list_of (jints xs) = map JInt xs"
  by (simp_all add: jints_def)

lemma jkeys_render [simp]: "jkeys (render_request q l) = REQUEST_RECORD_FIELDS"
  by (simp add: render_request_def jkeys_def REQUEST_RECORD_FIELDS_def)

lemmas render_get = render_request_def [THEN arg_cong [where f = "\<lambda>r. jget r k" for k]]

lemma observes_render: "observes (render_request q l) l"
  by (simp add: observes_def r_defs render_request_def)

lemma nonneg_jopt: "field_int r k ctx True = None \<longleftrightarrow> (\<forall>i. x = Some i \<longrightarrow> 0 \<le> i)"
  if "jget r k = jopt JInt x"
  using that by (cases x) auto

lemma render_identity:
  assumes "meta_ok q"
  shows "check_request_identity ctx [] [] (render_request q l) = None"
proof -
  have "q_class q \<noteq> []" using assms by (auto simp: meta_ok_def WORKLOAD_CLASSES_def)
  with assms show ?thesis
    by (cases "q_group q"; cases "q_deadline q")
      (simp_all add: check_request_identity_def Let_def meta_ok_def has_exactly_iff r_defs
        nonempty_str_def, simp_all add: render_request_def)
qed

lemma life_inv_order:
  assumes "life_inv l"
  shows "l_admitted l = Some a \<Longrightarrow> 0 \<le> a \<and> l_arrival l \<le> a"
    and "t \<in> set (l_tokens l) \<Longrightarrow> 0 \<le> t \<and> t \<le> l_now l"
    and "opt_hd (l_tokens l) = Some t \<Longrightarrow> 0 \<le> t \<and> (\<forall>a. l_admitted l = Some a \<longrightarrow> a \<le> t) \<and> l_admitted l \<noteq> None"
    and "l_finish l = Some n \<Longrightarrow> 0 \<le> n \<and> n \<le> l_now l \<and> l_arrival l \<le> n \<and> l_admitted l \<noteq> None
           \<and> (\<forall>a. l_admitted l = Some a \<longrightarrow> a \<le> n)
           \<and> (\<forall>t. opt_hd (l_tokens l) = Some t \<longrightarrow> t \<le> n)"
  using assms
  by (force simp: life_inv_def admission_inv_def finish_inv_def opt_hd_def
      split: option.splits list.splits)+

lemma render_accounting:
  assumes "life_inv l"
  shows "check_request_accounting ctx (render_request q l) = None"
proof -
  note obs = observes_render [of q l, unfolded observes_def]
  let ?r = "render_request q l"
  have fields: "jget ?r ''arrival_time_us'' = JInt (l_arrival l)"
    "jget ?r ''prompt_tokens_original'' = JInt (l_original l)"
    "jget ?r ''prompt_tokens_matched'' = JInt (l_matched l)"
    "jget ?r ''prompt_tokens_scheduled'' = JInt (l_scheduled l)"
    "jget ?r ''generated_tokens'' = JInt (int (length (l_tokens l)))"
    "jget ?r ''max_new_tokens'' = JInt (l_max_new l)" "jget ?r ''prompt_tokens'' = JNull"
    by (simp_all add: render_request_def)
  have opts: "jget ?r ''admitted_time_us'' = jopt JInt (l_admitted l)"
    "jget ?r ''first_token_time_us'' = jopt JInt (opt_hd (l_tokens l))"
    "jget ?r ''finish_time_us'' = jopt JInt (l_finish l)"
    by (simp_all add: render_request_def)
  have nonneg: "0 \<le> l_arrival l" "0 \<le> l_original l" "0 \<le> l_matched l" "0 \<le> l_scheduled l"
    "0 \<le> l_max_new l" "l_matched l \<le> l_original l" "l_scheduled l \<le> l_original l"
    "int (length (l_tokens l)) \<le> l_max_new l"
    "l_admitted l \<noteq> None \<longrightarrow> l_matched l + l_scheduled l = l_original l"
    "l_admitted l = None \<longrightarrow> l_matched l = 0 \<and> l_scheduled l = 0 \<and> l_tokens l = []"
    using assms by (auto simp: life_inv_def admission_inv_def split: option.splits)
  have nn: "field_int ?r ''admitted_time_us'' ctx True = None"
    "field_int ?r ''first_token_time_us'' ctx True = None"
    "field_int ?r ''finish_time_us'' ctx True = None"
    using life_inv_order [OF assms]
    by (simp_all only: nonneg_jopt [OF opts(1)] nonneg_jopt [OF opts(2)] nonneg_jopt [OF opts(3)])
      blast+
  show ?thesis
    using nonneg nn
    by (cases "l_admitted l") (simp_all add: check_request_accounting_def Let_def fields obs)
qed

lemma phase_name_valid: "phase_name ph \<in> set valid_states"
  by (cases ph) (simp_all add: valid_states_def)

lemma phase_name_eq:
  "phase_name ph = ''Finished'' \<longleftrightarrow> ph = Finished" "phase_name ph = ''Cancelled'' \<longleftrightarrow> ph = Cancelled"
  "phase_name ph = ''Waiting'' \<longleftrightarrow> ph = Waiting" "phase_name ph = ''Prefilling'' \<longleftrightarrow> ph = Prefilling"
  "phase_name ph = ''Decoding'' \<longleftrightarrow> ph = Decoding"
  by (cases ph; simp)+

lemma opt_hd_exists [simp]: "(\<exists>y. opt_hd xs = Some y) \<longleftrightarrow> xs \<noteq> []"
  by (cases xs) (simp_all add: opt_hd_def)

lemma opt_hd_empty [simp]: "opt_hd [] = None"
  by (simp add: opt_hd_def)

lemma render_lifecycle:
  assumes "life_inv l"
  shows "check_request_lifecycle ctx (render_request q l) = None"
proof -
  note obs = observes_render [of q l, unfolded observes_def]
  note ord = life_inv_order [OF assms]
  have order: "\<not> opt_test (l_admitted l) (\<lambda>a. a < l_arrival l)"
    "\<not> opt_test (opt_hd (l_tokens l)) (\<lambda>f. l_admitted l = None \<or> opt_test (l_admitted l) (\<lambda>a. f < a))"
    "\<not> opt_test (l_finish l) (\<lambda>n. n < l_arrival l \<or> opt_test (l_admitted l) (\<lambda>a. n < a)
        \<or> opt_test (opt_hd (l_tokens l)) (\<lambda>f. n < f))"
    using ord(1) ord(3) ord(4) by (force simp: opt_test_def split: option.splits)+
  have phase: "(l_finish l = None) = (l_phase l \<noteq> Finished)" "l_phase l = Cancelled \<longrightarrow> l_reason l \<noteq> []"
    "l_phase l \<in> {Waiting, Prefilling} \<longrightarrow> l_tokens l = []"
    "(l_admitted l = None) \<longrightarrow> l_phase l \<in> {Waiting, Cancelled}"
    "l_phase l = Waiting \<longrightarrow> l_admitted l = None"
    using assms by (auto simp: life_inv_def admission_inv_def finish_inv_def split: option.splits)
  show ?thesis
  proof (cases "l_phase l")
  qed (use order phase in \<open>simp_all add: check_request_lifecycle_def Let_def obs phase_name_valid
        opt_hd_Nil_iff valid_states_def\<close>)
qed

lemma map_JInt_nonneg: "list_all nonneg_int (map JInt xs) \<longleftrightarrow> (\<forall>x \<in> set xs. 0 \<le> x)"
  by (auto simp: list_all_iff nonneg_int_def)

lemma length_gaps_of: "length (gaps_of xs) = length xs - 1"
  by (simp add: gaps_of_def)

lemma gaps_of_Cons2 [simp]: "gaps_of (x # y # ys) = (y - x) # gaps_of (y # ys)"
  by (simp add: gaps_of_def)

lemma gaps_of_short [simp]: "gaps_of [] = []" "gaps_of [x] = []"
  by (simp_all add: gaps_of_def)

lemma gaps_of_nonneg: "sorted xs \<Longrightarrow> \<forall>g \<in> set (gaps_of xs). 0 \<le> g"
proof (induction xs)
  case (Cons x xs)
  then show ?case by (cases xs) auto
qed simp

lemma render_timing:
  assumes "life_inv l"
  shows "check_request_timing ctx (render_request q l) = None"
proof -
  note obs = observes_render [of q l, unfolded observes_def]
  let ?r = "render_request q l"
  have fields: "jget ?r ''decode_token_times_us'' = jints (l_tokens l)"
    "jget ?r ''inter_token_latencies_us'' = jints (gaps_of (l_tokens l))"
    by (simp_all add: render_request_def)
  have s: "sorted (l_tokens l)" using assms by (simp add: life_inv_def)
  have nn: "\<forall>t \<in> set (l_tokens l). 0 \<le> t" using life_inv_order(2) [OF assms] by blast
  have fin: "l_phase l = Finished \<longrightarrow> l_tokens l \<noteq> [] \<longrightarrow> l_finish l = Some (last (l_tokens l))"
    using assms by (auto simp: life_inv_def finish_inv_def split: option.splits)
  have hd: "l_tokens l \<noteq> [] \<longrightarrow> opt_hd (l_tokens l) = Some (hd (l_tokens l))"
    by (auto simp: opt_hd_def split: list.splits)
  have gaps: "conserved (jints (gaps_of (l_tokens l))) (jints (gaps_of (l_tokens l))) name ctx = None" for name
    using gaps_of_nonneg [OF s] by (simp add: conserved_jints map_JInt_nonneg)
  show ?thesis
    using nn s fin hd gaps gaps_of_nonneg [OF s]
    by (auto simp: check_request_timing_def Let_def fields obs map_JInt_nonneg list_all_append
        length_gaps_of phase_name_eq sorted_sort_id)
qed

lemma render_derived:
  assumes inv: "life_inv l" and small: "l_now l \<le> 2 ^ 53"
  shows "check_request_derived ctx (render_request q l) = None"
proof -
  note obs = observes_render [of q l, unfolded observes_def]
  let ?r = "render_request q l"
  have fields: "jget ?r ''queue_delay_us'' = jopt JInt (opt_minus (l_admitted l) (l_arrival l))"
    "jget ?r ''ttft_us'' = jopt JInt (opt_minus (opt_hd (l_tokens l)) (l_arrival l))"
    "jget ?r ''end_to_end_latency_us'' = jopt JInt (opt_minus (l_finish l) (l_arrival l))"
    "jget ?r ''tpot_us'' = tpot_of l"
    by (simp_all add: render_request_def)
  have int_ok: "exact_number (jopt JInt x) (jopt JInt x) name c = None" for x name c
    by (cases x) (simp_all add: is_number_def num_of_def)
  have flt_ok: "exact_number (JFloat (Fin q)) (JFloat (Fin q)) name c = None" for q name c
    by (simp add: is_number_def num_of_def)
  have ttft: "(if length (l_tokens l) = 0 then None else opt_minus (opt_hd (l_tokens l)) (l_arrival l))
      = opt_minus (opt_hd (l_tokens l)) (l_arrival l)"
    by (simp add: opt_hd_def)
  show ?thesis
  proof (cases "l_finish l = None \<or> length (l_tokens l) < 2")
    case True
    then have "tpot_of l = JNull" by (auto simp: tpot_of_def split: option.splits)
    with True ttft show ?thesis
      by (auto simp: check_request_derived_def request_metrics_def Let_def obs fields int_ok
          is_number_def num_of_def split: option.splits)
  next
    case False
    then obtain n where n: "l_finish l = Some n" and len: "2 \<le> length (l_tokens l)" by auto
    then have hd: "opt_hd (l_tokens l) = Some (hd (l_tokens l))"
      by (auto simp: opt_hd_def split: list.splits)
    with life_inv_order(3,4) [OF inv] n small
    have "0 \<le> n - hd (l_tokens l)" "n - hd (l_tokens l) \<le> 2 ^ 53" by fastforce+
    then obtain p where "py_truediv (n - hd (l_tokens l)) (int (length (l_tokens l)) - 1) = Inr p"
      using py_truediv_small [of "n - hd (l_tokens l)" "int (length (l_tokens l)) - 1"] len by auto
    with n hd len show ?thesis
      by (auto simp: check_request_derived_def request_metrics_def Let_def obs fields int_ok flt_ok
          tpot_of_def is_number_def num_of_def)
  qed
qed

lemma rendered_run_accepted:
  assumes "life_reach l" "l_now l \<le> 2 ^ 53" "meta_ok q"
  shows "check_request [] [] line (render_request q l) = None"
  using life_reach_inv [OF assms(1)] assms(2,3)
  by (simp add: check_request_def Let_def render_identity render_accounting render_lifecycle
      render_timing render_derived)

end
