(* ===== verification/Py_Text.thy ===== *)
theory Py_Text
  imports Py_Json "HOL-Library.Sublist"
begin

text \<open>
  Python's \<open>str\<close> and \<open>bytes\<close> as the scripts use them. A \<open>str\<close> is represented by its UTF-8 encoding,
  so a character of HOL is a byte, and \<open>utf8_valid\<close> says that a byte string encodes a text. The
  theory holds splitting and joining, containment (\<open>sublist\<close> of the library), \<open>lower\<close>, \<open>upper\<close>,
  \<open>strip\<close>, \<open>replace\<close>, \<open>int\<close> of a text, strict and lenient decoding, universal newlines, POSIX
  paths as \<open>pathlib\<close> splits them, and \<open>json.dumps\<close> of the documents the scripts write.
\<close>

section \<open>Splitting and joining\<close>

text \<open>\<open>s.split(c)\<close>\<close>

fun split_on :: "char \<Rightarrow> string \<Rightarrow> string list" where
  "split_on c [] = [[]]"
| "split_on c (x # xs) = (if x = c then [] # split_on c xs
     else (case split_on c xs of [] \<Rightarrow> [[x]] | w # ws \<Rightarrow> (x # w) # ws))"

fun join_with :: "char \<Rightarrow> string list \<Rightarrow> string" where
  "join_with c [] = []"
| "join_with c [w] = w"
| "join_with c (w # v # ws) = w @ c # join_with c (v # ws)"

lemma split_on_not_Nil [simp]: "split_on c s \<noteq> []"
  by (induction s) (auto split: list.splits)

lemma split_on_no_sep: "w \<in> set (split_on c s) \<Longrightarrow> c \<notin> set w"
proof (induction s arbitrary: w)
  case (Cons x xs)
  then show ?case by (cases "split_on c xs") (auto split: if_splits)
qed simp

lemma split_on_clean: "c \<notin> set w \<Longrightarrow> split_on c w = [w]"
  by (induction w) auto

lemma split_on_append: "c \<notin> set w \<Longrightarrow> split_on c (w @ c # s) = w # split_on c s"
  by (induction w) auto

lemma split_join: "ws \<noteq> [] \<Longrightarrow> \<forall>w \<in> set ws. c \<notin> set w \<Longrightarrow> split_on c (join_with c ws) = ws"
  by (induction c ws rule: join_with.induct) (auto simp: split_on_clean split_on_append)

lemma join_split: "join_with c (split_on c s) = s"
proof (induction s)
  case (Cons x xs)
  obtain w ws where "split_on c xs = w # ws" by (cases "split_on c xs") auto
  with Cons show ?case by (cases ws) auto
qed simp

lemma set_join_with: "set (join_with c ws) \<subseteq> insert c (\<Union> (set ` set ws))"
  by (induction c ws rule: join_with.induct) auto

section \<open>POSIX paths\<close>

definition is_absolute :: "string \<Rightarrow> bool" where
  "is_absolute p \<longleftrightarrow> (case p of c # _ \<Rightarrow> c = CHR ''/'' | [] \<Rightarrow> False)"

text \<open>
  \<open>PurePosixPath(p)\<close> for a relative \<open>p\<close>: the components, with empty ones and \<open>.\<close> dropped;
  \<open>as_posix\<close> joins them, and the empty path is \<open>.\<close>
\<close>

definition posix_parts :: "string \<Rightarrow> string list" where
  "posix_parts p = filter (\<lambda>w. w \<noteq> [] \<and> w \<noteq> ''.'') (split_on (CHR ''/'') p)"

definition as_posix :: "string list \<Rightarrow> string" where
  "as_posix parts = (if parts = [] then ''.'' else join_with (CHR ''/'') parts)"

text \<open>\<open>pathlib\<close>'s view of a path: the root (\<open>/\<close>, \<open>//\<close> or empty) and the components.\<close>

datatype path = Path (path_root: string) (path_parts: "string list")

definition root_of :: "string \<Rightarrow> string" where
  "root_of p = (if \<not> is_absolute p then []
     else if prefix ''//'' p \<and> \<not> prefix ''///'' p then ''//'' else ''/'')"

definition path_of :: "string \<Rightarrow> path" where
  "path_of p = Path (root_of p) (posix_parts p)"

text \<open>\<open>str(p)\<close>\<close>

definition path_str :: "path \<Rightarrow> string" where
  "path_str p = (if path_root p = [] then as_posix (path_parts p)
     else path_root p @ join_with (CHR ''/'') (path_parts p))"

text \<open>\<open>p.name\<close>\<close>

definition path_name :: "path \<Rightarrow> string" where
  "path_name p = (if path_parts p = [] then [] else last (path_parts p))"

text \<open>\<open>p / s\<close> for a \<open>str\<close>\<close>

definition path_join :: "path \<Rightarrow> string \<Rightarrow> path" where
  "path_join p s = (if is_absolute s then path_of s
     else Path (path_root p) (path_parts p @ posix_parts s))"

text \<open>
  \<open>name.rfind(".")\<close> splits a file name into stem and suffix; a dot at the start or at the end
  does not start a suffix.
\<close>

fun last_dot :: "string \<Rightarrow> nat option" where
  "last_dot [] = None"
| "last_dot (c # cs) = (case last_dot cs of Some i \<Rightarrow> Some (Suc i)
     | None \<Rightarrow> if c = CHR ''.'' then Some 0 else None)"

definition name_suffix :: "string \<Rightarrow> string" where
  "name_suffix n = (case last_dot n of None \<Rightarrow> []
     | Some i \<Rightarrow> if 0 < i \<and> i < length n - 1 then drop i n else [])"

definition name_stem :: "string \<Rightarrow> string" where
  "name_stem n = (case last_dot n of None \<Rightarrow> n
     | Some i \<Rightarrow> if 0 < i \<and> i < length n - 1 then take i n else n)"

text \<open>\<open>p.with_suffix(s)\<close> for an \<open>s\<close> that starts with a dot\<close>

definition with_suffix :: "path \<Rightarrow> string \<Rightarrow> path" where
  "with_suffix p s = Path (path_root p) (butlast (path_parts p) @ [name_stem (path_name p) @ s])"

lemma name_stem_suffix: "name_stem n @ name_suffix n = n"
  by (simp add: name_stem_def name_suffix_def split: option.splits)

text \<open>Appending to the suffix appends to the name.\<close>

lemma with_suffix_append:
  assumes "path_parts p \<noteq> []"
  shows "with_suffix p (name_suffix (path_name p) @ ext) =
    Path (path_root p) (butlast (path_parts p) @ [path_name p @ ext])"
  using name_stem_suffix [of "path_name p"] by (simp add: with_suffix_def flip: append_assoc)

text \<open>A file name of a single component: what \<open>Path(s).name == s\<close> accepts.\<close>

lemma posix_parts_single:
  assumes "s \<noteq> []" "CHR ''/'' \<notin> set s" "s \<noteq> ''.''"
  shows "posix_parts s = [s]"
  using assms by (simp add: posix_parts_def split_on_clean)

lemma path_name_eq_iff:
  assumes "s \<noteq> []"
  shows "path_name (path_of s) = s \<longleftrightarrow> CHR ''/'' \<notin> set s \<and> s \<noteq> ''.''"
proof
  assume eq: "path_name (path_of s) = s"
  with assms have ne: "posix_parts s \<noteq> []" and l: "last (posix_parts s) = s"
    by (auto simp: path_name_def path_of_def split: if_splits)
  from last_in_set [OF ne] l have "s \<in> set (posix_parts s)" by simp
  then show "CHR ''/'' \<notin> set s \<and> s \<noteq> ''.''"
    by (auto simp: posix_parts_def dest: split_on_no_sep)
next
  assume "CHR ''/'' \<notin> set s \<and> s \<noteq> ''.''"
  with assms show "path_name (path_of s) = s"
    by (simp add: path_name_def path_of_def posix_parts_single)
qed

lemma path_join_single:
  assumes "s \<noteq> []" "CHR ''/'' \<notin> set s" "s \<noteq> ''.''"
  shows "path_join p s = Path (path_root p) (path_parts p @ [s])"
proof -
  from assms have "\<not> is_absolute s" by (cases s) (auto simp: is_absolute_def)
  with assms show ?thesis by (simp add: path_join_def posix_parts_single)
qed

section \<open>Case, white space, replacement\<close>

abbreviation ord :: "char \<Rightarrow> nat" where
  "ord c \<equiv> of_char c"

definition lower_char :: "char \<Rightarrow> char" where
  "lower_char c = (if 65 \<le> ord c \<and> ord c \<le> 90 then char_of (ord c + 32) else c)"

definition upper_char :: "char \<Rightarrow> char" where
  "upper_char c = (if 97 \<le> ord c \<and> ord c \<le> 122 then char_of (ord c - 32) else c)"

text \<open>
  \<open>s.lower()\<close>. Outside ASCII only the Kelvin sign (bytes \<open>E2 84 AA\<close>) has a lower case that is an
  ASCII letter by itself; the other characters outside ASCII are left as they are, which no search
  for an ASCII phrase can notice.
\<close>

definition KELVIN :: string where
  "KELVIN = [CHR 0xE2, CHR 0x84, CHR 0xAA]"

fun lower :: "string \<Rightarrow> string" where
  "lower [] = []"
| "lower (c # cs) = (if prefix KELVIN (c # cs) then CHR ''k'' # lower (drop 2 cs)
     else lower_char c # lower cs)"

definition upper :: "string \<Rightarrow> string" where
  "upper s = map upper_char s"

text \<open>The white space \<open>str.strip()\<close> removes, each character by its UTF-8 bytes.\<close>

definition WHITESPACE :: "string list" where
  "WHITESPACE = map (\<lambda>n. [char_of n]) [9, 10, 11, 12, 13, 28, 29, 30, 31, 32 :: nat] @
     [[CHR 0xC2, CHR 0x85], [CHR 0xC2, CHR 0xA0], [CHR 0xE1, CHR 0x9A, CHR 0x80],
      [CHR 0xE2, CHR 0x80, CHR 0xA8], [CHR 0xE2, CHR 0x80, CHR 0xA9],
      [CHR 0xE2, CHR 0x80, CHR 0xAF], [CHR 0xE2, CHR 0x81, CHR 0x9F],
      [CHR 0xE3, CHR 0x80, CHR 0x80]] @
     map (\<lambda>n. [CHR 0xE2, CHR 0x80, char_of n]) [0x80 ..< 0x8B :: nat]"

fun strip_front :: "string list \<Rightarrow> string \<Rightarrow> string" where
  "strip_front ws [] = []"
| "strip_front ws (c # cs) = (case find (\<lambda>w. prefix w (c # cs)) ws of
       None \<Rightarrow> c # cs
     | Some w \<Rightarrow> strip_front ws (drop (length w - 1) cs))"

definition strip :: "string \<Rightarrow> string" where
  "strip s = rev (strip_front (map rev WHITESPACE) (rev (strip_front WHITESPACE s)))"

text \<open>\<open>s.replace(c, r)\<close> for a single character \<open>c\<close>\<close>

definition replace_char :: "char \<Rightarrow> string \<Rightarrow> string \<Rightarrow> string" where
  "replace_char c r s = concat (map (\<lambda>x. if x = c then r else [x]) s)"

lemma set_replace_char: "set (replace_char c r s) \<subseteq> set r \<union> (set s - {c})"
  by (auto simp: replace_char_def split: if_splits)

lemma strip_front_suffix: "suffix (strip_front ws s) s"
proof (induction ws s rule: strip_front.induct)
  case (2 ws c cs)
  show ?case
  proof (cases "find (\<lambda>w. prefix w (c # cs)) ws")
    case (Some w)
    have "suffix (drop (length w - 1) cs) (c # cs)"
      by (simp add: suffix_drop suffix_ConsI)
    with 2 [OF Some] Some show ?thesis by (auto intro: suffix_order.trans)
  qed simp
qed simp

lemma set_strip: "set (strip s) \<subseteq> set s"
proof -
  have "set (strip s) \<subseteq> set (strip_front WHITESPACE s)"
    using set_mono_suffix [OF strip_front_suffix, of "map rev WHITESPACE" "rev (strip_front WHITESPACE s)"]
    by (simp add: strip_def)
  also have "\<dots> \<subseteq> set s" by (rule set_mono_suffix [OF strip_front_suffix])
  finally show ?thesis .
qed

section \<open>Decimal integers\<close>

text \<open>
  \<open>int(s)\<close>: white space around, an optional sign, and decimal digits with single underscores
  between them. \<open>None\<close> is the \<open>ValueError\<close>.
\<close>

fun digit_groups :: "bool \<Rightarrow> string \<Rightarrow> string option" where
  "digit_groups after_digit [] = (if after_digit then Some [] else None)"
| "digit_groups after_digit (c # cs) =
     (if is_digit c then map_option ((#) c) (digit_groups True cs)
      else if c = CHR ''_'' \<and> after_digit then digit_groups False cs
      else None)"

definition parse_int :: "string \<Rightarrow> int option" where
  "parse_int s = (case strip s of
       [] \<Rightarrow> None
     | c # cs \<Rightarrow>
        if c = CHR ''-'' then map_option (\<lambda>ds. - int (digits_val ds)) (digit_groups False cs)
        else map_option (\<lambda>ds. int (digits_val ds)) (digit_groups False (if c = CHR ''+'' then cs else c # cs)))"

lemma digit_groups_digits: "\<forall>c \<in> set s. is_digit c \<Longrightarrow> s \<noteq> [] \<or> b \<Longrightarrow> digit_groups b s = Some s"
  by (induction s arbitrary: b) auto

lemma strip_front_no_match:
  "(\<forall>w \<in> set ws. \<not> prefix w s) \<Longrightarrow> strip_front ws s = s"
  by (cases s) (auto split: option.splits simp: find_Some_iff)

lemma whitespace_bytes: "w \<in> set WHITESPACE \<Longrightarrow> w \<noteq> [] \<and> (\<forall>c \<in> set w. \<not> is_digit c)"
  by (auto simp: WHITESPACE_def is_digit_def)

lemma strip_digits:
  assumes "\<forall>c \<in> set s. is_digit c"
  shows "strip s = s"
proof -
  have no: "\<not> prefix w t" if "w \<noteq> []" "\<forall>c \<in> set w. \<not> is_digit c" "\<forall>c \<in> set t. is_digit c" for w t
    using that by (cases w; cases t) auto
  have 1: "strip_front WHITESPACE s = s"
    by (rule strip_front_no_match) (use no assms whitespace_bytes in blast)
  have 2: "strip_front (map rev WHITESPACE) (rev s) = rev s"
  proof (rule strip_front_no_match, rule ballI)
    fix w assume "w \<in> set (map rev WHITESPACE)"
    then obtain v where v: "v \<in> set WHITESPACE" "w = rev v" by auto
    with whitespace_bytes [of v] assms no [of w "rev s"] show "\<not> prefix w (rev s)" by simp
  qed
  from 1 2 show ?thesis by (simp add: strip_def)
qed

text \<open>What \<open>str\<close> prints, \<open>int\<close> reads back.\<close>

lemma parse_int_str_nat: "parse_int (str_nat n) = Some (int n)"
proof -
  have dig: "\<forall>c \<in> set (str_nat n). is_digit c" by (rule str_nat_digits)
  obtain c cs where s: "str_nat n = c # cs" by (cases "str_nat n") auto
  with dig have "is_digit c" by auto
  then have "c \<noteq> CHR ''-''" "c \<noteq> CHR ''+''" by (auto simp: is_digit_def)
  moreover have "digit_groups False (c # cs) = Some (c # cs)"
    using dig s by (intro digit_groups_digits) auto
  moreover have "digits_val (c # cs) = n" using s by (metis digits_val_str_nat)
  ultimately show ?thesis
    using strip_digits [OF dig] s by (simp add: parse_int_def)
qed

section \<open>UTF-8\<close>

text \<open>
  What a lead byte asks for: the number of continuation bytes, and the range of the first of them
  (the ranges exclude overlong forms, surrogates and values above \<open>10FFFF\<close>).
\<close>

definition utf8_lead :: "char \<Rightarrow> (nat \<times> nat \<times> nat) option" where
  "utf8_lead c = (let b = ord c in
     if b < 0x80 then Some (0, 0, 0)
     else if b < 0xC2 then None
     else if b < 0xE0 then Some (1, 0x80, 0xBF)
     else if b = 0xE0 then Some (2, 0xA0, 0xBF)
     else if b = 0xED then Some (2, 0x80, 0x9F)
     else if b < 0xF0 then Some (2, 0x80, 0xBF)
     else if b = 0xF0 then Some (3, 0x90, 0xBF)
     else if b < 0xF4 then Some (3, 0x80, 0xBF)
     else if b = 0xF4 then Some (3, 0x80, 0x8F)
     else None)"

text \<open>How many well-formed continuation bytes follow, at most \<open>n\<close>.\<close>

fun utf8_run :: "nat \<Rightarrow> nat \<Rightarrow> nat \<Rightarrow> string \<Rightarrow> nat" where
  "utf8_run (Suc n) lo hi (c # cs) =
     (if lo \<le> ord c \<and> ord c \<le> hi then Suc (utf8_run n 0x80 0xBF cs) else 0)"
| "utf8_run _ _ _ _ = 0"

text \<open>\<open>bytes.decode()\<close> succeeds\<close>

fun utf8_valid :: "string \<Rightarrow> bool" where
  "utf8_valid [] \<longleftrightarrow> True"
| "utf8_valid (c # cs) \<longleftrightarrow> (case utf8_lead c of
       None \<Rightarrow> False
     | Some (n, lo, hi) \<Rightarrow> utf8_run n lo hi cs = n \<and> utf8_valid (drop n cs))"

definition REPLACEMENT :: string where
  "REPLACEMENT = [CHR 0xEF, CHR 0xBF, CHR 0xBD]"

text \<open>\<open>bytes.decode(errors="replace")\<close>: one replacement character for a maximal ill-formed part\<close>

fun utf8_replace :: "string \<Rightarrow> string" where
  "utf8_replace [] = []"
| "utf8_replace (c # cs) = (case utf8_lead c of
       None \<Rightarrow> REPLACEMENT @ utf8_replace cs
     | Some (n, lo, hi) \<Rightarrow>
        (let k = utf8_run n lo hi cs
         in (if k = n then c # take n cs else REPLACEMENT) @ utf8_replace (drop k cs)))"

text \<open>Universal newlines of a text stream opened for reading.\<close>

fun newlines :: "string \<Rightarrow> string" where
  "newlines [] = []"
| "newlines (c # cs) = (if c = CHR 0x0D
     then CHR 0x0A # newlines (if prefix [CHR 0x0A] cs then tl cs else cs)
     else c # newlines cs)"

text \<open>What a strict UTF-8 text stream yields for the bytes it reads.\<close>

definition read_text :: "string \<Rightarrow> string res" where
  "read_text b = (if utf8_valid b then Inr (newlines b) else Inl UnicodeDecodeError)"

lemma utf8_run_le: "utf8_run n lo hi cs \<le> n"
  by (induction n lo hi cs rule: utf8_run.induct) auto

lemma utf8_run_length: "utf8_run n lo hi cs \<le> length cs"
  by (induction n lo hi cs rule: utf8_run.induct) auto

lemma utf8_run_append:
  assumes "utf8_run n lo hi cs = n"
  shows "utf8_run n lo hi (take n cs @ ds) = n"
  using assms
proof (induction n lo hi cs rule: utf8_run.induct)
  case (1 n lo hi c cs)
  then show ?case by (auto split: if_splits)
qed auto

lemma utf8_valid_append:
  assumes "utf8_valid s" "utf8_valid t"
  shows "utf8_valid (s @ t)"
  using assms(1)
proof (induction s rule: utf8_valid.induct)
  case (2 c cs)
  then obtain n lo hi where l: "utf8_lead c = Some (n, lo, hi)"
    and r: "utf8_run n lo hi cs = n" and v: "utf8_valid (drop n cs)"
    by (auto split: option.splits)
  have len: "n \<le> length cs" using utf8_run_length [of n lo hi cs] r by simp
  from 2 l r v have "utf8_valid (drop n cs @ t)" by simp
  moreover have "utf8_run n lo hi (cs @ t) = n"
    using utf8_run_append [OF r, of "drop n cs @ t"]
    by (simp only: append_assoc [symmetric] append_take_drop_id)
  ultimately show ?case using l len by simp
qed (simp add: assms)

lemma utf8_valid_REPLACEMENT: "utf8_valid REPLACEMENT"
  by (simp add: REPLACEMENT_def utf8_lead_def eval_nat_numeral)

text \<open>Lenient decoding always yields a text, and leaves a text as it is.\<close>

lemma utf8_valid_replace: "utf8_valid (utf8_replace b)"
proof (induction b rule: utf8_replace.induct)
  case (2 c cs)
  show ?case
  proof (cases "utf8_lead c")
    case None
    with 2 show ?thesis by (simp add: utf8_valid_append utf8_valid_REPLACEMENT)
  next
    case (Some p)
    obtain n lo hi where l: "utf8_lead c = Some (n, lo, hi)" using Some by (cases p) auto
    let ?k = "utf8_run n lo hi cs"
    from 2 l have tail: "utf8_valid (utf8_replace (drop ?k cs))" by simp
    have "utf8_valid (if ?k = n then c # take n cs else REPLACEMENT)"
    proof (cases "?k = n")
      case True
      then show ?thesis using l utf8_run_append [OF True, of "[]"] by simp
    qed (simp add: utf8_valid_REPLACEMENT)
    from utf8_valid_append [OF this tail] show ?thesis
      using l by (simp only: utf8_replace.simps option.case prod.case Let_def)
  qed
qed simp

lemma utf8_replace_valid: "utf8_valid b \<Longrightarrow> utf8_replace b = b"
proof (induction b rule: utf8_replace.induct)
  case (2 c cs)
  then obtain n lo hi where l: "utf8_lead c = Some (n, lo, hi)"
    and r: "utf8_run n lo hi cs = n" and v: "utf8_valid (drop n cs)"
    by (auto split: option.splits)
  from 2(2) [OF l refl refl refl] r v have "utf8_replace (drop n cs) = drop n cs" by simp
  with l r show ?case by simp
qed simp

lemma utf8_valid_ascii: "list_all (\<lambda>c. ord c < 128) s \<Longrightarrow> utf8_valid s"
  by (induction s) (simp_all add: utf8_lead_def)

lemma newlines_no_CR: "CHR 0x0D \<notin> set (newlines s)"
  by (induction s rule: newlines.induct) auto

lemma newlines_id: "CHR 0x0D \<notin> set s \<Longrightarrow> newlines s = s"
  by (induction s rule: newlines.induct) auto

section \<open>JSON documents\<close>

text \<open>
  The documents the scripts write hold no floating-point number. \<open>doc_json\<close> is the value Python
  holds (and reads back); \<open>json_dumps\<close> is \<open>json.dumps(d, indent=2)\<close>, \<open>json_dumps_line\<close> is \<open>json.dumps(d)\<close>.
\<close>

datatype doc =
    DNull
  | DInt int
  | DStr string
  | DList "doc list"
  | DObj "(string \<times> doc) list"

fun doc_json :: "doc \<Rightarrow> json" where
  "doc_json DNull = JNull"
| "doc_json (DInt i) = JInt i"
| "doc_json (DStr s) = JStr s"
| "doc_json (DList ds) = JList (map doc_json ds)"
| "doc_json (DObj kds) = JObj (map (\<lambda>(k, d). (k, doc_json d)) kds)"

text \<open>A value or \<open>null\<close>\<close>

definition doc_opt :: "('a \<Rightarrow> doc) \<Rightarrow> 'a option \<Rightarrow> doc" where
  "doc_opt f v = (case v of None \<Rightarrow> DNull | Some x \<Rightarrow> f x)"

definition hex_digit :: "nat \<Rightarrow> char" where
  "hex_digit d = char_of (if d < 10 then 48 + d else 87 + d)"

text \<open>\<open>\u\<close> and four hexadecimal digits\<close>

definition u_escape :: "nat \<Rightarrow> string" where
  "u_escape n = [CHR 0x5C, CHR ''u'', hex_digit (n div 4096 mod 16), hex_digit (n div 256 mod 16),
     hex_digit (n div 16 mod 16), hex_digit (n mod 16)]"

text \<open>A code point: two surrogates when it does not fit in 16 bits.\<close>

definition escape_point :: "nat \<Rightarrow> string" where
  "escape_point p = (if p < 0x10000 then u_escape p
     else u_escape (0xD800 + (p - 0x10000) div 0x400) @ u_escape (0xDC00 + (p - 0x10000) mod 0x400))"

definition escape_ascii :: "char \<Rightarrow> string" where
  "escape_ascii c =
     (if c = CHR 0x22 then [CHR 0x5C, CHR 0x22]
      else if c = CHR 0x5C then [CHR 0x5C, CHR 0x5C]
      else if c = CHR 0x0A then [CHR 0x5C, CHR ''n'']
      else if c = CHR 0x0D then [CHR 0x5C, CHR ''r'']
      else if c = CHR 0x09 then [CHR 0x5C, CHR ''t'']
      else if c = CHR 0x0C then [CHR 0x5C, CHR ''f'']
      else if c = CHR 0x08 then [CHR 0x5C, CHR ''b'']
      else if ord c < 32 then u_escape (ord c)
      else [c])"

text \<open>The code point of a lead byte and its \<open>n\<close> continuation bytes.\<close>

definition code_point :: "nat \<Rightarrow> char \<Rightarrow> string \<Rightarrow> nat" where
  "code_point n c cs = foldl (\<lambda>a b. 64 * a + ord b mod 64) (ord c mod 2 ^ (6 - n)) (take n cs)"

text \<open>The characters of a string literal; a \<open>str\<close> is valid, so every lead byte is one.\<close>

fun escape :: "string \<Rightarrow> string" where
  "escape [] = []"
| "escape (c # cs) = (case utf8_lead c of
       Some (Suc n, _) \<Rightarrow> escape_point (code_point (Suc n) c cs) @ escape (drop (Suc n) cs)
     | Some (0, _) \<Rightarrow> escape_ascii c @ escape cs
     | None \<Rightarrow> u_escape (0xDC00 + ord c) @ escape cs)"

definition quote_str :: "string \<Rightarrow> string" where
  "quote_str s = CHR 0x22 # escape s @ [CHR 0x22]"

fun intersperse :: "string \<Rightarrow> string list \<Rightarrow> string" where
  "intersperse sep [] = []"
| "intersperse sep [x] = x"
| "intersperse sep (x # y # ys) = x @ sep @ intersperse sep (y # ys)"

text \<open>
  \<open>nl l\<close> is the text between a bracket and its content at nesting depth \<open>l\<close>, \<open>sep l\<close> the text
  between two items there.
\<close>

fun dumps_at :: "(nat \<Rightarrow> string) \<Rightarrow> (nat \<Rightarrow> string) \<Rightarrow> nat \<Rightarrow> doc \<Rightarrow> string" where
  "dumps_at nl sep l DNull = ''null''"
| "dumps_at nl sep l (DInt i) = str_int i"
| "dumps_at nl sep l (DStr s) = quote_str s"
| "dumps_at nl sep l (DList ds) = (if ds = [] then ''[]'' else
     ''['' @ nl (Suc l) @ intersperse (sep (Suc l)) (map (dumps_at nl sep (Suc l)) ds) @ nl l @ '']'')"
| "dumps_at nl sep l (DObj kds) = (if kds = [] then ''{}'' else
     ''{'' @ nl (Suc l) @ intersperse (sep (Suc l))
       (map (\<lambda>(k, d). quote_str k @ '': '' @ dumps_at nl sep (Suc l) d) kds) @ nl l @ ''}'')"

definition line_indent :: "nat \<Rightarrow> string" where
  "line_indent l = CHR 0x0A # replicate (2 * l) (CHR '' '')"

definition json_dumps :: "doc \<Rightarrow> string" where
  "json_dumps d = dumps_at line_indent (\<lambda>l. CHR '','' # line_indent l) 0 d"

definition json_dumps_line :: "doc \<Rightarrow> string" where
  "json_dumps_line d = dumps_at (\<lambda>_. []) (\<lambda>_. '', '') 0 d"

text \<open>A JSON literal is printable ASCII, so a document on one line has no line break in it.\<close>

definition printable :: "char \<Rightarrow> bool" where
  "printable c \<longleftrightarrow> 32 \<le> ord c \<and> ord c < 128"

lemma printable_hex: "d < 16 \<Longrightarrow> printable (hex_digit d)"
  by (auto simp: printable_def hex_digit_def)

lemma printable_u_escape: "list_all printable (u_escape n)"
  by (simp add: u_escape_def printable_hex) (simp add: printable_def)

lemma printable_escape: "list_all printable (escape s)"
proof (induction s rule: escape.induct)
  case (2 c cs)
  have ascii: "list_all printable (escape_ascii c)" if "utf8_lead c = Some (0, p)" for p
  proof -
    have "ord c < 128"
      using that by (auto simp: utf8_lead_def Let_def split: if_splits)
    then show ?thesis
      using printable_u_escape [of "ord c"]
      by (simp add: escape_ascii_def) (simp add: printable_def)
  qed
  show ?case
  proof (cases "utf8_lead c")
    case None
    with 2 show ?thesis by (simp add: printable_u_escape)
  next
    case (Some p)
    obtain n q where p: "p = (n, q)" by (cases p) auto
    show ?thesis
      using 2 Some p ascii by (cases n) (simp_all add: escape_point_def printable_u_escape)
  qed
qed simp

lemma printable_quote: "list_all printable (quote_str s)"
  using printable_escape [of s] by (simp add: quote_str_def) (simp add: printable_def)

lemma list_all_intersperse:
  "list_all P sep \<Longrightarrow> list_all (list_all P) xs \<Longrightarrow> list_all P (intersperse sep xs)"
  by (induction sep xs rule: intersperse.induct) auto

lemma printable_digits: "list_all printable (str_nat n)"
  using str_nat_digits [of n] by (auto simp: list_all_iff is_digit_def printable_def)

text \<open>A document consists of printable characters and what its layout adds.\<close>

lemma dumps_at_chars:
  assumes "\<And>l. list_all Q (nl l)" "\<And>l. list_all Q (sep l)" and Q: "\<And>c. printable c \<Longrightarrow> Q c"
  shows "list_all Q (dumps_at nl sep l d)"
proof (induction d arbitrary: l)
  case DNull
  show ?case using Q by (simp add: printable_def)
next
  case (DInt i)
  have "list_all printable (str_int i)"
    using printable_digits by (simp add: str_int_def) (simp add: printable_def)
  then show ?case using Q by (simp add: list_all_iff)
next
  case (DStr s)
  show ?case using printable_quote [of s] Q by (simp add: list_all_iff)
next
  case (DList ds)
  then have "list_all (list_all Q) (map (dumps_at nl sep (Suc l)) ds)"
    by (simp add: list_all_iff)
  with assms(1,2) Q show ?case by (simp add: list_all_intersperse) (simp add: printable_def)
next
  case (DObj kds)
  have "list_all Q (quote_str k)" for k using printable_quote [of k] Q by (simp add: list_all_iff)
  with DObj Q have "list_all (list_all Q)
      (map (\<lambda>(k, d). quote_str k @ '': '' @ dumps_at nl sep (Suc l) d) kds)"
    by (fastforce simp: list_all_iff printable_def)
  with assms(1,2) Q show ?case by (simp add: list_all_intersperse) (simp add: printable_def)
qed

lemma printable_dumps_line: "list_all printable (json_dumps_line d)"
  unfolding json_dumps_line_def by (rule dumps_at_chars) (simp_all add: printable_def)

text \<open>So a written document is ASCII text, and reading it back as text changes nothing.\<close>

lemma read_text_dumps: "read_text (json_dumps d @ [CHR 0x0A]) = Inr (json_dumps d @ [CHR 0x0A])"
proof -
  have "list_all (\<lambda>c. ord c < 128 \<and> c \<noteq> CHR 0x0D) (json_dumps d)"
    unfolding json_dumps_def
    by (rule dumps_at_chars) (auto simp: printable_def line_indent_def list_all_iff)
  then have "list_all (\<lambda>c. ord c < 128) (json_dumps d @ [CHR 0x0A])" "CHR 0x0D \<notin> set (json_dumps d @ [CHR 0x0A])"
    by (auto simp: list_all_iff)
  then have "utf8_valid (json_dumps d @ [CHR 0x0A])" "newlines (json_dumps d @ [CHR 0x0A]) = json_dumps d @ [CHR 0x0A]"
    by (simp_all only: utf8_valid_ascii newlines_id not_False_eq_True)
  then show ?thesis by (simp only: read_text_def if_True)
qed

lemma dumps_line_no_newline: "CHR 0x0A \<notin> set (json_dumps_line d)"
  using printable_dumps_line [of d] by (auto simp: list_all_iff printable_def)

end
