(* ===== verification/Serving_Config.thy ===== *)
theory Serving_Config
  imports Serving_Schema Py_Text
begin

text \<open>
  Configuration and provenance checks of \<open>benchmarks/serving_common.py\<close>: \<open>resolve_repo_path\<close>,
  \<open>validate_serving_config\<close>, \<open>validate_benchmark_runner\<close> and
  \<open>validate_benchmark_runner_consistency\<close>.

  The file system is a parameter: \<open>repo_resolve v\<close> is \<open>(ROOT / v).resolve()\<close> as a list of path
  components, or the exception it raises. Configurations are dictionaries, as \<open>load_json\<close> hands
  them over. A Python \<open>set\<close> literal the code iterates over (\<open>backend_keys\<close>) is visited in the
  order it is written in.
\<close>

section \<open>Paths inside the repository\<close>

record repo =
  repo_root :: "string list"
  repo_resolve :: "string \<Rightarrow> string list res"

definition resolve_repo_path :: "repo \<Rightarrow> string \<Rightarrow> string list res" where
  "resolve_repo_path fs value =
     (if is_absolute value
      then Inl (ValidationError ''paths in checked-in serving configs must be relative'')
      else rbind (repo_resolve fs value) (\<lambda>candidate.
        if \<not> strict_prefix (repo_root fs) candidate \<and> candidate \<noteq> repo_root fs
        then Inl (ValidationError ''path escapes repository'')
        else Inr candidate))"

text \<open>\<open>resolve_repo_path(_require_str(value, name), path)\<close>\<close>

definition require_repo_path :: "repo \<Rightarrow> json \<Rightarrow> string \<Rightarrow> check" where
  "require_repo_path fs value name = first_error
     [require_str value name False, error_of (resolve_repo_path fs (str_of value))]"

section \<open>The serving configuration\<close>

definition CONFIG_FIELDS :: "string list" where
  "CONFIG_FIELDS =
    [''schema_version'', ''name'', ''evidence_type'', ''execution_mode'', ''scheduling_policy'',
     ''max_num_sequences'', ''max_batched_tokens'', ''kv_cache'', ''prefix_cache'', ''backend'',
     ''slos'', ''workload'', ''output_path'', ''run_seed'']"

definition BACKEND_KEYS :: "string list" where
  "BACKEND_KEYS =
    [''prefill_base_us'', ''prefill_per_token_us'', ''prefill_per_active_sequence_us'',
     ''decode_base_us'', ''decode_per_active_sequence_us'', ''batch_base_us'',
     ''batch_prefill_per_token_us'', ''batch_decode_per_sequence_us'',
     ''batch_active_sequence_overhead_us'']"

definition EXECUTION_MODES :: "string list" where
  "EXECUTION_MODES = [''single_active_fcfs'', ''continuous_batching'']"

definition BATCH_POLICIES :: "string list" where
  "BATCH_POLICIES = [''DecodeFirst'', ''FcfsMixed'']"

definition check_config_scheduling :: "json \<Rightarrow> check" where
  "check_config_scheduling config =
     (let mode = jget config ''execution_mode''; policy = jget config ''scheduling_policy'' in first_error
      [require_member mode EXECUTION_MODES (ValidationError ''unknown execution_mode''),
       require_member policy (''FCFS'' # BATCH_POLICIES) (ValidationError ''unknown scheduling_policy''),
       reject (mode = JStr ''single_active_fcfs'' \<and> policy \<noteq> JStr ''FCFS'')
         (ValidationError ''single_active_fcfs requires scheduling_policy FCFS''),
       reject (mode = JStr ''continuous_batching'' \<and> policy = JStr ''FCFS'')
         (ValidationError ''continuous_batching requires DecodeFirst or FcfsMixed''),
       require_int (jget config ''max_num_sequences'') ''max_num_sequences'' 1,
       require_int (jget config ''max_batched_tokens'') ''max_batched_tokens'' 1])"

definition check_config_caches :: "json \<Rightarrow> check" where
  "check_config_caches config =
     (let kv = jget config ''kv_cache''; prefix = jget config ''prefix_cache'' in first_error
      [reject (\<not> is_JObj kv \<or> \<not> has_exactly kv [''total_blocks'', ''block_size_tokens''])
         (ValidationError ''kv_cache requires only total_blocks and block_size_tokens''),
       require_int (jget kv ''total_blocks'') ''kv_cache.total_blocks'' 1,
       require_int (jget kv ''block_size_tokens'') ''kv_cache.block_size_tokens'' 1,
       reject (\<not> is_JObj prefix \<or> \<not> has_exactly prefix [''enabled'', ''namespace'', ''salt''])
         (ValidationError ''prefix_cache requires enabled, namespace, and salt''),
       reject (\<not> is_JBool (jget prefix ''enabled''))
         (ValidationError ''prefix_cache.enabled must be boolean''),
       require_str (jget prefix ''namespace'') ''prefix_cache.namespace'' True,
       require_str (jget prefix ''salt'') ''prefix_cache.salt'' True])"

definition check_config_backend :: "json \<Rightarrow> check" where
  "check_config_backend config =
     (let backend = jget config ''backend''; slos = jget config ''slos'' in first_error
      [reject (\<not> is_JObj backend \<or> \<not> has_exactly backend BACKEND_KEYS)
         (ValidationError ''backend must contain exactly the backend keys''),
       first_error (map (\<lambda>key. require_int (jget backend key) (''backend.'' @ key) 0) BACKEND_KEYS),
       reject (\<not> is_JObj slos \<or> keys_outside slos [''ttft_slo_us'', ''tpot_slo_us'', ''e2e_slo_us''] \<noteq> [])
         (ValidationError ''slos contains unknown thresholds''),
       first_error (map (\<lambda>(key, value). require_int value (''slos.'' @ key) 0) (jitems slos))])"

definition check_serving_config :: "repo \<Rightarrow> json \<Rightarrow> check" where
  "check_serving_config fs config =
     (let g = jget config in first_error
      [reject (keys_missing config CONFIG_FIELDS \<noteq> [])
         (ValidationError ''missing serving config fields''),
       reject (keys_outside config CONFIG_FIELDS \<noteq> [])
         (ValidationError ''unknown serving config fields''),
       reject (g ''schema_version'' \<noteq> JStr CONFIG_SCHEMA_VERSION)
         (ValidationError ''incompatible config schema_version''),
       require_str (g ''name'') ''name'' False,
       reject (g ''evidence_type'' \<noteq> JStr ''simulated'')
         (ValidationError ''evidence_type must be simulated''),
       check_config_scheduling config,
       check_config_caches config,
       check_config_backend config,
       reject (\<not> is_JObj (g ''workload'') \<or> \<not> has_exactly (g ''workload'') [''path'', ''manifest_path''])
         (ValidationError ''workload requires path and manifest_path''),
       require_repo_path fs (jget (g ''workload'') ''path'') ''workload.path'',
       require_repo_path fs (jget (g ''workload'') ''manifest_path'') ''workload.manifest_path'',
       require_repo_path fs (g ''output_path'') ''output_path'',
       require_int (g ''run_seed'') ''run_seed'' 0])"

definition validate_serving_config :: "repo \<Rightarrow> json \<Rightarrow> json res" where
  "validate_serving_config fs config = checked (check_serving_config fs config) (Inr config)"

text \<open>The configuration values the native checks and the runner read.\<close>

definition cfg_total_blocks :: "json \<Rightarrow> int" where
  "cfg_total_blocks config = int_of (jget (jget config ''kv_cache'') ''total_blocks'')"
definition cfg_block_size :: "json \<Rightarrow> int" where
  "cfg_block_size config = int_of (jget (jget config ''kv_cache'') ''block_size_tokens'')"

section \<open>Provenance of the benchmark runner\<close>

definition is_alpha :: "char \<Rightarrow> bool" where
  "is_alpha c \<longleftrightarrow> (let n = of_char c :: nat in (65 \<le> n \<and> n \<le> 90) \<or> (97 \<le> n \<and> n \<le> 122))"

text \<open>\<open>re.match(r"^[A-Za-z]:[\\/]", path)\<close>; \<open>CHR 0x5C\<close> is the backslash.\<close>

definition drive_prefix :: "string \<Rightarrow> bool" where
  "drive_prefix p \<longleftrightarrow> (case p of a # b # c # _ \<Rightarrow>
     is_alpha a \<and> b = CHR '':'' \<and> (c = CHR 0x5C \<or> c = CHR ''/'') | _ \<Rightarrow> False)"

definition is_hex_lower :: "char \<Rightarrow> bool" where
  "is_hex_lower c \<longleftrightarrow> (let n = of_char c :: nat in (48 \<le> n \<and> n \<le> 57) \<or> (97 \<le> n \<and> n \<le> 102))"

text \<open>\<open>re.fullmatch(r"[0-9a-f]{64}", s)\<close>\<close>

definition sha256_text :: "string \<Rightarrow> bool" where
  "sha256_text s \<longleftrightarrow> length s = 64 \<and> list_all is_hex_lower s"

definition portable_runner_path :: "string \<Rightarrow> bool" where
  "portable_runner_path path \<longleftrightarrow>
     \<not> (is_absolute path \<or> drive_prefix path \<or> CHR 0x5C \<in> set path \<or>
        as_posix (posix_parts path) \<noteq> path \<or> ''..'' \<in> set (posix_parts path))"

definition validate_benchmark_runner :: "string \<Rightarrow> json \<Rightarrow> (string \<times> string) res" where
  "validate_benchmark_runner ctx value =
     (let path = jget value ''path''; digest = jget value ''sha256'' in
      checked (first_error
       [reject (\<not> is_JObj value \<or> \<not> has_exactly value [''path'', ''sha256''])
          (ValidationError (ctx @ '': benchmark_runner must be an object containing path and sha256'')),
        reject (\<not> nonempty_str path)
          (ValidationError (ctx @ '': benchmark_runner.path must be a nonempty string'')),
        reject (\<not> portable_runner_path (str_of path))
          (ValidationError (ctx @ '': benchmark_runner.path must be a normalized repository-relative path'')),
        reject (\<not> is_JStr digest \<or> \<not> sha256_text (str_of digest))
          (ValidationError (ctx @ '': benchmark_runner.sha256 must be a lowercase SHA-256''))])
       (Inr (str_of path, str_of digest)))"

fun runner_consistency :: "(string \<times> string) option \<Rightarrow> (string \<times> json) list \<Rightarrow> (string \<times> string) res" where
  "runner_consistency expected [] = (case expected of
     None \<Rightarrow> Inl (ValidationError ''checked-in references do not record benchmark_runner provenance'')
   | Some e \<Rightarrow> Inr e)"
| "runner_consistency expected ((ctx, value) # rest) =
     rbind (validate_benchmark_runner ctx value) (\<lambda>actual.
       case expected of
         None \<Rightarrow> runner_consistency (Some actual) rest
       | Some e \<Rightarrow> if actual \<noteq> e
           then Inl (ValidationError (ctx @ '': benchmark_runner disagrees with checked-in references''))
           else runner_consistency expected rest)"

definition validate_benchmark_runner_consistency :: "(string \<times> json) list \<Rightarrow> (string \<times> string) res" where
  "validate_benchmark_runner_consistency values = runner_consistency None values"

section \<open>What an accepted configuration promises\<close>

definition config_ok :: "repo \<Rightarrow> json \<Rightarrow> bool" where
  "config_ok fs config \<longleftrightarrow>
     (jget config ''execution_mode'', jget config ''scheduling_policy'') \<in>
        {(JStr ''single_active_fcfs'', JStr ''FCFS''), (JStr ''continuous_batching'', JStr ''DecodeFirst''),
         (JStr ''continuous_batching'', JStr ''FcfsMixed'')} \<and>
     1 \<le> int_of (jget config ''max_num_sequences'') \<and> 1 \<le> int_of (jget config ''max_batched_tokens'') \<and>
     1 \<le> cfg_total_blocks config \<and> 1 \<le> cfg_block_size config \<and>
     (\<forall>key \<in> set BACKEND_KEYS. 0 \<le> int_of (jget (jget config ''backend'') key)) \<and>
     (\<forall>v \<in> {jget (jget config ''workload'') ''path'', jget (jget config ''workload'') ''manifest_path'',
            jget config ''output_path''}.
        \<exists>c. repo_resolve fs (str_of v) = Inr c \<and> prefix (repo_root fs) c)"

lemma resolve_repo_path_Inr:
  "resolve_repo_path fs v = Inr c \<longleftrightarrow>
     \<not> is_absolute v \<and> repo_resolve fs v = Inr c \<and> prefix (repo_root fs) c"
  by (auto simp: resolve_repo_path_def strict_prefix_def split: if_splits)

lemma require_repo_path_None [simp]:
  "require_repo_path fs v name = None \<longleftrightarrow> nonempty_str v \<and> \<not> is_absolute (str_of v) \<and>
     (\<exists>c. repo_resolve fs (str_of v) = Inr c \<and> prefix (repo_root fs) c)"
  by (auto simp: require_repo_path_def resolve_repo_path_Inr nonempty_str_def)

lemma accepted_config_ok: "check_serving_config fs config = None \<Longrightarrow> config_ok fs config"
  by (auto simp: check_serving_config_def check_config_scheduling_def check_config_caches_def
      check_config_backend_def config_ok_def cfg_total_blocks_def cfg_block_size_def Let_def
      EXECUTION_MODES_def BATCH_POLICIES_def)

section \<open>Runner paths\<close>

lemma runner_consistency_Inr:
  "runner_consistency expected vs = Inr e \<longleftrightarrow>
     (\<forall>(ctx, v) \<in> set vs. validate_benchmark_runner ctx v = Inr e) \<and>
     (case expected of None \<Rightarrow> vs \<noteq> [] | Some x \<Rightarrow> x = e)"
proof (induction expected vs rule: runner_consistency.induct)
  case (2 expected ctx v rest)
  then show ?case by (cases expected; cases e) (auto split: if_splits)
qed (auto split: option.splits)

text \<open>The components of a path that stays below its root and is written in normal form.\<close>

definition clean_part :: "string \<Rightarrow> bool" where
  "clean_part w \<longleftrightarrow> w \<noteq> [] \<and> w \<noteq> ''.'' \<and> w \<noteq> ''..'' \<and> CHR ''/'' \<notin> set w \<and> CHR 0x5C \<notin> set w"

lemma posix_parts_join:
  "ws \<noteq> [] \<Longrightarrow> \<forall>w \<in> set ws. clean_part w \<Longrightarrow> posix_parts (join_with (CHR ''/'') ws) = ws"
  by (simp add: posix_parts_def split_join clean_part_def filter_id_conv)

lemma is_absolute_join: "\<forall>w \<in> set ws. clean_part w \<Longrightarrow> \<not> is_absolute (join_with (CHR ''/'') ws)"
proof (cases ws)
  case (Cons w vs)
  assume "\<forall>w \<in> set ws. clean_part w"
  with Cons obtain x u where "w = x # u" "x \<noteq> CHR ''/''"
    by (cases w) (auto simp: clean_part_def)
  with Cons show ?thesis by (cases vs) (auto simp: is_absolute_def)
qed (simp add: is_absolute_def)

text \<open>C14: A recorded runner path is accepted exactly when it is \<open>.\<close> or
  is the slash-joined form of a nonempty list of clean components (no empty, \<open>.\<close> or \<open>..\<close> component,
  no slash or backslash inside one) that does not start like a Windows drive: such a path cannot
  leave the directory it is taken relative to, and it is in normal form.\<close>

theorem runner_path_normal_form:
  "portable_runner_path p \<longleftrightarrow>
     p = ''.'' \<or> (\<exists>ws. ws \<noteq> [] \<and> list_all clean_part ws \<and> p = join_with (CHR ''/'') ws
                  \<and> \<not> drive_prefix p)"
proof
  assume ok: "portable_runner_path p"
  show "p = ''.'' \<or> (\<exists>ws. ws \<noteq> [] \<and> list_all clean_part ws \<and> p = join_with (CHR ''/'') ws
                  \<and> \<not> drive_prefix p)"
  proof (cases "posix_parts p = []")
    case True
    with ok show ?thesis by (simp add: portable_runner_path_def as_posix_def)
  next
    case False
    from ok have bs: "CHR 0x5C \<notin> set p" and p: "join_with (CHR ''/'') (posix_parts p) = p"
      and dd: "''..'' \<notin> set (posix_parts p)" and dr: "\<not> drive_prefix p"
      using False by (auto simp: portable_runner_path_def as_posix_def)
    have sub: "set w \<subseteq> set p" if "w \<in> set (posix_parts p)" for w
    proof -
      have "set w \<subseteq> set (join_with c ws)" if "w \<in> set ws" for c ws
        using that by (induction c ws rule: join_with.induct) auto
      then show ?thesis using that p by metis
    qed
    have "clean_part w" if "w \<in> set (posix_parts p)" for w
      using that sub [OF that] bs dd split_on_no_sep [of w "CHR ''/''" p]
      by (auto simp: clean_part_def posix_parts_def)
    then show ?thesis using False p dr by (metis list_all_iff)
  qed
next
  assume "p = ''.'' \<or> (\<exists>ws. ws \<noteq> [] \<and> list_all clean_part ws \<and> p = join_with (CHR ''/'') ws
                  \<and> \<not> drive_prefix p)"
  then show "portable_runner_path p"
  proof (elim disjE exE conjE)
    assume "p = ''.''"
    then show ?thesis
      by (simp add: portable_runner_path_def is_absolute_def drive_prefix_def as_posix_def posix_parts_def)
  next
    fix ws assume ws: "ws \<noteq> []" "list_all clean_part ws" "p = join_with (CHR ''/'') ws" "\<not> drive_prefix p"
    then have all: "\<forall>w \<in> set ws. clean_part w" by (simp add: list_all_iff)
    have "CHR 0x5C \<notin> set p"
      using set_join_with [of "CHR ''/''" ws] all ws(3) by (auto simp: clean_part_def)
    moreover have "''..'' \<notin> set ws" using all by (auto simp: clean_part_def)
    ultimately show ?thesis
      using ws all by (simp add: portable_runner_path_def is_absolute_join posix_parts_join as_posix_def)
  qed
qed

text \<open>Checking the runner provenance of the reference
  artifacts returns a pair exactly when there is at least one artifact and every artifact's own
  check returns that pair; otherwise it raises.\<close>

theorem runner_provenance_consistent:
  "validate_benchmark_runner_consistency vs = Inr e \<longleftrightarrow>
     vs \<noteq> [] \<and> list_all (\<lambda>(ctx, v). validate_benchmark_runner ctx v = Inr e) vs"
  by (auto simp: validate_benchmark_runner_consistency_def runner_consistency_Inr list_all_iff)

text \<open>A configuration the repository could hold, for the instances below.\<close>

definition sample_config :: json where
  "sample_config = JObj
    [(''schema_version'', JStr CONFIG_SCHEMA_VERSION), (''name'', JStr ''chat-small''),
     (''evidence_type'', JStr ''simulated''), (''execution_mode'', JStr ''continuous_batching''),
     (''scheduling_policy'', JStr ''DecodeFirst''), (''max_num_sequences'', JInt 4),
     (''max_batched_tokens'', JInt 32),
     (''kv_cache'', JObj [(''total_blocks'', JInt 8), (''block_size_tokens'', JInt 4)]),
     (''prefix_cache'', JObj [(''enabled'', JBool True), (''namespace'', JStr []), (''salt'', JStr [])]),
     (''backend'', JObj (map (\<lambda>k. (k, JInt 5)) BACKEND_KEYS)),
     (''slos'', JObj [(''ttft_slo_us'', JInt 100)]),
     (''workload'', JObj [(''path'', JStr ''workloads/chat.jsonl''),
                          (''manifest_path'', JStr ''workloads/chat.manifest.json'')]),
     (''output_path'', JStr ''results/out.jsonl''), (''run_seed'', JInt 7)]"

definition sample_repo :: repo where
  "sample_repo = \<lparr>repo_root = [''repo''], repo_resolve = (\<lambda>v. Inr (''repo'' # posix_parts v))\<rparr>"

lemma sample_config_accepted: "check_serving_config sample_repo sample_config = None"
  by code_simp



end
