(* ===== verification/Native_Iteration.thy ===== *)
theory Native_Iteration
  imports Native_Request Serving_Config
begin

text \<open>
  The iteration loop of \<open>validate_native_records\<close> (\<open>benchmarks/serving_common.py\<close>): the checks of
  one iteration record, and the loop that threads the previous iteration number and end time and
  fills the per-request tables of prefill and decode appearances.

  The tables are dictionaries keyed by the native identifiers of the accepted requests; every
  identifier the loop uses as a key has passed \<open>_id_array\<close>, so a table is a function on
  identifiers, initially zero or empty.
\<close>

section \<open>One iteration record\<close>

text \<open>The readers name the fields the loop and the summary use.\<close>

definition i_start :: "json \<Rightarrow> int" where "i_start r = int_of (jget r ''start_time_us'')"
definition i_end :: "json \<Rightarrow> int" where "i_end r = int_of (jget r ''end_time_us'')"
definition i_number :: "json \<Rightarrow> int" where "i_number r = int_of (jget r ''iteration_number'')"
definition i_prefill :: "json \<Rightarrow> int list" where "i_prefill r = ints_of (jget r ''prefill_ids'')"
definition i_decode :: "json \<Rightarrow> int list" where "i_decode r = ints_of (jget r ''decode_ids'')"
definition i_deferred :: "json \<Rightarrow> json list" where "i_deferred r = list_of (jget r ''deferred'')"
definition i_evicted :: "json \<Rightarrow> int list" where "i_evicted r = ints_of (jget r ''evicted_ids'')"
definition i_stall :: "json \<Rightarrow> bool" where "i_stall r = bool_of (jget r ''stall'')"

text \<open>An integer field of an iteration or summary record that \<open>_field_int\<close> has accepted.\<close>

definition jint :: "json \<Rightarrow> string \<Rightarrow> int" where "jint r name = int_of (jget r name)"

lemmas i_defs = i_start_def i_end_def i_number_def i_prefill_def i_decode_def i_deferred_def
  i_evicted_def i_stall_def jint_def

text \<open>\<open>_exact_number(actual, a / b, name, context)\<close>\<close>

definition exact_quotient :: "json \<Rightarrow> int \<Rightarrow> int \<Rightarrow> string \<Rightarrow> string \<Rightarrow> check" where
  "exact_quotient actual a b name ctx = (case py_truediv a b of
     Inl e \<Rightarrow> Some e | Inr q \<Rightarrow> exact_number actual (JFloat (Fin q)) name ctx)"

definition deferred_id :: "json \<Rightarrow> int" where "deferred_id item = int_of (jget item ''request_id'')"

definition DEFERRED_REASONS :: "string list" where
  "DEFERRED_REASONS = [''sequence budget'', ''token budget'', ''KV capacity'']"

fun check_deferred :: "string \<Rightarrow> int list \<Rightarrow> json list \<Rightarrow> int list \<Rightarrow> check" where
  "check_deferred ctx native_ids [] deferred_ids = None"
| "check_deferred ctx native_ids (item # rest) deferred_ids = first_error
    [reject (\<not> is_JObj item \<or> \<not> has_exactly item [''request_id'', ''reason''])
       (ValidationError (ctx @ '': deferred item must contain request_id and reason'')),
     reject (\<not> is_JInt (jget item ''request_id'') \<or> deferred_id item \<notin> set native_ids)
       (ValidationError (ctx @ '': deferred item references an unknown request'')),
     reject (deferred_id item \<in> set deferred_ids)
       (ValidationError (ctx @ '': duplicate deferred request ID'')),
     require_member (jget item ''reason'') DEFERRED_REASONS
       (ValidationError (ctx @ '': invalid deferred reason'')),
     check_deferred ctx native_ids rest (deferred_id item # deferred_ids)]"

definition ITERATION_INTS :: "string list" where
  "ITERATION_INTS =
    [''scheduled_sequences'', ''scheduled_prefill_tokens'', ''scheduled_decode_tokens'',
     ''total_scheduled_tokens'', ''kv_allocated'', ''kv_free'', ''represented_kv_tokens'',
     ''internal_fragmentation_tokens'', ''cached_blocks'', ''shared_referenced_blocks'',
     ''prefix_hits'', ''prefix_misses'', ''matched_tokens'']"

definition check_iteration_order :: "string \<Rightarrow> int \<Rightarrow> int \<Rightarrow> json \<Rightarrow> check" where
  "check_iteration_order ctx previous_iteration previous_end record =
     (let V = (\<lambda>m. ValidationError (ctx @ '': '' @ m)) in first_error
      [closed_fields record ITERATION_RECORD_FIELDS ctx,
       field_int record ''iteration_number'' ctx False,
       field_int record ''start_time_us'' ctx False,
       field_int record ''end_time_us'' ctx False,
       reject (i_number record \<le> previous_iteration)
         (V ''iteration_number must be unique and strictly increasing''),
       reject (i_start record < previous_end \<or> i_end record < i_start record)
         (V ''iteration timestamps are not monotonic''),
       require_member (jget record ''policy'') BATCH_POLICIES (V ''invalid scheduling policy'')])"

definition check_iteration_batch :: "string \<Rightarrow> int list \<Rightarrow> json \<Rightarrow> check" where
  "check_iteration_batch ctx native_ids record =
     (let V = (\<lambda>m. ValidationError (ctx @ '': '' @ m));
          prefill = i_prefill record; decode = i_decode record;
          deferred = i_deferred record; deferred_ids = map deferred_id deferred
      in first_error
      [id_array (jget record ''prefill_ids'') ''prefill_ids'' ctx native_ids,
       id_array (jget record ''decode_ids'') ''decode_ids'' ctx native_ids,
       reject (set prefill \<inter> set decode \<noteq> {})
         (V ''request appears in both prefill_ids and decode_ids''),
       reject (\<not> is_JList (jget record ''deferred'')) (V ''deferred must be an array''),
       check_deferred ctx native_ids deferred [],
       reject (set deferred_ids \<inter> (set prefill \<union> set decode) \<noteq> {})
         (V ''deferred request also appears in scheduled work'')])"

definition check_iteration_work :: "string \<Rightarrow> json \<Rightarrow> check" where
  "check_iteration_work ctx record =
     (let V = (\<lambda>m. ValidationError (ctx @ '': '' @ m));
          prefill = i_prefill record; decode = i_decode record; evicted = jget record ''evicted_ids''
      in first_error
      [first_error (map (\<lambda>name. field_int record name ctx False) ITERATION_INTS),
       conserved (jget record ''scheduled_sequences'') (JInt (int (length prefill) + int (length decode)))
         ''scheduled_sequences'' ctx,
       conserved (jget record ''scheduled_decode_tokens'') (JInt (int (length decode)))
         ''scheduled_decode_tokens'' ctx,
       conserved (jget record ''total_scheduled_tokens'')
         (JInt (jint record ''scheduled_prefill_tokens'' + jint record ''scheduled_decode_tokens''))
         ''total_scheduled_tokens'' ctx,
       number_in_unit_interval (jget record ''kv_utilization'') ''kv_utilization'' ctx False,
       reject (\<not> is_JBool (jget record ''stall'')) (V ''stall must be boolean''),
       reject (\<not> is_JList evicted \<or> \<not> list_all nonneg_int (list_of evicted))
         (V ''evicted_ids must contain non-negative integers''),
       reject (\<not> distinct (ints_of evicted)) (V ''evicted_ids contains duplicate physical IDs''),
       reject (i_stall record \<and> (prefill \<noteq> [] \<or> decode \<noteq> [] \<or> jint record ''total_scheduled_tokens'' \<noteq> 0))
         (V ''stalled iteration contains scheduled work'')])"

definition check_iteration_blocks :: "string \<Rightarrow> json option \<Rightarrow> json \<Rightarrow> check" where
  "check_iteration_blocks ctx config record = first_error
     [(case config of None \<Rightarrow> None
       | Some cfg \<Rightarrow> first_error
         [conserved_int (jint record ''kv_allocated'' + jint record ''kv_free'') (cfg_total_blocks cfg)
            ''configured KV block capacity'' ctx,
          exact_quotient (jget record ''kv_utilization'') (jint record ''kv_allocated'')
            (cfg_total_blocks cfg) ''kv_utilization'' ctx,
          conserved (jget record ''internal_fragmentation_tokens'')
            (JInt (jint record ''kv_allocated'' * cfg_block_size cfg - jint record ''represented_kv_tokens''))
            ''internal_fragmentation_tokens'' ctx]),
      reject (jint record ''kv_allocated'' < jint record ''cached_blocks'' \<or>
              jint record ''kv_allocated'' < jint record ''shared_referenced_blocks'')
        (ValidationError (ctx @ '': cached/shared block gauges exceed allocated blocks''))]"

definition check_iteration ::
    "json option \<Rightarrow> int list \<Rightarrow> int \<Rightarrow> int \<Rightarrow> nat \<Rightarrow> json \<Rightarrow> check" where
  "check_iteration config native_ids previous_iteration previous_end line record =
     (let ctx = ''iteration record at result line '' @ str_nat line in first_error
      [check_iteration_order ctx previous_iteration previous_end record,
       check_iteration_batch ctx native_ids record,
       check_iteration_work ctx record,
       check_iteration_blocks ctx config record])"

section \<open>The loop and its tables\<close>

record tables =
  decode_appearances :: "int \<Rightarrow> int"
  prefill_appearances :: "int \<Rightarrow> int"
  decode_iteration_times :: "int \<Rightarrow> int list"
  prefill_iteration_times :: "int \<Rightarrow> int list"
  prefill_iteration_end_times :: "int \<Rightarrow> int list"

definition empty_tables :: tables where
  "empty_tables = \<lparr>decode_appearances = (\<lambda>_. 0), prefill_appearances = (\<lambda>_. 0),
     decode_iteration_times = (\<lambda>_. []), prefill_iteration_times = (\<lambda>_. []),
     prefill_iteration_end_times = (\<lambda>_. [])\<rparr>"

text \<open>\<open>d[k] += 1\<close> and \<open>d[k].append(x)\<close>\<close>

definition count_at :: "int \<Rightarrow> (int \<Rightarrow> int) \<Rightarrow> int \<Rightarrow> int" where
  "count_at k d = d(k := d k + 1)"
definition append_at :: "int \<Rightarrow> int \<Rightarrow> (int \<Rightarrow> int list) \<Rightarrow> int \<Rightarrow> int list" where
  "append_at k x d = d(k := d k @ [x])"

definition note_prefill :: "int \<Rightarrow> int \<Rightarrow> int \<Rightarrow> tables \<Rightarrow> tables" where
  "note_prefill start fin request_id t = t\<lparr>
     prefill_appearances := count_at request_id (prefill_appearances t),
     prefill_iteration_times := append_at request_id start (prefill_iteration_times t),
     prefill_iteration_end_times := append_at request_id fin (prefill_iteration_end_times t)\<rparr>"

definition note_decode :: "int \<Rightarrow> int \<Rightarrow> tables \<Rightarrow> tables" where
  "note_decode fin request_id t = t\<lparr>
     decode_appearances := count_at request_id (decode_appearances t),
     decode_iteration_times := append_at request_id fin (decode_iteration_times t)\<rparr>"

definition note_iteration :: "json \<Rightarrow> tables \<Rightarrow> tables" where
  "note_iteration record t =
     fold (note_decode (i_end record)) (i_decode record)
       (fold (note_prefill (i_start record) (i_end record)) (i_prefill record) t)"

fun check_iterations ::
    "json option \<Rightarrow> int list \<Rightarrow> (nat \<times> json) list \<Rightarrow> int \<Rightarrow> int \<Rightarrow> tables \<Rightarrow> tables res" where
  "check_iterations config native_ids [] previous_iteration previous_end t = Inr t"
| "check_iterations config native_ids ((line, record) # rest) previous_iteration previous_end t =
     checked (check_iteration config native_ids previous_iteration previous_end line record)
       (check_iterations config native_ids rest (i_number record) (i_end record)
          (note_iteration record t))"

section \<open>What acceptance means\<close>

lemma exact_quotient_None:
  "exact_quotient v a b name ctx = None \<longleftrightarrow>
     (\<exists>q. py_truediv a b = Inr q \<and> is_number v \<and> num_of v = Some (Fin q))"
  by (auto simp: exact_quotient_def split: sum.splits)

definition deferred_ok :: "int list \<Rightarrow> json \<Rightarrow> bool" where
  "deferred_ok native item \<longleftrightarrow> is_JObj item \<and> has_exactly item [''request_id'', ''reason''] \<and>
     is_JInt (jget item ''request_id'') \<and> deferred_id item \<in> set native \<and>
     jget item ''reason'' \<in> JStr ` set DEFERRED_REASONS"

interpretation deferred: unique_scan
  "\<lambda>seen items. check_deferred ctx native items seen = None" "deferred_ok native" deferred_id
  for ctx native
  by unfold_locales (auto simp: deferred_ok_def)

lemma check_deferred_None:
  "check_deferred ctx native items [] = None \<longleftrightarrow>
     (\<forall>item \<in> set items. deferred_ok native item) \<and> distinct (map deferred_id items)"
  by (rule deferred.scan_fresh)

text \<open>The batch of an accepted iteration: who is prefilled, decoded and deferred.\<close>

definition batch_wf :: "int list \<Rightarrow> json \<Rightarrow> bool" where
  "batch_wf native r \<longleftrightarrow>
     distinct (i_prefill r @ i_decode r @ map deferred_id (i_deferred r)) \<and>
     set (i_prefill r @ i_decode r @ map deferred_id (i_deferred r)) \<subseteq> set native \<and>
     jint r ''scheduled_sequences'' = int (length (i_prefill r @ i_decode r)) \<and>
     jint r ''scheduled_decode_tokens'' = int (length (i_decode r)) \<and>
     jint r ''total_scheduled_tokens'' = jint r ''scheduled_prefill_tokens'' + jint r ''scheduled_decode_tokens'' \<and>
     (i_stall r \<longrightarrow> jint r ''scheduled_sequences'' = 0 \<and> jint r ''total_scheduled_tokens'' = 0) \<and>
     (\<forall>name \<in> set ITERATION_INTS. is_JInt (jget r name) \<and> 0 \<le> jint r name) \<and> distinct (i_evicted r) \<and>
     0 \<le> i_start r \<and> i_start r \<le> i_end r \<and> jget r ''policy'' \<in> JStr ` set BATCH_POLICIES"

definition blocks_wf :: "json \<Rightarrow> json \<Rightarrow> bool" where
  "blocks_wf cfg r \<longleftrightarrow>
     jint r ''kv_allocated'' + jint r ''kv_free'' = cfg_total_blocks cfg \<and>
     (\<exists>q. py_truediv (jint r ''kv_allocated'') (cfg_total_blocks cfg) = Inr q \<and>
          num_of (jget r ''kv_utilization'') = Some (Fin q)) \<and>
     jint r ''represented_kv_tokens'' + jint r ''internal_fragmentation_tokens''
       = jint r ''kv_allocated'' * cfg_block_size cfg \<and>
     jint r ''cached_blocks'' \<le> jint r ''kv_allocated'' \<and>
     jint r ''shared_referenced_blocks'' \<le> jint r ''kv_allocated''"

lemma conserved_jint:
  "is_JInt (jget r name) \<Longrightarrow> conserved (jget r name) (JInt i) n ctx = None \<longleftrightarrow> jint r name = i"
  by (simp add: jint_def)

lemma accepted_iteration_ints:
  "check_iteration_work ctx r = None \<Longrightarrow> name \<in> set ITERATION_INTS \<Longrightarrow>
     is_JInt (jget r name) \<and> 0 \<le> jint r name"
  by (auto simp: check_iteration_work_def Let_def jint_def)

lemma accepted_batch:
  assumes "check_iteration_batch ctx native r = None"
  shows "distinct (i_prefill r @ i_decode r @ map deferred_id (i_deferred r))"
    and "set (i_prefill r @ i_decode r @ map deferred_id (i_deferred r)) \<subseteq> set native"
  using assms by (auto simp: check_iteration_batch_def Let_def check_deferred_None deferred_ok_def i_defs)

lemma accepted_work:
  assumes "check_iteration_work ctx r = None"
  shows "jint r ''scheduled_sequences'' = int (length (i_prefill r @ i_decode r))"
    and "jint r ''scheduled_decode_tokens'' = int (length (i_decode r))"
    and "jint r ''total_scheduled_tokens'' = jint r ''scheduled_prefill_tokens'' + jint r ''scheduled_decode_tokens''"
    and "i_stall r \<longrightarrow> i_prefill r = [] \<and> i_decode r = [] \<and> jint r ''total_scheduled_tokens'' = 0"
    and "distinct (i_evicted r)"
proof -
  note ints = accepted_iteration_ints [OF assms, unfolded ITERATION_INTS_def]
  have "is_JInt (jget r ''scheduled_sequences'')" "is_JInt (jget r ''scheduled_decode_tokens'')"
    "is_JInt (jget r ''total_scheduled_tokens'')"
    by (simp_all add: ints)
  note conv = this [THEN conserved_jint]
  show "jint r ''scheduled_sequences'' = int (length (i_prefill r @ i_decode r))"
    "jint r ''scheduled_decode_tokens'' = int (length (i_decode r))"
    "jint r ''total_scheduled_tokens'' = jint r ''scheduled_prefill_tokens'' + jint r ''scheduled_decode_tokens''"
    "i_stall r \<longrightarrow> i_prefill r = [] \<and> i_decode r = [] \<and> jint r ''total_scheduled_tokens'' = 0"
    "distinct (i_evicted r)"
    using assms by (auto simp: check_iteration_work_def Let_def conv i_evicted_def)
qed

lemma accepted_iteration_batch_wf:
  assumes "check_iteration config native p e line r = None"
  shows "batch_wf native r"
proof -
  from assms obtain ctx where o: "check_iteration_order ctx p e r = None"
    and b: "check_iteration_batch ctx native r = None" and w: "check_iteration_work ctx r = None"
    by (auto simp: check_iteration_def Let_def)
  have times: "0 \<le> i_start r" "i_start r \<le> i_end r" "jget r ''policy'' \<in> JStr ` set BATCH_POLICIES"
    using o by (auto simp: check_iteration_order_def Let_def i_defs)
  show ?thesis
    using accepted_batch [OF b] accepted_work [OF w] accepted_iteration_ints [OF w] times
    by (auto simp: batch_wf_def)
qed

lemma accepted_iteration_blocks_wf:
  assumes "check_iteration (Some cfg) native p e line r = None"
  shows "blocks_wf cfg r"
proof -
  from assms obtain ctx where w: "check_iteration_work ctx r = None"
    and b: "check_iteration_blocks ctx (Some cfg) r = None"
    by (auto simp: check_iteration_def Let_def)
  have "is_JInt (jget r ''internal_fragmentation_tokens'')"
    using accepted_iteration_ints [OF w, of "''internal_fragmentation_tokens''"]
    by (simp add: ITERATION_INTS_def)
  moreover have "int_of (jget r ''internal_fragmentation_tokens'') = jint r ''internal_fragmentation_tokens''"
    by (simp add: jint_def)
  ultimately show ?thesis
    using b by (auto simp: check_iteration_blocks_def blocks_wf_def exact_quotient_None)
qed

text \<open>Consecutive iterations: numbers increase strictly and time intervals do not overlap.\<close>

fun ordered_iterations :: "int \<Rightarrow> int \<Rightarrow> json list \<Rightarrow> bool" where
  "ordered_iterations n t [] \<longleftrightarrow> True"
| "ordered_iterations n t (r # rs) \<longleftrightarrow> n < i_number r \<and> t \<le> i_start r \<and> i_start r \<le> i_end r \<and>
     ordered_iterations (i_number r) (i_end r) rs"

lemma accepted_iterations:
  "check_iterations config native its n t tab = Inr tab' \<Longrightarrow>
     ordered_iterations n t (map snd its) \<and> (\<forall>r \<in> set (map snd its). batch_wf native r) \<and>
     (\<forall>cfg. config = Some cfg \<longrightarrow> (\<forall>r \<in> set (map snd its). blocks_wf cfg r)) \<and>
     tab' = fold note_iteration (map snd its) tab"
proof (induction config native its n t tab rule: check_iterations.induct)
  case (2 config native line r rest n t tab)
  then have ok: "check_iteration config native n t line r = None" by simp
  then have "n < i_number r \<and> t \<le> i_start r \<and> i_start r \<le> i_end r"
    by (auto simp: check_iteration_def check_iteration_order_def Let_def)
  with 2 ok accepted_iteration_batch_wf [OF ok] show ?case
    by (auto dest: accepted_iteration_blocks_wf)
qed simp

lemma ordered_iterations_later: "ordered_iterations n t rs \<Longrightarrow> r \<in> set rs \<Longrightarrow> t \<le> i_start r \<and> n < i_number r"
  by (induction rs arbitrary: n t) force+

section \<open>The tables list the iterations a request appears in\<close>

lemma fold_note_decode:
  "distinct ids \<Longrightarrow> fold (note_decode e) ids t = t\<lparr>
     decode_appearances := (\<lambda>i. decode_appearances t i + of_bool (i \<in> set ids)),
     decode_iteration_times := (\<lambda>i. decode_iteration_times t i @ (if i \<in> set ids then [e] else []))\<rparr>"
  by (induction ids arbitrary: t)
    (auto simp: note_decode_def count_at_def append_at_def fun_eq_iff)

lemma fold_note_prefill:
  "distinct ids \<Longrightarrow> fold (note_prefill s e) ids t = t\<lparr>
     prefill_appearances := (\<lambda>i. prefill_appearances t i + of_bool (i \<in> set ids)),
     prefill_iteration_times := (\<lambda>i. prefill_iteration_times t i @ (if i \<in> set ids then [s] else [])),
     prefill_iteration_end_times := (\<lambda>i. prefill_iteration_end_times t i @ (if i \<in> set ids then [e] else []))\<rparr>"
  by (induction ids arbitrary: t)
    (auto simp: note_prefill_def count_at_def append_at_def fun_eq_iff)

definition decoded_in :: "int \<Rightarrow> json list \<Rightarrow> json list" where
  "decoded_in i rs = filter (\<lambda>r. i \<in> set (i_decode r)) rs"
definition prefilled_in :: "int \<Rightarrow> json list \<Rightarrow> json list" where
  "prefilled_in i rs = filter (\<lambda>r. i \<in> set (i_prefill r)) rs"

lemma tables_from:
  "\<forall>r \<in> set rs. batch_wf native r \<Longrightarrow> fold note_iteration rs t =
     \<lparr>decode_appearances = (\<lambda>i. decode_appearances t i + int (length (decoded_in i rs))),
      prefill_appearances = (\<lambda>i. prefill_appearances t i + int (length (prefilled_in i rs))),
      decode_iteration_times = (\<lambda>i. decode_iteration_times t i @ map i_end (decoded_in i rs)),
      prefill_iteration_times = (\<lambda>i. prefill_iteration_times t i @ map i_start (prefilled_in i rs)),
      prefill_iteration_end_times =
        (\<lambda>i. prefill_iteration_end_times t i @ map i_end (prefilled_in i rs))\<rparr>"
proof (induction rs arbitrary: t)
  case Nil
  then show ?case by (simp add: decoded_in_def prefilled_in_def)
next
  case (Cons r rs)
  then have d: "distinct (i_prefill r)" "distinct (i_decode r)" by (simp_all add: batch_wf_def)
  from Cons show ?case
    by (simp add: note_iteration_def fold_note_decode [OF d(2)] fold_note_prefill [OF d(1)])
      (auto simp: decoded_in_def prefilled_in_def fun_eq_iff)
qed

lemma accepted_tables:
  assumes "check_iterations config native its n t empty_tables = Inr tab"
  shows "decode_appearances tab i = int (length (decoded_in i (map snd its)))"
    and "prefill_appearances tab i = int (length (prefilled_in i (map snd its)))"
    and "decode_iteration_times tab i = map i_end (decoded_in i (map snd its))"
    and "prefill_iteration_times tab i = map i_start (prefilled_in i (map snd its))"
    and "prefill_iteration_end_times tab i = map i_end (prefilled_in i (map snd its))"
proof -
  note acc = accepted_iterations [OF assms]
  have tab: "tab = fold note_iteration (map snd its) empty_tables" using acc by blast
  have wf: "\<forall>r \<in> set (map snd its). batch_wf native r" using acc by blast
  show "decode_appearances tab i = int (length (decoded_in i (map snd its)))"
    "prefill_appearances tab i = int (length (prefilled_in i (map snd its)))"
    "decode_iteration_times tab i = map i_end (decoded_in i (map snd its))"
    "prefill_iteration_times tab i = map i_start (prefilled_in i (map snd its))"
    "prefill_iteration_end_times tab i = map i_end (prefilled_in i (map snd its))"
    by (simp_all add: tab tables_from [OF wf] empty_tables_def)
qed

end
