(* ===== verification/Native_Summary.thy ===== *)
theory Native_Summary
  imports Native_Iteration "HOL-Library.Char_ord" "HOL-Library.List_Lexorder" "HOL-Library.Product_Lexorder"
begin

text \<open>
  The rest of \<open>validate_native_records\<close> (\<open>benchmarks/serving_common.py\<close>): the summary record, its
  conservation against the request and iteration records in the two execution modes, the workload
  envelope, and the function itself. Workload records are the ones \<open>read_workload\<close> has accepted,
  so their required fields are present; strings compare by code point.
\<close>

section \<open>Shape of the summary\<close>

definition SUMMARY_INTS :: "string list" where
  "SUMMARY_INTS =
    [''submitted'', ''completed'', ''cancelled'', ''rejected'', ''stalled'', ''makespan_us'',
     ''max_batch_size'', ''deferred_requests'', ''kv_allocation_failures'', ''kv_capacity_deferrals'',
     ''prefix_lookups'', ''prefix_lookup_hits'', ''prefix_lookup_misses'', ''matched_prefix_blocks'',
     ''cache_eligible_prompt_tokens'', ''collision_verifications'', ''matched_prefix_tokens'',
     ''saved_simulated_prefill_tokens'', ''eviction_count'', ''submitted_prompt_tokens'',
     ''scheduled_prefill_tokens'', ''generated_tokens'', ''scheduled_decode_tokens'']"

definition SUMMARY_NULLABLE_INTS :: "string list" where
  "SUMMARY_NULLABLE_INTS =
    [''scheduling_iterations'', ''nonempty_batches'', ''idle_iterations'',
     ''total_scheduled_sequences'', ''max_scheduled_tokens'', ''current_allocated_blocks'',
     ''current_free_blocks'', ''peak_allocated_blocks'', ''represented_kv_tokens'',
     ''internal_fragmentation_tokens'', ''cached_blocks'', ''shared_referenced_blocks'']"

definition finite_nonneg :: "json \<Rightarrow> bool" where
  "finite_nonneg v \<longleftrightarrow> (case num_of v of Some (Fin q) \<Rightarrow> 0 \<le> q | _ \<Rightarrow> False)"

definition check_average :: "json \<Rightarrow> string \<Rightarrow> check" where
  "check_average average ctx =
     (let e = ValidationError (ctx @ '': average_batch_size must be null or a finite non-negative number'')
      in if average = JNull then None
         else first_error [reject (\<not> is_number average) e,
                           reject (isfinite_overflows average) OverflowError,
                           reject (\<not> finite_nonneg average) e])"

definition check_summary_shape :: "string \<Rightarrow> json option \<Rightarrow> json \<Rightarrow> check" where
  "check_summary_shape ctx config summary =
     (let V = (\<lambda>m. ValidationError (ctx @ '': '' @ m)); g = jget summary;
          mode = g ''execution_mode''; policy = g ''scheduling_policy''
      in first_error
      [closed_fields summary SUMMARY_RECORD_FIELDS ctx,
       require_member mode EXECUTION_MODES (V ''invalid execution_mode''),
       reject (mode = JStr ''single_active_fcfs'' \<and> policy \<noteq> JNull)
         (V ''FCFS scheduling_policy must be null''),
       (if mode = JStr ''continuous_batching''
        then require_member policy BATCH_POLICIES (V ''invalid continuous scheduling_policy'') else None),
       (case config of None \<Rightarrow> None
        | Some cfg \<Rightarrow> first_error
          [conserved mode (jget cfg ''execution_mode'') ''execution_mode'' ctx,
           conserved policy (if mode = JStr ''single_active_fcfs'' then JNull else jget cfg ''scheduling_policy'')
             ''scheduling_policy'' ctx]),
       require_member (g ''run_status'') [''completed'', ''stalled''] (V ''invalid run_status''),
       first_error (map (\<lambda>name. field_int summary name ctx False) SUMMARY_INTS),
       first_error (map (\<lambda>name. field_int summary name ctx True) SUMMARY_NULLABLE_INTS),
       check_average (g ''average_batch_size'') ctx,
       first_error (map (\<lambda>name. number_in_unit_interval (g name) name ctx True)
         [''kv_current_utilization'', ''kv_peak_utilization'', ''prefix_token_hit_rate''])])"

section \<open>Conservation against the records\<close>

definition count_if :: "('a \<Rightarrow> bool) \<Rightarrow> 'a list \<Rightarrow> int" where
  "count_if P xs = int (length (filter P xs))"

definition total_of :: "('a \<Rightarrow> int) \<Rightarrow> 'a list \<Rightarrow> int" where
  "total_of f xs = (\<Sum>x\<leftarrow>xs. f x)"

text \<open>\<open>max(xs, default=d)\<close>\<close>

definition max_default :: "'a::linorder \<Rightarrow> 'a list \<Rightarrow> 'a" where
  "max_default d xs = (case xs of [] \<Rightarrow> d | x # rest \<Rightarrow> fold max rest x)"

definition in_state :: "string \<Rightarrow> json \<Rightarrow> bool" where
  "in_state s r \<longleftrightarrow> r_state r = JStr s"

text \<open>\<open>[record[k] for record in records if record[k] is not None]\<close>\<close>

definition finish_times :: "json list \<Rightarrow> int list" where
  "finish_times requests = List.map_filter r_finish requests"

definition check_summary_counts :: "string \<Rightarrow> json list \<Rightarrow> json list \<Rightarrow> json \<Rightarrow> check" where
  "check_summary_counts ctx requests iterations summary =
     (let V = (\<lambda>m. ValidationError (ctx @ '': '' @ m)); g = jget summary; j = jint summary;
          n = int (length requests);
          unfinished = n - j ''completed'' - j ''cancelled'' - j ''rejected'';
          status = g ''run_status'';
          keep = (\<lambda>name expected. conserved (g name) (JInt expected) name ctx)
      in first_error
      [keep ''submitted'' n,
       keep ''completed'' (count_if (in_state ''Finished'') requests),
       keep ''cancelled'' (count_if (in_state ''Cancelled'') requests),
       reject (j ''rejected'' \<noteq> 0) (V ''rejected count requires explicit rejection records''),
       reject (status = JStr ''completed'' \<and> (unfinished \<noteq> 0 \<or> j ''stalled'' \<noteq> 0))
         (V ''completed status contradicts unfinished/stalled work''),
       reject (status = JStr ''stalled'' \<and> (unfinished = 0 \<or> j ''stalled'' = 0))
         (V ''stalled status requires unfinished requests and stalled iterations''),
       keep ''makespan_us'' (max_default 0 (finish_times requests @ map i_end iterations @ [0])),
       keep ''submitted_prompt_tokens'' (total_of r_original requests),
       keep ''scheduled_prefill_tokens'' (total_of r_scheduled requests),
       keep ''generated_tokens'' (total_of r_generated requests),
       keep ''scheduled_decode_tokens'' (total_of r_generated requests),
       keep ''matched_prefix_tokens'' (total_of r_matched requests),
       keep ''prefix_lookups'' (j ''prefix_lookup_hits'' + j ''prefix_lookup_misses''),
       (if j ''cache_eligible_prompt_tokens'' = 0
        then exact_number (g ''prefix_token_hit_rate'') JNull ''prefix_token_hit_rate'' ctx
        else exact_quotient (g ''prefix_token_hit_rate'') (j ''matched_prefix_tokens'')
               (j ''cache_eligible_prompt_tokens'') ''prefix_token_hit_rate'' ctx),
       keep ''saved_simulated_prefill_tokens'' (j ''matched_prefix_tokens'')])"

definition FCFS_NULL_FIELDS :: "string list" where
  "FCFS_NULL_FIELDS =
    [''scheduling_iterations'', ''nonempty_batches'', ''idle_iterations'', ''total_scheduled_sequences'',
     ''max_scheduled_tokens'', ''current_allocated_blocks'', ''current_free_blocks'',
     ''peak_allocated_blocks'', ''kv_current_utilization'', ''kv_peak_utilization'',
     ''represented_kv_tokens'', ''internal_fragmentation_tokens'', ''cached_blocks'',
     ''shared_referenced_blocks'']"

definition check_summary_fcfs :: "string \<Rightarrow> json list \<Rightarrow> json list \<Rightarrow> json \<Rightarrow> check" where
  "check_summary_fcfs ctx requests iterations summary =
     (let V = (\<lambda>m. ValidationError (ctx @ '': '' @ m)); g = jget summary in first_error
      [reject (iterations \<noteq> []) (V ''single_active_fcfs must not contain iteration records''),
       first_error (map (\<lambda>name. reject (g name \<noteq> JNull) (V (''FCFS field '' @ name @ '' must be null'')))
         FCFS_NULL_FIELDS),
       exact_number (g ''average_batch_size'') (if requests = [] then JNull else JInt 1)
         ''average_batch_size'' ctx,
       conserved (g ''max_batch_size'') (JInt (if requests = [] then 0 else 1)) ''max_batch_size'' ctx])"

definition kv_capacity_deferrals :: "json \<Rightarrow> int" where
  "kv_capacity_deferrals r =
     count_if (\<lambda>d. jget d ''reason'' = JStr ''KV capacity'') (i_deferred r)"

definition check_continuous_sums :: "string \<Rightarrow> json list \<Rightarrow> json \<Rightarrow> check" where
  "check_continuous_sums ctx iterations summary =
     (let V = (\<lambda>m. ValidationError (ctx @ '': '' @ m)); g = jget summary; j = jint summary;
          field = (\<lambda>name r. jint r name);
          keep = (\<lambda>name expected. conserved (g name) (JInt expected) name ctx)
      in first_error
      [first_error (map (\<lambda>name. reject (g name = JNull)
           (V (''continuous field '' @ name @ '' must not be null''))) SUMMARY_NULLABLE_INTS),
       reject (g ''average_batch_size'' = JNull \<and> j ''nonempty_batches'' \<noteq> 0)
         (V ''nonempty run requires average_batch_size''),
       keep ''scheduling_iterations'' (int (length iterations)),
       keep ''scheduled_prefill_tokens'' (total_of (field ''scheduled_prefill_tokens'') iterations),
       keep ''scheduled_decode_tokens'' (total_of (field ''scheduled_decode_tokens'') iterations),
       keep ''total_scheduled_sequences'' (total_of (field ''scheduled_sequences'') iterations),
       keep ''nonempty_batches'' (count_if (\<lambda>r. 0 < jint r ''scheduled_sequences'') iterations),
       keep ''stalled'' (count_if i_stall iterations),
       keep ''deferred_requests'' (total_of (\<lambda>r. int (length (i_deferred r))) iterations),
       keep ''kv_capacity_deferrals'' (total_of kv_capacity_deferrals iterations),
       keep ''prefix_lookup_hits'' (total_of (field ''prefix_hits'') iterations),
       keep ''prefix_lookup_misses'' (total_of (field ''prefix_misses'') iterations),
       keep ''matched_prefix_tokens'' (total_of (field ''matched_tokens'') iterations),
       keep ''eviction_count'' (total_of (\<lambda>r. int (length (i_evicted r))) iterations),
       keep ''idle_iterations''
         (count_if (\<lambda>r. jint r ''scheduled_sequences'' = 0 \<and> \<not> i_stall r) iterations),
       keep ''max_batch_size'' (max_default 0 (map (field ''scheduled_sequences'') iterations)),
       keep ''max_scheduled_tokens'' (max_default 0 (map (field ''total_scheduled_tokens'') iterations)),
       (if j ''nonempty_batches'' = 0
        then exact_number (g ''average_batch_size'') JNull ''average_batch_size'' ctx
        else exact_quotient (g ''average_batch_size'') (j ''total_scheduled_sequences'')
               (j ''nonempty_batches'') ''average_batch_size'' ctx)])"

text \<open>The value of a number a check has found finite.\<close>

definition rat_of :: "json \<Rightarrow> rat" where
  "rat_of v = (case num_of v of Some (Fin q) \<Rightarrow> q | _ \<Rightarrow> 0)"

text \<open>\<open>None < x\<close> raises \<open>TypeError\<close>: the peak utilization is not among the fields that must not be
  null.\<close>

definition check_continuous_peaks :: "string \<Rightarrow> json option \<Rightarrow> json list \<Rightarrow> json \<Rightarrow> check" where
  "check_continuous_peaks ctx config iterations summary =
     (let V = (\<lambda>m. ValidationError (ctx @ '': '' @ m)); g = jget summary; j = jint summary;
          observed_peak_blocks = max_default 0 (map (\<lambda>r. jint r ''kv_allocated'') iterations);
          observed_peak_utilization = max_default 0 (map (\<lambda>r. rat_of (jget r ''kv_utilization'')) iterations)
      in first_error
      [reject (j ''peak_allocated_blocks'' < observed_peak_blocks)
         (V ''peak_allocated_blocks must cover the iteration peak''),
       reject (g ''kv_peak_utilization'' = JNull) (TypeError ''< not supported for NoneType''),
       reject (rat_of (g ''kv_peak_utilization'') < observed_peak_utilization)
         (V ''kv_peak_utilization must cover the iteration peak''),
       (case config of None \<Rightarrow> None
        | Some cfg \<Rightarrow> first_error
          [reject (cfg_total_blocks cfg < j ''peak_allocated_blocks'')
             (V ''peak_allocated_blocks exceeds configured KV capacity''),
           exact_quotient (g ''kv_peak_utilization'') (j ''peak_allocated_blocks'') (cfg_total_blocks cfg)
             ''kv_peak_utilization'' ctx])])"

definition CURRENT_GAUGES :: "(string \<times> string) list" where
  "CURRENT_GAUGES =
    [(''current_allocated_blocks'', ''kv_allocated''), (''current_free_blocks'', ''kv_free''),
     (''kv_current_utilization'', ''kv_utilization''),
     (''represented_kv_tokens'', ''represented_kv_tokens''),
     (''internal_fragmentation_tokens'', ''internal_fragmentation_tokens''),
     (''cached_blocks'', ''cached_blocks''), (''shared_referenced_blocks'', ''shared_referenced_blocks'')]"

definition current_gauge :: "json option \<Rightarrow> json list \<Rightarrow> json \<Rightarrow> string \<Rightarrow> string \<Rightarrow> json" where
  "current_gauge config iterations summary summary_name iteration_name =
     (if iterations \<noteq> [] then jget (last iterations) iteration_name
      else case config of
        Some cfg \<Rightarrow> if summary_name = ''current_free_blocks'' then JInt (cfg_total_blocks cfg) else JInt 0
      | None \<Rightarrow> if summary_name = ''current_free_blocks'' then jget summary summary_name else JInt 0)"

definition check_continuous_gauges :: "string \<Rightarrow> json option \<Rightarrow> json list \<Rightarrow> json \<Rightarrow> check" where
  "check_continuous_gauges ctx config iterations summary =
     (let V = (\<lambda>m. ValidationError (ctx @ '': '' @ m)); g = jget summary; j = jint summary in first_error
      [first_error (map (\<lambda>(summary_name, iteration_name).
         conserved (g summary_name) (current_gauge config iterations summary summary_name iteration_name)
           summary_name ctx) CURRENT_GAUGES),
       (case config of None \<Rightarrow> None
        | Some cfg \<Rightarrow> first_error
          [conserved_int (j ''current_allocated_blocks'' + j ''current_free_blocks'') (cfg_total_blocks cfg)
             ''summary configured KV block capacity'' ctx,
           exact_quotient (g ''kv_current_utilization'') (j ''current_allocated_blocks'')
             (cfg_total_blocks cfg) ''kv_current_utilization'' ctx,
           conserved (g ''internal_fragmentation_tokens'')
             (JInt (j ''current_allocated_blocks'' * cfg_block_size cfg - j ''represented_kv_tokens''))
             ''summary internal_fragmentation_tokens'' ctx]),
       reject (j ''current_allocated_blocks'' < j ''cached_blocks'' \<or>
               j ''current_allocated_blocks'' < j ''shared_referenced_blocks'')
         (V ''cached/shared block gauges exceed current allocated blocks'')])"

text \<open>\<open>_conserved(xs[0], expected, ...)\<close>\<close>

definition conserved_head :: "int list \<Rightarrow> json \<Rightarrow> string \<Rightarrow> string \<Rightarrow> check" where
  "conserved_head xs expected name ctx = (case xs of
     [] \<Rightarrow> Some IndexError | x # _ \<Rightarrow> conserved (JInt x) expected name ctx)"

definition check_appearances :: "string \<Rightarrow> tables \<Rightarrow> json \<Rightarrow> check" where
  "check_appearances ctx t request =
     (let native_id = r_native_id request; who = ''request '' @ str_int native_id;
          expected_prefill = (if jget request ''admitted_time_us'' \<noteq> JNull then 1 else 0 :: int)
      in first_error
      [conserved (JInt (decode_appearances t native_id)) (jget request ''generated_tokens'')
         (who @ '' decode appearances'') ctx,
       conserved (jints (decode_iteration_times t native_id)) (jget request ''decode_token_times_us'')
         (who @ '' decode completion timestamps'') ctx,
       conserved_int (prefill_appearances t native_id) expected_prefill
         (who @ '' prefill appearances'') ctx,
       (if expected_prefill = 0 then None
        else first_error
          [conserved_head (prefill_iteration_times t native_id) (jget request ''admitted_time_us'')
             (who @ '' prefill admission timestamp'') ctx,
           (if in_state ''Finished'' request \<and> r_generated request = 0
            then conserved_head (prefill_iteration_end_times t native_id) (jget request ''finish_time_us'')
                   (who @ '' zero-output finish timestamp'') ctx
            else None)])])"

definition check_summary :: "string \<Rightarrow> json option \<Rightarrow> json list \<Rightarrow> json list \<Rightarrow> tables \<Rightarrow> json \<Rightarrow> check" where
  "check_summary ctx config requests iterations t summary = first_error
     [check_summary_shape ctx config summary,
      check_summary_counts ctx requests iterations summary,
      (if jget summary ''execution_mode'' = JStr ''single_active_fcfs''
       then check_summary_fcfs ctx requests iterations summary
       else first_error
         [check_continuous_sums ctx iterations summary,
          check_continuous_peaks ctx config iterations summary,
          check_continuous_gauges ctx config iterations summary,
          first_error (map (check_appearances ctx t) requests)])]"

section \<open>The workload envelope\<close>

definition w_id :: "json \<Rightarrow> string" where "w_id w = str_of (jget w ''request_id'')"
definition w_arrival :: "json \<Rightarrow> int" where "w_arrival w = int_of (jget w ''arrival_time_us'')"

definition native_order :: "json list \<Rightarrow> json list" where
  "native_order workload = sort_key (\<lambda>item. (w_arrival item, w_id item)) workload"

definition expected_native :: "json list \<Rightarrow> (string \<times> int) list" where
  "expected_native workload = map (\<lambda>(index, item). (w_id item, int index)) (enumerate1 (native_order workload))"

definition check_envelope_record :: "json list \<Rightarrow> json \<Rightarrow> check" where
  "check_envelope_record workload result =
     (let rid = r_request_id result; ctx = ''workload envelope for request '' @ rid in
      case map_of (map (\<lambda>w. (w_id w, w)) workload) rid of
        None \<Rightarrow> Some (KeyError rid)
      | Some source \<Rightarrow> first_error (map (\<lambda>(name, expected). conserved (jget result name) expected name ctx)
          [(''internal_id'', jopt JInt (map_of (expected_native workload) rid)),
           (''workload_class'', jget source ''workload_class''),
           (''prefix_group'', jget source ''prefix_group''),
           (''deadline_us'', jget source ''deadline_us''),
           (''metadata'', jget_default source ''metadata'' (JObj [])),
           (''prompt_tokens'', jget source ''prompt_tokens''),
           (''arrival_time_us'', jget source ''arrival_time_us''),
           (''prompt_tokens_original'', jget source ''prompt_token_count''),
           (''max_new_tokens'', jget source ''max_new_tokens'')]))"

definition check_envelope :: "json \<Rightarrow> json list \<Rightarrow> check" where
  "check_envelope workload_records requests =
     (let workload = list_of workload_records in first_error
      [reject (\<not> is_JList workload_records) (ValidationError ''workload envelope must be an array''),
       reject (\<not> distinct (map w_id workload))
         (ValidationError ''workload envelope contains duplicate external request IDs''),
       reject (set (map w_id workload) \<noteq> set (map r_request_id requests))
         (ValidationError ''workload envelope: workload/result external ID set conservation mismatch''),
       first_error (map (check_envelope_record workload) requests)])"

section \<open>validate\_native\_records\<close>

definition NATIVE_TYPES :: "string list" where
  "NATIVE_TYPES = [''request'', ''iteration'', ''summary'']"

definition check_native_record :: "nat \<times> json \<Rightarrow> check" where
  "check_native_record lr = (case lr of (line, record) \<Rightarrow>
     let place = ''result line '' @ str_nat line in first_error
      [reject (\<not> is_JObj record) (ValidationError (place @ '': record must be an object'')),
       require_member (jget record ''record_type'') NATIVE_TYPES
         (ValidationError (place @ '': unknown native record_type'')),
       reject (jget record ''schema_version'' \<noteq> JStr SIMULATOR_SCHEMA_VERSION)
         (ValidationError (place @ '': incompatible simulator schema'')),
       reject (jget record ''evidence_type'' \<noteq> JStr ''SIMULATED'')
         (ValidationError (place @ '': evidence_type must be SIMULATED''))])"

definition of_type :: "string \<Rightarrow> (nat \<times> json) list \<Rightarrow> (nat \<times> json) list" where
  "of_type ty items = filter (\<lambda>(line, r). jget r ''record_type'' = JStr ty) items"

definition validate_native_records ::
    "repo \<Rightarrow> json option \<Rightarrow> json option \<Rightarrow> json \<Rightarrow> (json list \<times> json list \<times> json) res" where
  "validate_native_records fs config workload_records records =
     (let indexed = enumerate1 (list_of records);
          request_items = of_type ''request'' indexed; iteration_items = of_type ''iteration'' indexed;
          summary_items = of_type ''summary'' indexed;
          requests = map snd request_items; iterations = map snd iteration_items;
          (summary_line, summary) = hd (summary_items @ [(0, JNull)]);
          native_ids = map r_native_id requests
      in checked (first_error
          [reject (\<not> is_JList records) (ValidationError ''native result must be an array of records''),
           (case config of None \<Rightarrow> None | Some cfg \<Rightarrow> check_serving_config fs cfg),
           first_error (map check_native_record indexed),
           reject (length summary_items \<noteq> 1)
             (ValidationError ''native result must contain exactly one summary record''),
           reject (jget (snd (last indexed)) ''record_type'' \<noteq> JStr ''summary'')
             (ValidationError ''summary record must be terminal''),
           check_requests request_items [] []])
        (rbind (check_iterations config native_ids iteration_items 0 0 empty_tables) (\<lambda>t.
          checked (first_error
            [check_summary (''summary record at result line '' @ str_nat summary_line) config
               requests iterations t summary,
             (case workload_records of None \<Rightarrow> None | Some w \<Rightarrow> check_envelope w requests)])
            (Inr (requests, iterations, summary)))))"

end
