(* ===== verification/Native_Stream.thy ===== *)
theory Native_Stream
  imports Request_Lifecycle Native_Summary
begin

text \<open>
  What an accepted native result stream promises: the requests are traces of distinct lives, the
  iterations partition the emitted tokens among them, blocks and tokens are conserved between the
  three kinds of records, and the summary is determined by the other two.
\<close>

section \<open>The parts of an accepted stream\<close>

lemma check_request_ids:
  assumes "check_request ext known line r = None"
  shows "r_request_id r \<notin> set ext" "r_native_id r \<notin> set known"
    "r_request_id r \<noteq> []" "0 \<le> r_native_id r"
  using assms
  by (auto simp: check_request_def check_request_identity_def Let_def r_defs nonempty_str_def)

lemma check_requests_ids:
  "check_requests items ext known = None \<Longrightarrow>
     distinct (map (r_request_id \<circ> snd) items) \<and> distinct (map (r_native_id \<circ> snd) items) \<and>
     set (map (r_request_id \<circ> snd) items) \<inter> set ext = {} \<and>
     set (map (r_native_id \<circ> snd) items) \<inter> set known = {}"
proof (induction items ext known rule: check_requests.induct)
  case (2 line r rest ext known)
  then have ok: "check_request ext known line r = None" by (simp split: option.splits)
  with 2 check_request_ids [OF ok] show ?case by (auto split: option.splits)
qed simp

lemma check_requests_each:
  "check_requests items ext known = None \<Longrightarrow> (line, r) \<in> set items \<Longrightarrow>
     \<exists>ext' known'. check_request ext' known' line r = None"
  by (induction items ext known rule: check_requests.induct) (auto split: option.splits)

lemma check_requests_wf:
  "check_requests items ext known = None \<Longrightarrow> r \<in> set (map snd items) \<Longrightarrow> request_wf r"
  by (auto dest!: check_requests_each intro: accepted_request_wf)

definition requests_of :: "json \<Rightarrow> json list" where
  "requests_of records = map snd (of_type ''request'' (enumerate1 (list_of records)))"
definition iterations_of :: "json \<Rightarrow> json list" where
  "iterations_of records = map snd (of_type ''iteration'' (enumerate1 (list_of records)))"

lemma of_type_filter:
  "map snd (of_type ty items) = filter (\<lambda>r. jget r ''record_type'' = JStr ty) (map snd items)"
  by (induction items) (auto simp: of_type_def)

lemma requests_of_filter:
  "requests_of records = filter (\<lambda>r. jget r ''record_type'' = JStr ''request'') (list_of records)"
  by (simp add: requests_of_def of_type_filter)

lemma iterations_of_filter:
  "iterations_of records = filter (\<lambda>r. jget r ''record_type'' = JStr ''iteration'') (list_of records)"
  by (simp add: iterations_of_def of_type_filter)

lemma accepted_stream:
  assumes "validate_native_records fs config workload records = Inr (reqs, its, sm)"
  obtains t ctx items where
    "reqs = requests_of records" "its = iterations_of records" "sm \<in> set (list_of records)"
    "check_requests (of_type ''request'' (enumerate1 (list_of records))) [] [] = None"
    "map snd items = its"
    "check_iterations config (map r_native_id reqs) items 0 0 empty_tables = Inr t"
    "check_summary ctx config reqs its t sm = None"
    "\<And>cfg. config = Some cfg \<Longrightarrow> check_serving_config fs cfg = None"
    "\<And>w. workload = Some w \<Longrightarrow> check_envelope w reqs = None"
proof -
  let ?items = "enumerate1 (list_of records)"
  let ?sums = "of_type ''summary'' ?items"
  obtain n s where h: "hd (?sums @ [(0, JNull)]) = (n, s)" by fastforce
  from assms have one: "length ?sums = 1"
    by (auto simp: validate_native_records_def Let_def split: prod.splits)
  with h have s: "(n, s) \<in> set ?sums" by (cases ?sums) auto
  have "s \<in> set (map snd ?sums)" using s by force
  then have "s \<in> set (list_of records)" by (simp add: of_type_filter)
  moreover have "sm = s" using assms h
    by (auto simp: validate_native_records_def Let_def split: prod.splits)
  ultimately have sm: "sm \<in> set (list_of records)" by simp
  have parts: "reqs = requests_of records \<and> its = iterations_of records \<and>
      check_requests (of_type ''request'' ?items) [] [] = None \<and>
      (case config of None \<Rightarrow> None | Some cfg \<Rightarrow> check_serving_config fs cfg) = None \<and>
      (case workload of None \<Rightarrow> None | Some w \<Rightarrow> check_envelope w reqs) = None \<and>
      (\<exists>t. check_iterations config (map r_native_id reqs) (of_type ''iteration'' ?items) 0 0 empty_tables
             = Inr t \<and>
           check_summary (''summary record at result line '' @ str_nat n) config reqs its t sm = None)"
    using assms h
    by (clarsimp simp: validate_native_records_def Let_def requests_of_def iterations_of_def)
  then obtain t where
    i: "check_iterations config (map r_native_id reqs) (of_type ''iteration'' ?items) 0 0 empty_tables = Inr t"
    and s: "check_summary (''summary record at result line '' @ str_nat n) config reqs its t sm = None"
    by blast
  have "map snd (of_type ''iteration'' ?items) = its"
    using parts by (simp add: iterations_of_def)
  moreover have "check_serving_config fs cfg = None" if "config = Some cfg" for cfg
    using parts that by auto
  moreover have "check_envelope w reqs = None" if "workload = Some w" for w
    using parts that by auto
  ultimately show thesis using that parts sm i s by blast
qed

lemma accepted_stream_requests:
  assumes "validate_native_records fs config workload records = Inr (reqs, its, sm)"
  shows "distinct (map r_request_id reqs)" "distinct (map r_native_id reqs)"
    "r \<in> set reqs \<Longrightarrow> request_wf r"
proof -
  from assms obtain items where items: "items = of_type ''request'' (enumerate1 (list_of records))"
    and reqs: "reqs = map snd items" and c: "check_requests items [] [] = None"
    by (rule accepted_stream) (auto simp: requests_of_def)
  from check_requests_ids [OF c] show "distinct (map r_request_id reqs)" "distinct (map r_native_id reqs)"
    by (simp_all add: reqs comp_def)
  from check_requests_wf [OF c] show "r \<in> set reqs \<Longrightarrow> request_wf r" by (simp add: reqs)
qed

lemma accepted_stream_iterations:
  assumes "validate_native_records fs config workload records = Inr (reqs, its, sm)"
  shows "ordered_iterations 0 0 its" "r \<in> set its \<Longrightarrow> batch_wf (map r_native_id reqs) r"
    "config = Some cfg \<Longrightarrow> r \<in> set its \<Longrightarrow> blocks_wf cfg r"
proof -
  from assms obtain items t where "map snd items = its"
    and "check_iterations config (map r_native_id reqs) items 0 0 empty_tables = Inr t"
    by (rule accepted_stream)
  with accepted_iterations show "ordered_iterations 0 0 its"
    "r \<in> set its \<Longrightarrow> batch_wf (map r_native_id reqs) r"
    "config = Some cfg \<Longrightarrow> r \<in> set its \<Longrightarrow> blocks_wf cfg r" by blast+
qed

section \<open>Conservation between requests and summary\<close>

lemma summary_ints_JInt:
  "check_summary_shape ctx config sm = None \<Longrightarrow> name \<in> set SUMMARY_INTS \<Longrightarrow>
     is_JInt (jget sm name) \<and> 0 \<le> jint sm name"
  by (auto simp: check_summary_shape_def Let_def jint_def)

definition unfinished_requests :: "json list \<Rightarrow> int" where
  "unfinished_requests reqs =
     count_if (\<lambda>r. \<not> in_state ''Finished'' r \<and> \<not> in_state ''Cancelled'' r) reqs"

lemma state_partition:
  "int (length reqs) = count_if (in_state ''Finished'') reqs + count_if (in_state ''Cancelled'') reqs
     + unfinished_requests reqs"
  by (induction reqs) (auto simp: count_if_def unfinished_requests_def in_state_def)

definition summary_counts_requests :: "json list \<Rightarrow> json \<Rightarrow> bool" where
  "summary_counts_requests reqs sm \<longleftrightarrow>
     jint sm ''submitted'' = int (length reqs) \<and>
     jint sm ''completed'' = count_if (in_state ''Finished'') reqs \<and>
     jint sm ''cancelled'' = count_if (in_state ''Cancelled'') reqs \<and>
     jint sm ''rejected'' = 0 \<and>
     jint sm ''submitted_prompt_tokens'' = total_of r_original reqs \<and>
     jint sm ''scheduled_prefill_tokens'' = total_of r_scheduled reqs \<and>
     jint sm ''generated_tokens'' = total_of r_generated reqs \<and>
     jint sm ''scheduled_decode_tokens'' = total_of r_generated reqs \<and>
     jint sm ''matched_prefix_tokens'' = total_of r_matched reqs \<and>
     jint sm ''saved_simulated_prefill_tokens'' = total_of r_matched reqs \<and>
     (jget sm ''run_status'' = JStr ''completed'' \<longrightarrow> unfinished_requests reqs = 0 \<and> jint sm ''stalled'' = 0) \<and>
     (jget sm ''run_status'' = JStr ''stalled'' \<longrightarrow> unfinished_requests reqs \<noteq> 0 \<and> jint sm ''stalled'' \<noteq> 0)"

lemma accepted_summary_counts:
  assumes "check_summary ctx config reqs its t sm = None"
  shows "summary_counts_requests reqs sm"
    and "jint sm ''makespan_us'' = max_default 0 (finish_times reqs @ map i_end its @ [0])"
    and "jint sm ''prefix_lookups'' = jint sm ''prefix_lookup_hits'' + jint sm ''prefix_lookup_misses''"
proof -
  from assms have shape: "check_summary_shape ctx config sm = None"
    and counts: "check_summary_counts ctx reqs its sm = None"
    by (auto simp: check_summary_def)
  have J: "is_JInt (jget sm name)" if "name \<in> set SUMMARY_INTS" for name
    using summary_ints_JInt [OF shape that] by simp
  have conv: "conserved (jget sm name) (JInt i) n ctx = None \<longleftrightarrow> jint sm name = i"
    if "name \<in> set SUMMARY_INTS" for name i n
    using J [OF that] by (rule conserved_jint)
  show "summary_counts_requests reqs sm"
    "jint sm ''makespan_us'' = max_default 0 (finish_times reqs @ map i_end its @ [0])"
    "jint sm ''prefix_lookups'' = jint sm ''prefix_lookup_hits'' + jint sm ''prefix_lookup_misses''"
    using counts state_partition [of reqs]
    by (auto simp: check_summary_counts_def Let_def conv SUMMARY_INTS_def summary_counts_requests_def
        simp del: append_assoc)
qed

section \<open>Continuous batching: iterations against requests\<close>

lemma jopt_opt_int: "v = JNull \<or> is_JInt v \<Longrightarrow> v = jopt JInt (opt_int v)"
  by (auto elim: is_JIntE)

lemma jints_ints_of: "is_JList v \<Longrightarrow> list_all nonneg_int (list_of v) \<Longrightarrow> v = jints (ints_of v)"
  using nonneg_int_jints [of "list_of v"] by (auto simp: jints_def ints_of_def elim: is_JListE)

text \<open>The JSON values behind the readers of an accepted request record.\<close>

lemma accepted_request_values:
  assumes "check_request ext known line r = None"
  shows "jget r ''generated_tokens'' = JInt (r_generated r)"
    "jget r ''decode_token_times_us'' = jints (r_times r)"
    "jget r ''admitted_time_us'' = jopt JInt (r_admitted r)"
    "jget r ''finish_time_us'' = jopt JInt (r_finish r)"
proof -
  from assms obtain ctx where a: "check_request_accounting ctx r = None"
    and t: "check_request_timing ctx r = None"
    by (auto simp: check_request_def Let_def)
  show "jget r ''generated_tokens'' = JInt (r_generated r)"
    using a by (auto simp: check_request_accounting_def Let_def r_generated_def intro: is_JInt_int_of)
  show "jget r ''decode_token_times_us'' = jints (r_times r)"
    using t jints_ints_of by (auto simp: check_request_timing_def Let_def r_times_def)
  show "jget r ''admitted_time_us'' = jopt JInt (r_admitted r)"
    "jget r ''finish_time_us'' = jopt JInt (r_finish r)"
    using a jopt_opt_int
    by (auto simp: check_request_accounting_def Let_def r_admitted_def r_finish_def)
qed

definition continuous :: "json \<Rightarrow> bool" where
  "continuous sm \<longleftrightarrow> jget sm ''execution_mode'' = JStr ''continuous_batching''"

lemma accepted_mode:
  assumes "check_summary ctx config reqs its t sm = None"
  shows "continuous sm \<or> (jget sm ''execution_mode'' = JStr ''single_active_fcfs'' \<and> its = [])"
  using assms
  by (auto simp: check_summary_def check_summary_shape_def check_summary_fcfs_def Let_def
      continuous_def EXECUTION_MODES_def split: if_splits)

lemma accepted_continuous:
  assumes "check_summary ctx config reqs its t sm = None" "continuous sm"
  shows "check_continuous_sums ctx its sm = None" "check_continuous_peaks ctx config its sm = None"
    "check_continuous_gauges ctx config its sm = None"
    "r \<in> set reqs \<Longrightarrow> check_appearances ctx t r = None"
  using assms by (auto simp: check_summary_def continuous_def)

lemma continuous_ints_JInt:
  assumes "check_summary ctx config reqs its t sm = None" "continuous sm"
    and "name \<in> set (SUMMARY_INTS @ SUMMARY_NULLABLE_INTS)"
  shows "is_JInt (jget sm name) \<and> 0 \<le> jint sm name"
proof -
  have "check_summary_shape ctx config sm = None"
    using assms(1) by (auto simp: check_summary_def)
  moreover have "\<forall>name \<in> set SUMMARY_NULLABLE_INTS. jget sm name \<noteq> JNull"
    using accepted_continuous(1) [OF assms(1,2)] by (simp add: check_continuous_sums_def Let_def)
  ultimately show ?thesis
    using assms(3) by (auto simp: check_summary_shape_def Let_def jint_def)
qed

text \<open>What the request's own record and the iterations it appears in say about it agree.\<close>

definition scheduled_as_recorded :: "json list \<Rightarrow> json \<Rightarrow> bool" where
  "scheduled_as_recorded its r \<longleftrightarrow>
     (let i = r_native_id r in
      r_times r = map i_end (decoded_in i its) \<and>
      (case r_admitted r of
         None \<Rightarrow> prefilled_in i its = []
       | Some a \<Rightarrow> \<exists>it. prefilled_in i its = [it] \<and> i_start it = a \<and>
           (in_state ''Finished'' r \<and> r_generated r = 0 \<longrightarrow> r_finish r = Some (i_end it))))"

lemma finished_has_finish: "request_wf r \<Longrightarrow> in_state ''Finished'' r \<Longrightarrow> \<exists>n. r_finish r = Some n"
  by (auto simp: request_wf_def in_state_def)

lemma check_appearances_scheduled:
  assumes ok: "check_appearances ctx t r = None" and req: "check_request ext known line r = None"
    and tabs: "check_iterations config native items 0 0 empty_tables = Inr t" and its: "map snd items = its"
  shows "scheduled_as_recorded its r"
proof -
  note tab = accepted_tables [OF tabs, unfolded its]
  note val = accepted_request_values [OF req]
  have fin: "in_state ''Finished'' r \<Longrightarrow> \<exists>n. r_finish r = Some n"
    using finished_has_finish [OF accepted_request_wf [OF req]] .
  have dec: "r_times r = map i_end (decoded_in (r_native_id r) its)"
    using ok by (simp add: check_appearances_def Let_def val tab conserved_None)
  show ?thesis
  proof (cases "r_admitted r")
    case None
    with ok dec show ?thesis
      by (simp add: check_appearances_def Let_def val tab scheduled_as_recorded_def)
  next
    case (Some a)
    with ok have "length (prefilled_in (r_native_id r) its) = 1"
      by (simp add: check_appearances_def Let_def val tab)
    then obtain it where it: "prefilled_in (r_native_id r) its = [it]"
      by (cases "prefilled_in (r_native_id r) its") auto
    with ok Some dec fin show ?thesis
      by (cases "r_finish r")
        (auto simp: check_appearances_def Let_def val tab scheduled_as_recorded_def conserved_head_def)
  qed
qed

lemma accepted_stream_scheduled:
  assumes "validate_native_records fs config workload records = Inr (reqs, its, sm)"
    and "continuous sm" "r \<in> set reqs"
  shows "scheduled_as_recorded its r"
proof -
  from assms(1) obtain t ctx items where p: "reqs = requests_of records"
    "check_requests (of_type ''request'' (enumerate1 (list_of records))) [] [] = None"
    "map snd items = its"
    "check_iterations config (map r_native_id reqs) items 0 0 empty_tables = Inr t"
    "check_summary ctx config reqs its t sm = None"
    by (rule accepted_stream)
  from assms(3) obtain line where "(line, r) \<in> set (of_type ''request'' (enumerate1 (list_of records)))"
    by (auto simp: p(1) requests_of_def)
  with p(2) obtain ext known where "check_request ext known line r = None"
    using check_requests_each by blast
  with p(3,4) accepted_continuous(4) [OF p(5) assms(2,3)] show ?thesis
    by (blast intro: check_appearances_scheduled)
qed

section \<open>Continuous batching: summary against iterations\<close>

definition summary_sums_iterations :: "json list \<Rightarrow> json \<Rightarrow> bool" where
  "summary_sums_iterations its sm \<longleftrightarrow>
     jint sm ''scheduling_iterations'' = int (length its) \<and>
     jint sm ''scheduled_prefill_tokens'' = total_of (\<lambda>r. jint r ''scheduled_prefill_tokens'') its \<and>
     jint sm ''scheduled_decode_tokens'' = total_of (\<lambda>r. int (length (i_decode r))) its \<and>
     jint sm ''total_scheduled_sequences''
       = total_of (\<lambda>r. int (length (i_prefill r) + length (i_decode r))) its \<and>
     jint sm ''nonempty_batches'' + jint sm ''idle_iterations'' + jint sm ''stalled'' = int (length its) \<and>
     jint sm ''matched_prefix_tokens'' = total_of (\<lambda>r. jint r ''matched_tokens'') its \<and>
     jint sm ''deferred_requests'' = total_of (\<lambda>r. int (length (i_deferred r))) its \<and>
     jint sm ''eviction_count'' = total_of (\<lambda>r. int (length (i_evicted r))) its"

lemma total_of_cong: "(\<And>x. x \<in> set xs \<Longrightarrow> f x = g x) \<Longrightarrow> total_of f xs = total_of g xs"
  unfolding total_of_def by (metis map_cong)

lemma total_of_simps [simp]: "total_of f [] = 0" "total_of f (x # xs) = f x + total_of f xs"
  by (simp_all add: total_of_def)

lemma count_if_simps [simp]:
  "count_if P [] = 0" "count_if P (x # xs) = (if P x then 1 else 0) + count_if P xs"
  by (simp_all add: count_if_def)

text \<open>An iteration is busy, idle or stalled.\<close>

lemma iteration_kinds:
  "\<forall>r \<in> set its. batch_wf native r \<Longrightarrow>
     count_if (\<lambda>r. 0 < jint r ''scheduled_sequences'') its
       + count_if (\<lambda>r. jint r ''scheduled_sequences'' = 0 \<and> \<not> i_stall r) its + count_if i_stall its
     = int (length its)"
proof (induction its)
  case (Cons r its)
  then have "0 \<le> jint r ''scheduled_sequences''" "i_stall r \<longrightarrow> jint r ''scheduled_sequences'' = 0"
    by (auto simp: batch_wf_def ITERATION_INTS_def)
  with Cons show ?case by auto
qed simp

lemma accepted_sums:
  assumes sum: "check_summary ctx config reqs its t sm = None" and cont: "continuous sm"
    and wf: "\<forall>r \<in> set its. batch_wf native r"
  shows "summary_sums_iterations its sm"
    and "jint sm ''max_batch_size'' = max_default 0 (map (\<lambda>r. jint r ''scheduled_sequences'') its)"
proof -
  have conv: "conserved (jget sm name) (JInt i) n ctx = None \<longleftrightarrow> jint sm name = i"
    if "name \<in> set (SUMMARY_INTS @ SUMMARY_NULLABLE_INTS)" for name i n
    using continuous_ints_JInt [OF sum cont that] by (simp add: jint_def)
  note sums = accepted_continuous(1) [OF sum cont]
  have dec: "total_of (\<lambda>r. jint r ''scheduled_decode_tokens'') its = total_of (\<lambda>r. int (length (i_decode r))) its"
    and seq: "total_of (\<lambda>r. jint r ''scheduled_sequences'') its
       = total_of (\<lambda>r. int (length (i_prefill r) + length (i_decode r))) its"
    using wf by (auto intro!: total_of_cong simp: batch_wf_def)
  show "summary_sums_iterations its sm"
    "jint sm ''max_batch_size'' = max_default 0 (map (\<lambda>r. jint r ''scheduled_sequences'') its)"
    using sums iteration_kinds [OF wf] dec seq
    by (simp_all add: check_continuous_sums_def Let_def conv SUMMARY_INTS_def SUMMARY_NULLABLE_INTS_def
        summary_sums_iterations_def)
qed

text \<open>Summing over requests the iterations that decode them counts every decode slot once.\<close>

lemma sum_list_member:
  "distinct xs \<Longrightarrow> (\<Sum>x\<leftarrow>xs. of_bool (x \<in> A)) = int (card (A \<inter> set xs))"
proof (induction xs)
  case (Cons x xs)
  then show ?case by (cases "x \<in> A") (auto simp: Int_insert_right)
qed simp

lemma decode_slots:
  assumes "distinct (map r_native_id reqs)" "\<forall>r \<in> set its. batch_wf (map r_native_id reqs) r"
  shows "total_of (\<lambda>r. int (length (decoded_in (r_native_id r) its))) reqs
    = total_of (\<lambda>it. int (length (i_decode it))) its"
  using assms(2)
proof (induction its)
  case Nil
  then show ?case by (simp add: decoded_in_def total_of_def)
next
  case (Cons it its)
  let ?ids = "map r_native_id reqs"
  have it: "distinct (i_decode it)" "set (i_decode it) \<subseteq> set ?ids"
    using Cons.prems by (auto simp: batch_wf_def)
  have "total_of (\<lambda>r. int (length (decoded_in (r_native_id r) (it # its)))) reqs
      = total_of (\<lambda>r. of_bool (r_native_id r \<in> set (i_decode it))) reqs
        + total_of (\<lambda>r. int (length (decoded_in (r_native_id r) its))) reqs"
    by (simp add: decoded_in_def total_of_def flip: sum_list_addf) (rule arg_cong [where f = sum_list], auto)
  also have "total_of (\<lambda>r. of_bool (r_native_id r \<in> set (i_decode it))) reqs
      = (\<Sum>x\<leftarrow>?ids. of_bool (x \<in> set (i_decode it)))"
    by (simp add: total_of_def comp_def)
  also have "\<dots> = int (card (set (i_decode it) \<inter> set ?ids))"
    using assms(1) by (rule sum_list_member)
  also have "\<dots> = int (length (i_decode it))"
    using it by (simp add: Int_absorb2 distinct_card)
  finally show ?case using Cons by simp
qed

section \<open>Continuous batching: KV blocks\<close>

definition kv_within :: "json \<Rightarrow> json list \<Rightarrow> json \<Rightarrow> bool" where
  "kv_within cfg its sm \<longleftrightarrow>
     (\<forall>r \<in> set its. blocks_wf cfg r \<and> jint r ''kv_allocated'' \<le> jint sm ''peak_allocated_blocks'') \<and>
     jint sm ''peak_allocated_blocks'' \<le> cfg_total_blocks cfg \<and>
     jint sm ''current_allocated_blocks'' + jint sm ''current_free_blocks'' = cfg_total_blocks cfg \<and>
     jint sm ''current_allocated_blocks'' \<le> jint sm ''peak_allocated_blocks'' \<and>
     jint sm ''cached_blocks'' \<le> jint sm ''current_allocated_blocks'' \<and>
     jint sm ''shared_referenced_blocks'' \<le> jint sm ''current_allocated_blocks'' \<and>
     jint sm ''represented_kv_tokens'' + jint sm ''internal_fragmentation_tokens''
       = jint sm ''current_allocated_blocks'' * cfg_block_size cfg"

lemma fold_max_ge: "y \<le> fold max xs (y :: 'a :: linorder)" "x \<in> set xs \<Longrightarrow> x \<le> fold max xs y"
proof (induction xs arbitrary: y)
  case (Cons z xs)
  { case 1 show ?case using Cons(1) [of "max z y"] by simp }
  { case 2 then show ?case using Cons(1) [of "max z y"] Cons(2) [of "max z y"] by auto }
qed auto

lemma max_default_ge: "x \<in> set xs \<Longrightarrow> x \<le> max_default d xs"
  by (cases xs) (auto simp: max_default_def fold_max_ge)

lemma gauge_value:
  assumes "check_continuous_gauges ctx config its sm = None" "(name, field) \<in> set CURRENT_GAUGES"
    and "is_JInt (jget sm name)"
  shows "its \<noteq> [] \<Longrightarrow> is_JInt (jget (last its) field) \<Longrightarrow> jint sm name = jint (last its) field"
    and "its = [] \<Longrightarrow> name \<noteq> ''current_free_blocks'' \<Longrightarrow> jint sm name = 0"
proof -
  from assms have "conserved (jget sm name) (current_gauge config its sm name field) name ctx = None"
    by (auto simp: check_continuous_gauges_def Let_def)
  with assms(3) show "its \<noteq> [] \<Longrightarrow> is_JInt (jget (last its) field) \<Longrightarrow> jint sm name = jint (last its) field"
    "its = [] \<Longrightarrow> name \<noteq> ''current_free_blocks'' \<Longrightarrow> jint sm name = 0"
    by (auto simp: current_gauge_def jint_def conserved_None elim!: is_JIntE split: option.splits)
qed

lemma accepted_kv:
  assumes sum: "check_summary ctx (Some cfg) reqs its t sm = None" and cont: "continuous sm"
    and wf: "\<forall>r \<in> set its. batch_wf native r" and blocks: "\<forall>r \<in> set its. blocks_wf cfg r"
  shows "kv_within cfg its sm"
proof -
  note parts = accepted_continuous [OF sum cont]
  have J: "is_JInt (jget sm name)" "0 \<le> jint sm name" if "name \<in> set (SUMMARY_INTS @ SUMMARY_NULLABLE_INTS)" for name
    using continuous_ints_JInt [OF sum cont that] by blast+
  have peak: "jint r ''kv_allocated'' \<le> jint sm ''peak_allocated_blocks''" if "r \<in> set its" for r
  proof -
    have "jint r ''kv_allocated'' \<le> max_default 0 (map (\<lambda>r. jint r ''kv_allocated'') its)"
      using that by (intro max_default_ge) simp
    also have "\<dots> \<le> jint sm ''peak_allocated_blocks''"
      using parts(2) by (simp add: check_continuous_peaks_def Let_def)
    finally show ?thesis .
  qed
  have cur: "jint sm ''current_allocated_blocks'' \<le> jint sm ''peak_allocated_blocks''"
  proof (cases "its = []")
    case True
    with gauge_value(2) [OF parts(3), of "''current_allocated_blocks''" "''kv_allocated''"] J
    show ?thesis by (simp add: CURRENT_GAUGES_def SUMMARY_NULLABLE_INTS_def)
  next
    case False
    with wf have "is_JInt (jget (last its) ''kv_allocated'')"
      by (auto simp: batch_wf_def ITERATION_INTS_def)
    with False gauge_value(1) [OF parts(3), of "''current_allocated_blocks''" "''kv_allocated''"] J
    have "jint sm ''current_allocated_blocks'' = jint (last its) ''kv_allocated''"
      by (simp add: CURRENT_GAUGES_def SUMMARY_NULLABLE_INTS_def)
    with False peak show ?thesis by simp
  qed
  have frag: "is_JInt (jget sm ''internal_fragmentation_tokens'')"
    using J by (simp add: SUMMARY_NULLABLE_INTS_def)
  have "jint sm ''current_allocated_blocks'' + jint sm ''current_free_blocks'' = cfg_total_blocks cfg"
    "jint sm ''internal_fragmentation_tokens''
      = jint sm ''current_allocated_blocks'' * cfg_block_size cfg - jint sm ''represented_kv_tokens''"
    "jint sm ''cached_blocks'' \<le> jint sm ''current_allocated_blocks''"
    "jint sm ''shared_referenced_blocks'' \<le> jint sm ''current_allocated_blocks''"
    using parts(3) conserved_jint [OF frag] by (simp_all add: check_continuous_gauges_def Let_def)
  moreover have "jint sm ''peak_allocated_blocks'' \<le> cfg_total_blocks cfg"
    using parts(2) by (simp add: check_continuous_peaks_def Let_def)
  ultimately show ?thesis using peak cur blocks by (auto simp: kv_within_def)
qed

section \<open>Prefill before decode, up to a shared boundary\<close>

lemma ordered_iterations_append:
  "ordered_iterations n t (xs @ r # ys) \<Longrightarrow> ordered_iterations (i_number r) (i_end r) ys \<and> t \<le> i_start r
     \<and> (\<forall>x \<in> set xs. i_end x \<le> i_start r)"
proof (induction xs arbitrary: n t)
  case (Cons x xs)
  then have "ordered_iterations (i_number x) (i_end x) (xs @ r # ys)" "t \<le> i_start x" "i_start x \<le> i_end x" by auto
  with Cons.IH [of "i_number x" "i_end x"] show ?case by auto
qed simp

text \<open>
  A request emits no token before its admission, so an iteration that decodes it ends no earlier
  than its prefill iteration starts; being listed before it, it must end exactly there.
\<close>

lemma decode_before_prefill_boundary:
  assumes acc: "validate_native_records fs config workload records = Inr (reqs, its, sm)"
    and cont: "continuous sm" and r: "r \<in> set reqs"
    and its: "its = xs @ dec # ys @ pre # zs"
    and d: "r_native_id r \<in> set (i_decode dec)" and p: "r_native_id r \<in> set (i_prefill pre)"
  shows "i_end dec = i_start pre"
proof -
  have wf: "request_wf r" using accepted_stream_requests(3) [OF acc r] .
  have sch: "scheduled_as_recorded its r" by (rule accepted_stream_scheduled [OF acc cont r])
  have "pre \<in> set (prefilled_in (r_native_id r) its)" "dec \<in> set (decoded_in (r_native_id r) its)"
    using d p by (simp_all add: its prefilled_in_def decoded_in_def)
  with sch obtain a where a: "r_admitted r = Some a" "i_start pre = a" and t: "i_end dec \<in> set (r_times r)"
    by (auto simp: scheduled_as_recorded_def Let_def split: option.splits)
  from wf t obtain f where "r_first r = Some f" "f \<le> i_end dec"
    by (cases "r_times r") (auto simp: request_wf_def opt_hd_def)
  with wf a have "i_start pre \<le> i_end dec" by (auto simp: request_wf_def)
  moreover have "ordered_iterations 0 0 its" by (rule accepted_stream_iterations(1) [OF acc])
  then have "i_end dec \<le> i_start pre"
    using ordered_iterations_append [of 0 0 "xs @ dec # ys" pre zs] by (simp add: its)
  ultimately show ?thesis by simp
qed

end
