(* ===== verification/Native_Results.thy ===== *)
theory Native_Results
  imports Native_Stream
begin

text \<open>
  The properties of \<open>validate_native_records\<close>, each with an instance: a concrete stream of one
  request, its iterations and its summary that the function accepts, and a stream it accepts although
  the request is decoded before it is prefilled.
\<close>

section \<open>Concrete streams\<close>

lemma jget_zip:
  "distinct ks \<Longrightarrow> length vs = length ks \<Longrightarrow> list_all2 (\<lambda>k v. jget (JObj (zip ks vs)) k = v) ks vs"
  by (simp add: list_all2_conv_all_nth jget_JObj map_of_zip_nth)

lemma jkeys_zip: "length vs = length ks \<Longrightarrow> jkeys (JObj (zip ks vs)) = ks"
  by (simp add: jkeys_def)

definition iteration_values :: "int \<Rightarrow> int \<Rightarrow> int \<Rightarrow> int list \<Rightarrow> int list \<Rightarrow> int \<Rightarrow> json list" where
  "iteration_values n start fin prefill decode prefill_tokens =
    [JStr ''iteration'', JStr SIMULATOR_SCHEMA_VERSION, JStr ''SIMULATED'', JInt n, JInt start, JInt fin,
     JStr ''DecodeFirst'', jints prefill, jints decode, JList [],
     JInt (int (length prefill + length decode)), JInt prefill_tokens, JInt (int (length decode)),
     JInt (prefill_tokens + int (length decode)), JInt 2, JInt 6, JFloat (Fin (1 / 4)), JInt 5, JInt 3,
     JInt 0, JInt 0, JInt 0, JInt 0, JInt 0, JList [], JBool False]"

definition sample_iteration :: "int \<Rightarrow> int \<Rightarrow> int \<Rightarrow> int list \<Rightarrow> int list \<Rightarrow> int \<Rightarrow> json" where
  "sample_iteration n start fin prefill decode prefill_tokens =
     JObj (zip ITERATION_RECORD_FIELDS (iteration_values n start fin prefill decode prefill_tokens))"

definition summary_values :: "int \<Rightarrow> int \<Rightarrow> int \<Rightarrow> json list" where
  "summary_values makespan generated iterations =
    [JStr ''summary'', JStr SIMULATOR_SCHEMA_VERSION, JStr ''SIMULATED'', JStr ''continuous_batching'',
     JStr ''DecodeFirst'', JStr ''completed'', JInt 1, JInt 1, JInt 0, JInt 0, JInt 0, JInt makespan,
     JInt iterations, JInt iterations, JInt 0, JInt iterations, JFloat (Fin 1), JInt 1, JInt 4, JInt 0,
     JInt 2, JInt 6, JInt 2, JFloat (Fin (1 / 4)), JFloat (Fin (1 / 4)), JInt 5, JInt 3, JInt 0, JInt 0,
     JInt 0, JInt 0, JInt 0, JInt 0, JInt 0, JInt 0, JInt 0, JInt 0, JInt 0, JNull, JInt 0, JInt 0,
     JInt 4, JInt 4, JInt generated, JInt generated]"

definition sample_summary :: "int \<Rightarrow> int \<Rightarrow> int \<Rightarrow> json" where
  "sample_summary makespan generated iterations =
     JObj (zip SUMMARY_RECORD_FIELDS (summary_values makespan generated iterations))"

lemma distinct_fields: "distinct ITERATION_RECORD_FIELDS" "distinct SUMMARY_RECORD_FIELDS"
  by code_simp+

lemma length_values:
  "length (iteration_values n s e p d k) = length ITERATION_RECORD_FIELDS"
  "length (summary_values m g j) = length SUMMARY_RECORD_FIELDS"
  by (simp_all add: iteration_values_def summary_values_def ITERATION_RECORD_FIELDS_def
      SUMMARY_RECORD_FIELDS_def)

lemma jkeys_samples [simp]:
  "jkeys (sample_iteration n s e p d k) = ITERATION_RECORD_FIELDS"
  "jkeys (sample_summary m g j) = SUMMARY_RECORD_FIELDS"
  by (simp_all add: sample_iteration_def sample_summary_def jkeys_zip length_values)

lemma sample_fields:
  "list_all2 (\<lambda>f v. jget (sample_iteration n s e p d k) f = v) ITERATION_RECORD_FIELDS (iteration_values n s e p d k)"
  "list_all2 (\<lambda>f v. jget (sample_summary m g j) f = v) SUMMARY_RECORD_FIELDS (summary_values m g j)"
  unfolding sample_iteration_def sample_summary_def
  by (intro jget_zip distinct_fields length_values)+

lemmas iteration_fields = sample_fields(1) [unfolded ITERATION_RECORD_FIELDS_def iteration_values_def list_all2_Cons]
lemmas summary_fields = sample_fields(2) [unfolded SUMMARY_RECORD_FIELDS_def summary_values_def list_all2_Cons]

lemmas sample_eval = is_number_def num_of_def in_unit_interval_def nonneg_int_def ints_of_def
  exact_quotient_None BATCH_POLICIES_def EXECUTION_MODES_def has_exactly_iff i_defs

lemma sample_config_values [simp]:
  "cfg_total_blocks sample_config = 8" "cfg_block_size sample_config = 4"
  "jget sample_config ''execution_mode'' = JStr ''continuous_batching''"
  "jget sample_config ''scheduling_policy'' = JStr ''DecodeFirst''"
  by (simp_all add: sample_config_def cfg_total_blocks_def cfg_block_size_def)

lemma sample_quotients [simp]: "py_truediv 2 8 = Inr (1 / 4)" "py_truediv 3 3 = Inr 1" "py_truediv 2 2 = Inr 1"
proof -
  have "fl (1 / 4) = 1 / 4" by code_simp
  then show "py_truediv 2 8 = Inr (1 / 4)" using py_truediv_unit(1) [of 2 8] by simp
qed (use py_truediv_unit(1) [of 3 3] py_truediv_unit(1) [of 2 2] in simp_all)

lemma ex_quarter [simp]: "\<exists>q :: rat. q * 4 = 1"
  by (rule exI [of _ "1 / 4"]) simp

lemma sample_iteration_accepted:
  assumes "n < i" "t \<le> s" "s \<le> e" "0 \<le> i" "0 \<le> t" "0 \<le> k" "p = [1] \<and> d = [] \<or> p = [] \<and> d = [1]"
  shows "check_iteration (Some sample_config) [1] n t line (sample_iteration i s e p d k) = None"
  using assms
  by (elim conjE disjE) (simp_all add: iteration_fields check_iteration_def check_iteration_order_def check_iteration_batch_def
  check_iteration_work_def check_iteration_blocks_def Let_def 
  ITERATION_INTS_def sample_eval)

lemma sample_summary_shape:
  "0 \<le> m \<Longrightarrow> 0 \<le> g \<Longrightarrow> 0 \<le> k \<Longrightarrow> check_summary_shape ctx (Some sample_config) (sample_summary m g k) = None"
  by (simp add: summary_fields check_summary_shape_def Let_def check_average_def finite_nonneg_def
    SUMMARY_INTS_def SUMMARY_NULLABLE_INTS_def isfinite_overflows_def sample_eval conserved_None)

definition sample_meta :: request_meta where
  "sample_meta = \<lparr>q_id = ''r1'', q_native = 1, q_class = ''chat'', q_group = None, q_deadline = None,
                 q_metadata = []\<rparr>"

text \<open>A request that is admitted at \<open>a\<close>, emits the given tokens and finishes with the last one.\<close>

definition finished_life :: "int \<Rightarrow> int list \<Rightarrow> life" where
  "finished_life a ts = (decoding_life 0 4 2 a 0 ts)\<lparr>l_phase := Finished, l_finish := Some (last ts)\<rparr>"

lemma life_reach_finished:
  "0 \<le> a \<Longrightarrow> sorted (a # ts) \<Longrightarrow> ts \<noteq> [] \<Longrightarrow> length ts \<le> 2 \<Longrightarrow> life_reach (finished_life a ts)"
  using life_reach_step [OF life_reach_decoding [of 0 4 2 a 0 ts] life_step.finish]
  by (simp add: finished_life_def decoding_life_def)

definition sample_request :: "int \<Rightarrow> int list \<Rightarrow> json" where
  "sample_request a ts = render_request sample_meta (finished_life a ts)"

lemma sample_request_accepted:
  "0 \<le> a \<Longrightarrow> sorted (a # ts) \<Longrightarrow> ts \<noteq> [] \<Longrightarrow> length ts \<le> 2 \<Longrightarrow> last ts \<le> 100 \<Longrightarrow>
     check_request [] [] line (sample_request a ts) = None"
  unfolding sample_request_def
  by (rule rendered_run_accepted [OF life_reach_finished])
    (simp_all add: finished_life_def decoding_life_def admitted_life_def meta_ok_def
       sample_meta_def WORKLOAD_CLASSES_def)

lemma sample_request_reads [simp]:
  "r_native_id (sample_request a ts) = 1" "r_admitted (sample_request a ts) = Some a"
  "r_finish (sample_request a ts) = Some (last ts)" "r_generated (sample_request a ts) = int (length ts)"
  "r_original (sample_request a ts) = 4" "r_matched (sample_request a ts) = 0"
  "r_scheduled (sample_request a ts) = 4" "r_state (sample_request a ts) = JStr ''Finished''"
  "jget (sample_request a ts) ''generated_tokens'' = JInt (int (length ts))"
  "jget (sample_request a ts) ''admitted_time_us'' = JInt a"
  "jget (sample_request a ts) ''decode_token_times_us'' = jints ts"
  "jget (sample_request a ts) ''record_type'' = JStr ''request''"
  "jget (sample_request a ts) ''schema_version'' = JStr SIMULATOR_SCHEMA_VERSION"
  "jget (sample_request a ts) ''evidence_type'' = JStr ''SIMULATED''"
  by (simp_all add: sample_request_def render_request_def r_defs finished_life_def decoding_life_def
      admitted_life_def submitted_def sample_meta_def)

text \<open>One request: prefilled in [0,5], with two tokens at 10 and 20.\<close>

definition sample_iterations :: "json list" where
  "sample_iterations = [sample_iteration 1 0 5 [1] [] 4, sample_iteration 2 5 10 [] [1] 0,
                        sample_iteration 3 10 20 [] [1] 0]"
definition sample_stream :: json where
  "sample_stream = JList (sample_request 0 [10, 20] # sample_iterations @ [sample_summary 20 2 3])"

text \<open>One request that is decoded in [0,10] and prefilled in [10,20].\<close>

definition early_iterations :: "json list" where
  "early_iterations = [sample_iteration 1 0 10 [] [1] 0, sample_iteration 2 10 20 [1] [] 4]"
definition early_stream :: json where
  "early_stream = JList (sample_request 10 [10] # early_iterations @ [sample_summary 20 1 2])"

lemmas sample_checks = check_summary_def check_summary_counts_def check_continuous_sums_def
  check_continuous_peaks_def check_continuous_gauges_def check_appearances_def conserved_head_def
  current_gauge_def CURRENT_GAUGES_def count_if_def total_of_def in_state_def finish_times_def
  max_default_def rat_of_def kv_capacity_deferrals_def conserved_None SUMMARY_NULLABLE_INTS_def
  note_iteration_def note_prefill_def note_decode_def count_at_def append_at_def empty_tables_def


lemma sample_summary_accepted:
  "check_summary ctx (Some sample_config) [sample_request 0 [10, 20]] sample_iterations
     (fold note_iteration sample_iterations empty_tables) (sample_summary 20 2 3) = None"
  by (simp add: summary_fields iteration_fields sample_iterations_def sample_checks Let_def sample_summary_shape
     sample_eval map_filter_simps conserved_None)

lemma early_summary_accepted:
  "check_summary ctx (Some sample_config) [sample_request 10 [10]] early_iterations
     (fold note_iteration early_iterations empty_tables) (sample_summary 20 1 2) = None"
  by (simp add: summary_fields iteration_fields early_iterations_def sample_checks Let_def sample_summary_shape
     sample_eval map_filter_simps conserved_None)

lemma sample_native_types [simp]:
  "jget (sample_iteration n s e p d k) ''record_type'' = JStr ''iteration''"
  "check_native_record (l, sample_iteration n s e p d k) = None"
  "jget (sample_summary m g j) ''record_type'' = JStr ''summary''"
  "check_native_record (l, sample_summary m g j) = None"
  "check_native_record (l, sample_request a ts) = None"
   apply (simp_all add: check_native_record_def Let_def summary_fields iteration_fields NATIVE_TYPES_def)
  by (simp_all add: sample_iteration_def sample_summary_def sample_request_def render_request_def)

lemma sample_stream_accepted:
  "validate_native_records sample_repo (Some sample_config) None sample_stream
     = Inr ([sample_request 0 [10, 20]], sample_iterations, sample_summary 20 2 3)"

  by (simp add: validate_native_records_def sample_stream_def enumerate1_def upt_conv_Cons sample_iterations_def
     of_type_def sample_config_accepted sample_request_accepted Let_def sample_iteration_accepted
     iteration_fields i_defs sample_summary_accepted [unfolded sample_iterations_def, simplified])

lemma early_stream_accepted:
  "validate_native_records sample_repo (Some sample_config) None early_stream
     = Inr ([sample_request 10 [10]], early_iterations, sample_summary 20 1 2)"

  by (simp add: validate_native_records_def early_stream_def enumerate1_def upt_conv_Cons early_iterations_def
     of_type_def sample_config_accepted sample_request_accepted Let_def sample_iteration_accepted
     iteration_fields i_defs early_summary_accepted [unfolded early_iterations_def, simplified])


section \<open>Properties\<close>

text \<open>C7: Soundness of the request checks. A request record that the loop of
  \<open>validate_native_records\<close> accepts is the trace of a run of the request life cycle (submit, admit,
  start decoding, emit tokens, finish or cancel): its times, token counts, gaps, prompt split, state
  and reason are the ones such a run leaves behind.\<close>

theorem accepted_request_is_a_run:
  "check_request external native line r = None \<Longrightarrow> \<exists>l. life_reach l \<and> observes r l"
  using accepted_request_wf wf_record_has_run by blast

theorem accepted_request_is_a_run_witness:
  "\<exists>l. life_reach l \<and> observes (sample_request 0 [10, 20]) l"
  by (rule accepted_request_is_a_run [of "[]" "[]" 1]) (simp add: sample_request_accepted)

text \<open>C8: Completeness of the request checks. The record of any run of the life cycle is accepted,
  whatever its identity and workload attributes, as long as its times fit a float exactly and the
  identifiers are new: the checks reject no legal history, derived metrics included.\<close>

theorem every_run_is_accepted:
  "life_reach l \<Longrightarrow> l_now l \<le> 2 ^ 53 \<Longrightarrow> meta_ok q \<Longrightarrow>
     check_request [] [] line (render_request q l) = None"
  by (rule rendered_run_accepted)

theorem every_run_is_accepted_witness:
  "check_request [] [] 7 (render_request sample_meta (finished_life 3 [5, 9])) = None"
  by (rule every_run_is_accepted [OF life_reach_finished])
    (simp_all add: finished_life_def decoding_life_def admitted_life_def meta_ok_def sample_meta_def
      WORKLOAD_CLASSES_def)

text \<open>C12: In an accepted stream no two requests share an external or a native identifier, and the
  summary's counters are the ones of the request records: submitted is completed plus cancelled plus
  unfinished, prompt, prefill, matched and generated tokens are the sums over the requests, and the
  run status says whether a request was left unfinished.\<close>

theorem accepted_stream_counts:
  assumes "validate_native_records fs config workload records = Inr (reqs, its, sm)"
  shows "distinct (map r_request_id reqs) \<and> distinct (map r_native_id reqs) \<and>
    summary_counts_requests reqs sm \<and>
    jint sm ''submitted'' = jint sm ''completed'' + jint sm ''cancelled'' + unfinished_requests reqs"
proof -
  from assms obtain t ctx where "check_summary ctx config reqs its t sm = None"
    by (rule accepted_stream)
  then show ?thesis
    using accepted_stream_requests(1,2) [OF assms] state_partition [of reqs]
    by (simp add: accepted_summary_counts(1) [unfolded summary_counts_requests_def] accepted_summary_counts(1))
qed

theorem accepted_stream_counts_witness:
  "summary_counts_requests [sample_request 0 [10, 20]] (sample_summary 20 2 3)"
  using accepted_stream_counts [OF sample_stream_accepted] by blast

text \<open>C9: In continuous batching the iterations and the requests tell the same story: the emission
  times of every request are the end times of the iterations that decode it, in order; an admitted
  request is prefilled by exactly one iteration, which starts at its admission (and ends at its finish
  when it emits nothing); a request that was never admitted is prefilled by none.\<close>

theorem requests_match_iterations:
  assumes "validate_native_records fs config workload records = Inr (reqs, its, sm)"
    and "continuous sm" "r \<in> set reqs"
  shows "scheduled_as_recorded its r"
  using assms by (rule accepted_stream_scheduled)

theorem requests_match_iterations_witness:
  "scheduled_as_recorded sample_iterations (sample_request 0 [10, 20])"
  by (rule requests_match_iterations [OF sample_stream_accepted])
    (simp_all add: continuous_def summary_fields)

text \<open>C10: Tokens are conserved in continuous batching. The summary's generated tokens are the sum of
  the emission times over the requests, the sum of the decode slots over the iterations, and the
  number of request/iteration pairs that decode; its prefill tokens are the sum over the requests and
  over the iterations, and every iteration is busy, idle or stalled.\<close>

theorem token_conservation:
  assumes acc: "validate_native_records fs config workload records = Inr (reqs, its, sm)"
    and cont: "continuous sm"
  shows "jint sm ''generated_tokens'' = total_of (\<lambda>r. int (length (r_times r))) reqs \<and>
    jint sm ''generated_tokens'' = total_of (\<lambda>it. int (length (i_decode it))) its \<and>
    jint sm ''generated_tokens'' = total_of (\<lambda>r. int (length (decoded_in (r_native_id r) its))) reqs \<and>
    total_of r_scheduled reqs = total_of (\<lambda>it. jint it ''scheduled_prefill_tokens'') its \<and>
    total_of r_matched reqs = total_of (\<lambda>it. jint it ''matched_tokens'') its \<and>
    summary_sums_iterations its sm"
proof -
  have wf: "\<forall>it \<in> set its. batch_wf (map r_native_id reqs) it"
    using accepted_stream_iterations(2) [OF acc] by blast
  from acc obtain t ctx where s: "check_summary ctx config reqs its t sm = None"
    by (rule accepted_stream)
  note counts = accepted_summary_counts(1) [OF s] and sums = accepted_sums(1) [OF s cont wf]
  have "total_of r_generated reqs = total_of (\<lambda>r. int (length (r_times r))) reqs"
    using accepted_stream_requests(3) [OF acc] by (auto intro!: total_of_cong simp: request_wf_def)
  with counts sums decode_slots [OF accepted_stream_requests(2) [OF acc] wf] show ?thesis
    by (simp add: summary_counts_requests_def summary_sums_iterations_def)
qed

theorem token_conservation_witness:
  "jint (sample_summary 20 2 3) ''generated_tokens'' = total_of (\<lambda>it. int (length (i_decode it))) sample_iterations"
  using token_conservation [OF sample_stream_accepted]
  by (simp add: continuous_def summary_fields)

text \<open>C11: KV blocks are conserved. Validated against a configuration, a continuous stream has, in
  every iteration and in the summary, allocated plus free blocks equal to the configured total,
  represented tokens plus internal fragmentation equal to the allocated capacity, cached and shared
  blocks within the allocated ones, and a peak that covers every iteration and stays within the
  configured total.\<close>

theorem kv_conservation:
  assumes acc: "validate_native_records fs (Some cfg) workload records = Inr (reqs, its, sm)"
    and cont: "continuous sm"
  shows "kv_within cfg its sm"
proof -
  from acc obtain t ctx where "check_summary ctx (Some cfg) reqs its t sm = None"
    by (rule accepted_stream)
  then show ?thesis
    using cont accepted_stream_iterations(2,3) [OF acc] by (blast intro: accepted_kv)
qed

theorem kv_conservation_witness:
  "kv_within sample_config sample_iterations (sample_summary 20 2 3)"
  by (rule kv_conservation [OF sample_stream_accepted]) (simp add: continuous_def summary_fields)

text \<open>Prefill comes before decode, up to a shared boundary: if an accepted continuous stream lists
  an iteration that decodes a request before the iteration that prefills it, the first ends exactly
  when the second starts.\<close>

theorem decode_before_prefill_only_at_boundary:
  assumes "validate_native_records fs config workload records = Inr (reqs, its, sm)"
    and "continuous sm" "r \<in> set reqs" "its = xs @ dec # ys @ pre # zs"
    and "r_native_id r \<in> set (i_decode dec)" "r_native_id r \<in> set (i_prefill pre)"
  shows "i_end dec = i_start pre"
  using assms by (rule decode_before_prefill_boundary)

theorem decode_before_prefill_only_at_boundary_witness:
  "i_end (sample_iteration 1 0 10 [] [1] 0) = i_start (sample_iteration 2 10 20 [1] [] 4)"
  by (rule decode_before_prefill_only_at_boundary [OF early_stream_accepted,
        where r = "sample_request 10 [10]" and xs = "[]" and ys = "[]" and zs = "[]"])
    (simp_all add: continuous_def summary_fields early_iterations_def i_defs iteration_fields ints_of_def jints_def)

text \<open>The boundary case is accepted: there is a stream the function accepts, configuration
  included, in which the only request produces its token in iteration 1 and is prefilled, over its
  whole prompt, in iteration 2.\<close>

theorem token_before_prefill_accepted:
  "validate_native_records sample_repo (Some sample_config) None early_stream
     = Inr ([sample_request 10 [10]], early_iterations, sample_summary 20 1 2) \<and>
   i_decode (early_iterations ! 0) = [1] \<and> i_prefill (early_iterations ! 1) = [1]"
  using early_stream_accepted
  by (simp add: early_iterations_def i_defs iteration_fields ints_of_def jints_def)


section \<open>Errors that are not validation errors\<close>

text \<open>The record loop reports malformed records as \<open>ValidationError\<close>, with one exception: it raises
  \<open>TypeError\<close> exactly for an object whose \<open>record_type\<close> is an array or an object, because the
  membership test in the set of allowed types hashes the value.\<close>

theorem record_type_error_kind:
  "(\<exists>m. check_native_record (line, r) = Some (TypeError m)) \<longleftrightarrow>
     is_JObj r \<and> \<not> hashable (jget r ''record_type'')"
  by (auto simp: check_native_record_def Let_def require_member_def reject_def first_error.simps(2)
      split: if_splits)

definition empty_summary_values :: "json list" where
  "empty_summary_values =
    [JStr ''summary'', JStr SIMULATOR_SCHEMA_VERSION, JStr ''SIMULATED'', JStr ''continuous_batching'',
     JStr ''DecodeFirst'', JStr ''completed'', JInt 0, JInt 0, JInt 0, JInt 0, JInt 0, JInt 0, JInt 0, JInt 0,
     JInt 0, JInt 0, JNull, JInt 0, JInt 0, JInt 0, JInt 0, JInt 8, JInt 0, JInt 0, JNull, JInt 0, JInt 0,
     JInt 0, JInt 0, JInt 0, JInt 0, JInt 0, JInt 0, JInt 0, JInt 0, JInt 0, JInt 0, JInt 0, JNull, JInt 0,
     JInt 0, JInt 0, JInt 0, JInt 0, JInt 0]"

definition empty_summary :: json where
  "empty_summary = JObj (zip SUMMARY_RECORD_FIELDS empty_summary_values)"

lemma empty_summary_length: "length empty_summary_values = length SUMMARY_RECORD_FIELDS"
  by (simp add: empty_summary_values_def SUMMARY_RECORD_FIELDS_def)

lemma empty_summary_table:
  "list_all2 (\<lambda>f v. jget empty_summary f = v) SUMMARY_RECORD_FIELDS empty_summary_values"
  unfolding empty_summary_def by (intro jget_zip distinct_fields empty_summary_length)

lemmas empty_summary_fields =
  empty_summary_table [unfolded SUMMARY_RECORD_FIELDS_def empty_summary_values_def list_all2_Cons]

lemma jkeys_empty_summary [simp]: "jkeys empty_summary = SUMMARY_RECORD_FIELDS"
  by (simp add: empty_summary_def jkeys_zip empty_summary_length)

lemma empty_summary_parts:
  "check_summary_shape ctx (Some sample_config) empty_summary = None"
  "check_summary_counts ctx [] [] empty_summary = None" "check_continuous_sums ctx [] empty_summary = None"
  by (simp_all add: empty_summary_fields check_summary_shape_def check_average_def SUMMARY_INTS_def
      sample_checks Let_def sample_eval conserved_None)

text \<open>A continuous summary that passes the shape, count and sum checks, covers the iterations'
  block peak and leaves \<open>kv_peak_utilization\<close> null, as the shape check allows, ends in a \<open>TypeError\<close>
  from comparing \<open>None\<close> with a number.\<close>

theorem null_peak_is_type_error:
  assumes "check_summary_shape ctx config sm = None" "check_summary_counts ctx reqs its sm = None"
    and "continuous sm" "check_continuous_sums ctx its sm = None"
    and "\<forall>it \<in> set its. jint it ''kv_allocated'' \<le> jint sm ''peak_allocated_blocks''"
    and "0 \<le> jint sm ''peak_allocated_blocks''" "jget sm ''kv_peak_utilization'' = JNull"
  shows "check_summary ctx config reqs its t sm = Some (TypeError ''< not supported for NoneType'')"
proof -
  let ?peak = "max_default 0 (map (\<lambda>r. jint r ''kv_allocated'') its)"
  have fold_le: "fold max xs y \<le> b \<longleftrightarrow> y \<le> b \<and> (\<forall>x \<in> set xs. x \<le> b)" for xs and y b :: int
    by (induction xs arbitrary: y) auto
  have "?peak \<le> jint sm ''peak_allocated_blocks''"
    using assms(5,6) by (auto simp: max_default_def fold_le split: list.splits)
  then have "reject (jint sm ''peak_allocated_blocks'' < ?peak) e = None" for e
    by simp
  with assms(1-4,7) show ?thesis
    by (simp add: check_summary_def check_continuous_peaks_def continuous_def Let_def reject_def)
qed

theorem null_peak_is_type_error_witness:
  "check_summary ''summary'' (Some sample_config) [] [] empty_tables empty_summary
     = Some (TypeError ''< not supported for NoneType'')"
  by (rule null_peak_is_type_error)
    (simp_all add: empty_summary_parts continuous_def empty_summary_fields jint_def)

end
