(* ===== verification/Serving_Metrics.thy ===== *)
theory Serving_Metrics
  imports Native_Results "HOL-Library.Multiset"
begin

text \<open>
  The derived metrics of \<open>benchmarks/serving_common.py\<close>: \<open>nearest_rank\<close>, \<open>safe_rate\<close> and
  \<open>analyze_records\<close>. A percentile is the float the code writes (\<open>0.9\<close> is \<open>fl (9 / 10)\<close>), and its
  product with the sample count is rounded as a float product is. The dictionary
  \<open>analyze_records\<close> returns is the record \<open>analysis\<close>; the fields it copies from the summary stay
  JSON values.
\<close>

section \<open>Percentiles and rates\<close>

definition sample_rank :: "rat \<Rightarrow> nat \<Rightarrow> nat" where
  "sample_rank percentile n = nat (max 1 (min (int n) \<lceil>fl (percentile * fl (of_nat n))\<rceil>))"

definition nearest_rank :: "'a::linorder list \<Rightarrow> rat \<Rightarrow> 'a option res" where
  "nearest_rank vals percentile =
     (if \<not> (0 < percentile \<and> percentile \<le> 1)
      then Inl (ValidationError ''percentile must be in (0, 1]'')
      else let samples = sort vals in
        if samples = [] then Inr None
        else Inr (Some (samples ! (sample_rank percentile (length samples) - 1))))"

text \<open>\<open>float(i)\<close>, and \<open>x / y\<close> on floats with \<open>y\<close> nonzero, which overflows to infinity.\<close>

definition py_float :: "int \<Rightarrow> rat res" where
  "py_float i = (case fl_checked (of_int i) of None \<Rightarrow> Inl OverflowError | Some q \<Rightarrow> Inr q)"

definition float_div :: "rat \<Rightarrow> rat \<Rightarrow> pyfloat" where
  "float_div x y = (case fl_checked (x / y) of Some q \<Rightarrow> Fin q | None \<Rightarrow> Inf (x / y < 0))"

definition safe_rate :: "int \<Rightarrow> int \<Rightarrow> pyfloat option res" where
  "safe_rate numerator duration_us =
     (if duration_us \<le> 0 then Inr None
      else rbind (py_float numerator) (\<lambda>n. rbind (py_float duration_us) (\<lambda>d.
        Inr (Some (float_div n (fl (d / 1000000)))))))"

section \<open>The queue-depth sweep\<close>

text \<open>
  \<open>+1\<close> at an arrival and \<open>-1\<close> at an admission, for the events inside the window; at equal times the
  arrivals come first.
\<close>

definition queue_events :: "int \<Rightarrow> json \<Rightarrow> (int \<times> int) list" where
  "queue_events window_end record =
     (if r_arrival record \<le> window_end then [(r_arrival record, 1)] else []) @
     (case r_admitted record of
        Some a \<Rightarrow> if a \<le> window_end then [(a, -1)] else [] | None \<Rightarrow> [])"

definition event_key :: "int \<times> int \<Rightarrow> int \<times> int" where
  "event_key item = (fst item, - snd item)"

record sweep =
  s_depth :: int
  s_maximum :: int
  s_weighted :: int
  s_previous :: int

definition sweep_step :: "int \<times> int \<Rightarrow> sweep \<Rightarrow> sweep" where
  "sweep_step event s = (case event of (timestamp, delta) \<Rightarrow>
     let depth = s_depth s + delta in
     \<lparr>s_depth = depth, s_maximum = max (s_maximum s) depth,
      s_weighted = s_weighted s + s_depth s * max 0 (timestamp - s_previous s),
      s_previous = timestamp\<rparr>)"

definition queue_sweep :: "int \<Rightarrow> int \<Rightarrow> json list \<Rightarrow> sweep" where
  "queue_sweep first_arrival window_end requests =
     (let s = fold sweep_step (sort_key event_key (concat (map (queue_events window_end) requests)))
                \<lparr>s_depth = 0, s_maximum = 0, s_weighted = 0, s_previous = first_arrival\<rparr>
      in s\<lparr>s_weighted := s_weighted s + s_depth s * max 0 (window_end - s_previous s)\<rparr>)"

section \<open>Service-level objectives\<close>

type_synonym enriched = "json \<times> metrics"

text \<open>The three objectives, with the threshold's key and the metric each reads.\<close>

definition slo_value :: "string \<Rightarrow> enriched \<Rightarrow> rat option" where
  "slo_value name e =
     (if name = ''ttft'' then map_option of_int (m_ttft (snd e))
      else if name = ''tpot'' then m_tpot (snd e)
      else map_option of_int (m_e2e (snd e)))"

definition SLO_NAMES :: "string list" where
  "SLO_NAMES = [''ttft'', ''tpot'', ''e2e'']"

definition slo_threshold :: "json \<Rightarrow> string \<Rightarrow> int option" where
  "slo_threshold slos name = opt_int (jget slos (name @ ''_slo_us''))"

text \<open>An unset threshold or an inapplicable metric does not violate the objective.\<close>

definition slo_violated :: "json \<Rightarrow> string \<Rightarrow> enriched \<Rightarrow> bool" where
  "slo_violated slos name e = (case (slo_threshold slos name, slo_value name e) of
     (Some threshold, Some v) \<Rightarrow> of_int threshold < v | _ \<Rightarrow> False)"

definition slo_passed :: "json \<Rightarrow> enriched \<Rightarrow> bool" where
  "slo_passed slos e \<longleftrightarrow> list_all (\<lambda>name. \<not> slo_violated slos name e) SLO_NAMES"

section \<open>analyze\_records\<close>

definition enrich :: "json \<Rightarrow> enriched res" where
  "enrich record = checked
     (reject (keys_missing record [''request_id'', ''arrival_time_us'', ''generated_tokens'',
        ''final_state'', ''prompt_tokens_original'', ''prompt_tokens_matched'', ''prompt_tokens_scheduled''] \<noteq> [])
        (ValidationError ''request missing field''))
     (rbind (request_metrics record) (\<lambda>mt. Inr (record, mt)))"

definition min_default :: "'a::linorder \<Rightarrow> 'a list \<Rightarrow> 'a" where
  "min_default d xs = (case xs of [] \<Rightarrow> d | x # rest \<Rightarrow> fold min rest x)"

definition PERCENTILES :: "(string \<times> rat) list" where
  "PERCENTILES = [(''p50'', fl (1 / 2)), (''p90'', fl (9 / 10)), (''p95'', fl (19 / 20)), (''p99'', fl (99 / 100))]"

definition percentiles :: "(enriched \<Rightarrow> rat option) \<Rightarrow> enriched list \<Rightarrow> (string \<times> rat option) list res" where
  "percentiles field finished =
     rmap (\<lambda>(label, p). rbind (nearest_rank (List.map_filter field finished) p) (\<lambda>v. Inr (label, v)))
       PERCENTILES"

text \<open>\<open>None if d == 0 else n / d\<close>, for counts\<close>

definition ratio :: "int \<Rightarrow> int \<Rightarrow> rat option res" where
  "ratio n d = (if d = 0 then Inr None else rbind (py_truediv n d) (\<lambda>q. Inr (Some q)))"

record analysis =
  an_request_count :: int
  an_completed :: int
  an_unfinished :: int
  an_completion_ratio :: "rat option"
  an_arrival_rate :: "pyfloat option"
  an_duration :: int
  an_request_throughput :: "pyfloat option"
  an_output_throughput :: "pyfloat option"
  an_total_throughput :: "pyfloat option"
  an_good :: int
  an_good_rate :: "pyfloat option"
  an_goodput_ratio :: "rat option"
  an_violations :: "(string \<times> int) list"
  an_ttft :: "(string \<times> rat option) list"
  an_e2e :: "(string \<times> rat option) list"
  an_tpot :: "(string \<times> rat option) list"
  an_queue_delay :: "(string \<times> rat option) list"
  an_average_depth :: "rat option"
  an_maximum_depth :: int
  an_lookup_hit_rate :: "rat option"
  an_copied :: "(string \<times> json) list"
  an_iteration_count :: int
  an_itl_available :: bool

definition COPIED_FIELDS :: "(string \<times> string) list" where
  "COPIED_FIELDS =
    [(''run_status'', ''run_status''), (''submitted'', ''submitted''),
     (''average_batch_size'', ''average_batch_size''), (''maximum_batch_size'', ''max_batch_size''),
     (''kv_peak_utilization'', ''kv_peak_utilization''),
     (''prefix_token_hit_rate'', ''prefix_token_hit_rate''),
     (''kv_capacity_deferrals'', ''kv_capacity_deferrals''), (''stalled_iterations'', ''stalled''),
     (''eviction_count'', ''eviction_count''),
     (''saved_simulated_prefill_tokens'', ''saved_simulated_prefill_tokens''),
     (''scheduled_prefill_tokens'', ''scheduled_prefill_tokens''),
     (''matched_prefix_tokens'', ''matched_prefix_tokens''),
     (''internal_fragmentation_tokens'', ''internal_fragmentation_tokens''),
     (''peak_allocated_blocks'', ''peak_allocated_blocks'')]"

definition analyze_stream :: "json \<Rightarrow> json list \<Rightarrow> json list \<Rightarrow> json \<Rightarrow> analysis res" where
  "analyze_stream slos requests iterations summary =
     rbind (rmap enrich requests) (\<lambda>enriched.
       let finished = filter (in_state ''Finished'' \<circ> fst) enriched;
           arrivals = map r_arrival requests;
           first_arrival = min_default 0 arrivals; last_arrival = max_default first_arrival arrivals;
           last_finish = max_default first_arrival (finish_times (map fst finished));
           duration = last_finish - first_arrival;
           n = int (length enriched); n_done = int (length finished);
           good = count_if (slo_passed slos) finished;
           output_tokens = total_of (r_generated \<circ> fst) finished;
           total_tokens = output_tokens + total_of (r_scheduled \<circ> fst) finished;
           window_end = jint summary ''makespan_us'';
           s = queue_sweep first_arrival window_end requests;
           queue_duration = window_end - first_arrival;
           hits = jint summary ''prefix_lookup_hits''; misses = jint summary ''prefix_lookup_misses''
       in
       rbind (if queue_duration \<le> 0 then Inr None else ratio (s_weighted s) queue_duration) (\<lambda>depth.
       rbind (ratio n_done n) (\<lambda>completion.
       rbind (safe_rate (max 0 (n - 1)) (last_arrival - first_arrival)) (\<lambda>arrival_rate.
       rbind (safe_rate n_done duration) (\<lambda>request_rate.
       rbind (safe_rate output_tokens duration) (\<lambda>output_rate.
       rbind (safe_rate total_tokens duration) (\<lambda>total_rate.
       rbind (safe_rate good duration) (\<lambda>good_rate.
       rbind (ratio good n_done) (\<lambda>goodput.
       rbind (percentiles (\<lambda>e. map_option of_int (m_ttft (snd e))) finished) (\<lambda>ttft.
       rbind (percentiles (\<lambda>e. map_option of_int (m_e2e (snd e))) finished) (\<lambda>e2e.
       rbind (percentiles (\<lambda>e. m_tpot (snd e)) finished) (\<lambda>tpot.
       rbind (percentiles (\<lambda>e. map_option of_int (m_queue_delay (snd e))) finished) (\<lambda>delay.
       rbind (ratio hits (hits + misses)) (\<lambda>hit_rate. Inr
         \<lparr>an_request_count = n, an_completed = n_done, an_unfinished = n - n_done,
          an_completion_ratio = completion, an_arrival_rate = arrival_rate, an_duration = duration,
          an_request_throughput = request_rate, an_output_throughput = output_rate,
          an_total_throughput = total_rate, an_good = good, an_good_rate = good_rate,
          an_goodput_ratio = goodput,
          an_violations = map (\<lambda>name. (name, count_if (slo_violated slos name) finished)) SLO_NAMES,
          an_ttft = ttft, an_e2e = e2e, an_tpot = tpot, an_queue_delay = delay,
          an_average_depth = depth, an_maximum_depth = s_maximum s,
          an_lookup_hit_rate = hit_rate,
          an_copied = map (\<lambda>(k, field). (k, jget summary field)) COPIED_FIELDS,
          an_iteration_count = int (length iterations),
          an_itl_available = (requests \<noteq> [] \<and> list_all (\<lambda>r. jhas r ''decode_token_times_us'') requests)\<rparr>))))))))))))))"

definition analyze_records ::
    "repo \<Rightarrow> json option \<Rightarrow> json option \<Rightarrow> json \<Rightarrow> json \<Rightarrow> analysis res" where
  "analyze_records fs config workload_records slos records =
     rbind (validate_native_records fs config workload_records records)
       (\<lambda>(requests, iterations, summary). analyze_stream slos requests iterations summary)"

section \<open>Percentiles: order statistics\<close>

lemma sample_rank_bounds: "0 < n \<Longrightarrow> 1 \<le> sample_rank p n \<and> sample_rank p n \<le> n"
  by (auto simp: sample_rank_def)

lemma sample_rank_mono: "p \<le> q \<Longrightarrow> sample_rank p n \<le> sample_rank q n"
proof -
  assume "p \<le> q"
  then have "fl (p * fl (of_nat n)) \<le> fl (q * fl (of_nat n))"
    by (intro fl_mono mult_right_mono fl_nonneg) auto
  then have "\<lceil>fl (p * fl (of_nat n))\<rceil> \<le> \<lceil>fl (q * fl (of_nat n))\<rceil>" by (rule ceiling_mono)
  then show ?thesis unfolding sample_rank_def by (intro nat_mono) linarith
qed

lemma sorted_nth_le_count:
  fixes ys :: "'a::linorder list"
  assumes "sorted ys" "i < length ys"
  shows "i < length (filter (\<lambda>x. x \<le> ys ! i) ys)" and "length (filter (\<lambda>x. x < ys ! i) ys) \<le> i"
proof -
  have split: "ys = take (Suc i) ys @ drop (Suc i) ys" by simp
  have "filter (\<lambda>x. x \<le> ys ! i) (take (Suc i) ys) = take (Suc i) ys"
    using assms by (auto simp: filter_id_conv in_set_conv_nth less_Suc_eq_le) (metis sorted_nth_mono)
  then have "Suc i \<le> length (filter (\<lambda>x. x \<le> ys ! i) (take (Suc i) ys))"
    using assms(2) by simp
  also have "\<dots> \<le> length (filter (\<lambda>x. x \<le> ys ! i) ys)"
    by (subst (2) split) (simp del: append_take_drop_id)
  finally show "i < length (filter (\<lambda>x. x \<le> ys ! i) ys)" by simp
  have "filter (\<lambda>x. x < ys ! i) (drop i ys) = []"
    using assms by (auto simp: filter_empty_conv in_set_conv_nth not_less intro!: sorted_nth_mono)
  moreover have "ys = take i ys @ drop i ys" by simp
  ultimately have "length (filter (\<lambda>x. x < ys ! i) ys) = length (filter (\<lambda>x. x < ys ! i) (take i ys))"
    by (metis append_Nil2 filter_append)
  also have "\<dots> \<le> i" by (metis length_filter_le length_take min.bounded_iff)
  finally show "length (filter (\<lambda>x. x < ys ! i) ys) \<le> i" .
qed

lemma length_filter_sort: "length (filter P (sort xs)) = length (filter P xs)"
  by (simp add: filter_sort)

lemma nearest_rank_value:
  assumes "0 < p" "p \<le> 1" "xs \<noteq> []"
  shows "nearest_rank xs p = Inr (Some (sort xs ! (sample_rank p (length xs) - 1)))"
proof -
  have "sort xs \<noteq> []" using assms(3) by (metis length_0_conv length_sort)
  with assms show ?thesis by (simp add: nearest_rank_def)
qed

text \<open>C17: \<open>nearest_rank\<close> returns an order statistic: on a nonempty sample it returns a member of the
  sample; at least rank many samples are at most that value and fewer than rank many are below it,
  where the rank is the rounded-up product of percentile and count, between 1 and the count.\<close>

theorem nearest_rank_order_statistic:
  assumes "0 < p" "p \<le> 1" "xs \<noteq> []"
  shows "\<exists>v \<in> set xs. nearest_rank xs p = Inr (Some v) \<and>
    sample_rank p (length xs) \<le> length (filter (\<lambda>x. x \<le> v) xs) \<and>
    length (filter (\<lambda>x. x < v) xs) < sample_rank p (length xs) \<and>
    1 \<le> sample_rank p (length xs) \<and> sample_rank p (length xs) \<le> length xs"
proof -
  let ?k = "sample_rank p (length xs)" and ?ys = "sort xs"
  have k: "1 \<le> ?k" "?k \<le> length xs" using sample_rank_bounds assms(3) by auto
  then have i: "?k - 1 < length ?ys" by simp
  then have "?ys ! (?k - 1) \<in> set xs" by (metis nth_mem set_sort)
  moreover have "?k \<le> length (filter (\<lambda>x. x \<le> ?ys ! (?k - 1)) xs)"
    "length (filter (\<lambda>x. x < ?ys ! (?k - 1)) xs) < ?k"
    using sorted_nth_le_count [OF sorted_sort i] k by (auto simp: length_filter_sort)
  ultimately show ?thesis using k nearest_rank_value [OF assms] by blast
qed

theorem nearest_rank_order_statistic_witness:
  "\<exists>v \<in> set [30, 10, 20 :: int]. nearest_rank [30, 10, 20] (1 / 2) = Inr (Some v) \<and>
    sample_rank (1 / 2) (length [30, 10, 20 :: int]) \<le> length (filter (\<lambda>x. x \<le> v) [30, 10, 20]) \<and>
    length (filter (\<lambda>x. x < v) [30, 10, 20]) < sample_rank (1 / 2) (length [30, 10, 20 :: int]) \<and>
    1 \<le> sample_rank (1 / 2) (length [30, 10, 20 :: int]) \<and>
    sample_rank (1 / 2) (length [30, 10, 20 :: int]) \<le> length [30, 10, 20 :: int]"
  by (rule nearest_rank_order_statistic) simp_all

text \<open>Percentiles are ordered: a larger percentile of the same sample is never smaller, so p50 is at
  most p90, p90 at most p95 and p95 at most p99 whatever the rounding of the float product.\<close>

theorem nearest_rank_mono:
  assumes "0 < p" "p \<le> q" "q \<le> 1"
    and "nearest_rank xs p = Inr (Some v)" "nearest_rank xs q = Inr (Some w)"
  shows "v \<le> w"
proof -
  have ne: "xs \<noteq> []" using assms(4) by (auto simp: nearest_rank_def split: if_splits)
  have "sort xs ! (sample_rank p (length xs) - 1) \<le> sort xs ! (sample_rank q (length xs) - 1)"
    using sample_rank_mono [OF assms(2)] sample_rank_bounds [of "length xs" q] ne
    by (intro sorted_nth_mono diff_le_mono) auto
  then show ?thesis using assms nearest_rank_value [OF _ _ ne] by simp
qed

theorem nearest_rank_mono_witness:
  "(2 :: int) \<le> 4"
  by (rule nearest_rank_mono [of "fl (1 / 2)" "fl (9 / 10)" "[4, 1, 3, 2]"]) code_simp+

section \<open>The sweep computes the waiting time\<close>

definition sweep_start :: "int \<Rightarrow> sweep" where
  "sweep_start first = \<lparr>s_depth = 0, s_maximum = 0, s_weighted = 0, s_previous = first\<rparr>"

definition event_area :: "int \<Rightarrow> (int \<times> int) list \<Rightarrow> int" where
  "event_area fin es = (\<Sum>(t, d)\<leftarrow>es. d * (fin - t))"

lemma sweep_area:
  "sorted (map fst es) \<Longrightarrow> \<forall>(t, d) \<in> set es. s_previous s \<le> t \<and> t \<le> fin \<Longrightarrow> s_previous s \<le> fin \<Longrightarrow>
     (let s' = fold sweep_step es s in
        s_weighted s' + s_depth s' * (fin - s_previous s') =
          s_weighted s + s_depth s * (fin - s_previous s) + event_area fin es \<and>
        s_previous s' \<le> fin)"
proof (induction es arbitrary: s)
  case Nil
  then show ?case by (simp add: event_area_def)
next
  case (Cons e es)
  obtain t d where e: "e = (t, d)" by fastforce
  let ?s = "sweep_step (t, d) s"
  have step: "s_previous ?s = t" "s_depth ?s = s_depth s + d"
    "s_weighted ?s = s_weighted s + s_depth s * (t - s_previous s)"
    using Cons.prems by (auto simp: sweep_step_def e Let_def)
  have "\<forall>(t', d') \<in> set es. s_previous ?s \<le> t' \<and> t' \<le> fin" "s_previous ?s \<le> fin"
    using Cons.prems by (auto simp: step e)
  with Cons.IH [of ?s] Cons.prems have IH: "let s' = fold sweep_step es ?s in
        s_weighted s' + s_depth s' * (fin - s_previous s') =
          s_weighted ?s + s_depth ?s * (fin - s_previous ?s) + event_area fin es \<and>
        s_previous s' \<le> fin" by simp
  then show ?case
    by (simp add: Let_def step e event_area_def algebra_simps)
qed

text \<open>The time a request spends in the queue inside the window.\<close>

definition waiting_time :: "int \<Rightarrow> json \<Rightarrow> int" where
  "waiting_time fin r =
     (if fin < r_arrival r then 0
      else case r_admitted r of
        Some a \<Rightarrow> min a fin - r_arrival r | None \<Rightarrow> fin - r_arrival r)"

lemma event_area_append: "event_area fin (xs @ ys) = event_area fin xs + event_area fin ys"
  by (simp add: event_area_def)

lemma wf_admitted_after_arrival: "request_wf r \<Longrightarrow> r_admitted r = Some a \<Longrightarrow> r_arrival r \<le> a"
  by (simp add: request_wf_def)

lemma event_area_queue_events:
  "request_wf r \<Longrightarrow> event_area fin (queue_events fin r) = waiting_time fin r"
  by (auto simp: event_area_def queue_events_def waiting_time_def dest: wf_admitted_after_arrival
      split: option.splits)

lemma queue_events_inside:
  "request_wf r \<Longrightarrow> (t, d) \<in> set (queue_events fin r) \<Longrightarrow> r_arrival r \<le> t \<and> t \<le> fin"
  by (auto simp: queue_events_def dest: wf_admitted_after_arrival [OF _ sym] split: option.splits if_splits)

lemma event_area_concat:
  "\<forall>r \<in> set rs. request_wf r \<Longrightarrow>
     event_area fin (concat (map (queue_events fin) rs)) = total_of (waiting_time fin) rs"
  by (induction rs) (simp_all add: event_area_append event_area_queue_events, simp add: event_area_def)

lemma event_area_sort: "event_area fin (sort_key f es) = event_area fin es"
proof -
  have "event_area fin es = (\<Sum>x\<in>#mset es. case x of (t, d) \<Rightarrow> d * (fin - t))" for es
    by (induction es) (auto simp: event_area_def)
  then show ?thesis by simp
qed

lemma sorted_fst_events: "sorted (map fst (sort_key event_key es))"
proof -
  have "sorted (map event_key (sort_key event_key es))" by (rule sorted_sort_key)
  then have "sorted_wrt (\<lambda>x y. event_key x \<le> event_key y) (sort_key event_key es)"
    by (simp add: sorted_map)
  then have "sorted_wrt (\<lambda>x y. fst x \<le> fst y) (sort_key event_key es)"
    by (rule sorted_wrt_mono_rel [rotated]) (auto simp: event_key_def less_eq_prod_def)
  then show ?thesis by (simp add: sorted_map)
qed

lemma queue_sweep_waiting:
  assumes "\<forall>r \<in> set rs. request_wf r \<and> first \<le> r_arrival r" "first \<le> fin"
  shows "s_weighted (queue_sweep first fin rs) = total_of (waiting_time fin) rs"
proof -
  let ?es = "sort_key event_key (concat (map (queue_events fin) rs))"
  let ?s = "fold sweep_step ?es (sweep_start first)"
  have "\<forall>(t, d) \<in> set ?es. first \<le> t \<and> t \<le> fin"
    using assms(1) by (auto dest!: queue_events_inside dest: order_trans)
  with sweep_area [OF sorted_fst_events, of "concat (map (queue_events fin) rs)" "sweep_start first" fin] assms(2)
  have "s_weighted ?s + s_depth ?s * (fin - s_previous ?s) = event_area fin ?es \<and> s_previous ?s \<le> fin"
    by (simp add: Let_def sweep_start_def)
  then show ?thesis
    using assms(1) by (simp add: queue_sweep_def Let_def event_area_sort event_area_concat
        flip: sweep_start_def)
qed

text \<open>C15: Little's law for the queue sweep. Over well-formed requests none of which arrives before
  the window starts, the time-weighted queue depth is exactly the sum of the times the requests wait
  inside the window, so the reported average depth is total waiting time over window length.\<close>

theorem queue_sweep_total_waiting:
  assumes "\<forall>r \<in> set rs. request_wf r \<and> first \<le> r_arrival r" "first \<le> fin"
  shows "s_weighted (queue_sweep first fin rs) = total_of (waiting_time fin) rs"
  using assms by (rule queue_sweep_waiting)

theorem queue_sweep_total_waiting_witness:
  "s_weighted (queue_sweep 0 20 [sample_request 4 [10, 20]]) = total_of (waiting_time 20) [sample_request 4 [10, 20]]"
proof (rule queue_sweep_total_waiting)
  have "request_wf (sample_request 4 [10, 20])"
    by (rule accepted_request_wf [OF sample_request_accepted [of _ _ 1]]) simp_all
  moreover have "r_arrival (sample_request 4 [10, 20]) = 0"
    by (simp add: sample_request_def render_request_def r_defs finished_life_def decoding_life_def
        admitted_life_def submitted_def)
  ultimately show "\<forall>r \<in> set [sample_request 4 [10, 20]]. request_wf r \<and> 0 \<le> r_arrival r" by simp
qed simp

section \<open>The queue depth is never negative\<close>

definition events_upto :: "int \<Rightarrow> int \<Rightarrow> (int \<times> int) list \<Rightarrow> int" where
  "events_upto d t es = int (length (filter (\<lambda>e. snd e = d \<and> fst e \<le> t) es))"

lemma events_upto_append: "events_upto d t (xs @ ys) = events_upto d t xs + events_upto d t ys"
  by (simp add: events_upto_def)

lemma events_upto_sort: "events_upto d t (sort_key f es) = events_upto d t es"
  by (simp add: events_upto_def filter_sort)

lemma events_upto_nonneg: "0 \<le> events_upto d t es"
  by (simp add: events_upto_def)

lemma admissions_le_arrivals:
  "\<forall>r \<in> set rs. request_wf r \<Longrightarrow>
     events_upto (- 1) t (concat (map (queue_events fin) rs)) \<le> events_upto 1 t (concat (map (queue_events fin) rs))"
proof (induction rs)
  case (Cons r rs)
  have "events_upto (- 1) t (queue_events fin r) \<le> events_upto 1 t (queue_events fin r)"
    using wf_admitted_after_arrival [of r] Cons.prems
    by (force simp: events_upto_def queue_events_def split: option.splits)
  with Cons show ?case by (simp add: events_upto_append)
qed (simp add: events_upto_def)

lemma sum_deltas_le: "(\<Sum>e\<leftarrow>es. snd e) \<le> int (length (filter (\<lambda>e. snd e = 1) es))"
  if "\<forall>e \<in> set es. snd e = 1 \<or> snd e = - 1" for es :: "(int \<times> int) list"
  using that by (induction es) auto

lemma arrivals_le_requests:
  "length (filter (\<lambda>e. snd e = 1) (concat (map (queue_events fin) rs))) \<le> length rs"
proof (induction rs)
  case (Cons r rs)
  have "length (filter (\<lambda>e. snd e = 1) (queue_events fin r)) \<le> 1"
    by (auto simp: queue_events_def split: option.splits)
  with Cons show ?case by simp
qed simp

lemma queue_events_delta: "e \<in> set (concat (map (queue_events fin) rs)) \<Longrightarrow> snd e = 1 \<or> snd e = - 1"
  by (auto simp: queue_events_def split: option.splits if_splits)

text \<open>A time that separates the admissions before a cut from the arrivals after it.\<close>

lemma prefix_cut:
  assumes "sorted (map event_key (xs @ ys))" "xs \<noteq> []" "\<forall>e \<in> set (xs @ ys). snd e = 1 \<or> snd e = - 1"
  shows "\<exists>t. (\<forall>e \<in> set xs. snd e = - 1 \<longrightarrow> fst e \<le> t) \<and> (\<forall>e \<in> set ys. snd e = 1 \<longrightarrow> t < fst e)"
proof -
  from assms(2) obtain zs l where xs: "xs = zs @ [l]" by (cases xs rule: rev_cases) auto
  let ?t = "if snd l = - 1 then fst l else fst l - 1"
  have le: "event_key x \<le> event_key l" if "x \<in> set xs" for x
    using assms(1) that by (auto simp: xs sorted_append)
  have ge: "event_key l \<le> event_key y" if "y \<in> set ys" for y
    using assms(1) that by (auto simp: xs sorted_append)
  have "fst e \<le> ?t" if "e \<in> set xs" "snd e = - 1" for e
    using le [OF that(1)] that(2) assms(3) by (auto simp: xs event_key_def less_eq_prod_def)
  moreover have "?t < fst e" if "e \<in> set ys" "snd e = 1" for e
    using ge [OF that(1)] that(2) assms(3) by (auto simp: xs event_key_def less_eq_prod_def)
  ultimately show ?thesis by blast
qed

lemma sum_deltas:
  "\<forall>e \<in> set xs. snd e = 1 \<or> snd e = - 1 \<Longrightarrow> (\<forall>e \<in> set xs. snd e = - 1 \<longrightarrow> fst e \<le> t) \<Longrightarrow>
     events_upto 1 t xs - events_upto (- 1) t xs \<le> (\<Sum>e\<leftarrow>xs. snd e)"
  by (induction xs) (auto simp: events_upto_def)

lemma sweep_depth: "s_depth (fold sweep_step es s) = s_depth s + (\<Sum>e\<leftarrow>es. snd e)"
  by (induction es arbitrary: s) (auto simp: sweep_step_def Let_def split: prod.splits)

lemma queue_depth_prefix:
  assumes wf: "\<forall>r \<in> set rs. request_wf r"
    and es: "sort_key event_key (concat (map (queue_events fin) rs)) = xs @ ys"
  shows "0 \<le> s_depth (fold sweep_step xs (sweep_start first)) \<and>
    s_depth (fold sweep_step xs (sweep_start first)) \<le> int (length rs)"
proof (cases "xs = []")
  case True
  then show ?thesis by (simp add: sweep_start_def)
next
  case False
  let ?all = "concat (map (queue_events fin) rs)"
  have set: "set (xs @ ys) = set ?all" using es by (metis set_sort)
  then have deltas: "\<forall>e \<in> set (xs @ ys). snd e = 1 \<or> snd e = - 1" using queue_events_delta by blast
  have "sorted (map event_key (xs @ ys))" using es by (metis sorted_sort_key)
  from prefix_cut [OF this False deltas] obtain t where
    t: "\<forall>e \<in> set xs. snd e = - 1 \<longrightarrow> fst e \<le> t" "\<forall>e \<in> set ys. snd e = 1 \<longrightarrow> t < fst e" by blast
  have "events_upto 1 t ys = 0" using t(2) by (auto simp: events_upto_def filter_empty_conv)
  moreover have "events_upto d t (xs @ ys) = events_upto d t ?all" for d
    by (simp flip: es add: events_upto_sort)
  ultimately have "events_upto (- 1) t xs \<le> events_upto 1 t xs"
    using admissions_le_arrivals [OF wf, of t fin] events_upto_nonneg [of "- 1" t ys]
    by (metis add.right_neutral add_increasing2 events_upto_append le_add_same_cancel1 order_trans)
  moreover have "events_upto 1 t xs - events_upto (- 1) t xs \<le> (\<Sum>e\<leftarrow>xs. snd e)"
    using deltas t(1) by (intro sum_deltas) auto
  ultimately have "0 \<le> (\<Sum>e\<leftarrow>xs. snd e)" by linarith
  moreover have "length (filter (\<lambda>e. snd e = 1) xs) \<le> length (filter (\<lambda>e. snd e = 1) ?all)"
    using arg_cong [OF es, of "\<lambda>l. length (filter (\<lambda>e. snd e = 1) l)"] by (simp add: filter_sort)
  with sum_deltas_le [of xs] deltas arrivals_le_requests [of fin rs]
  have "(\<Sum>e\<leftarrow>xs. snd e) \<le> int (length rs)" by fastforce
  ultimately show ?thesis by (simp add: sweep_depth sweep_start_def)
qed

text \<open>C16: The queue depth is never negative: after any prefix of the sorted arrival and admission
  events of well-formed requests, the sweep's depth is at least zero and at most the number of
  requests; breaking ties in favour of arrivals is what makes it so.\<close>

theorem queue_depth_bounds:
  assumes "\<forall>r \<in> set rs. request_wf r"
    and "sort_key event_key (concat (map (queue_events fin) rs)) = xs @ ys"
  shows "0 \<le> s_depth (fold sweep_step xs (sweep_start first)) \<and>
    s_depth (fold sweep_step xs (sweep_start first)) \<le> int (length rs)"
  using assms by (rule queue_depth_prefix)

theorem queue_depth_bounds_witness:
  "0 \<le> s_depth (fold sweep_step [] (sweep_start 0)) \<and>
   s_depth (fold sweep_step [] (sweep_start 0)) \<le> int (length [sample_request 4 [10, 20]])"
proof (rule queue_depth_bounds [OF _ append_Nil [symmetric]])
  show "\<forall>r \<in> set [sample_request 4 [10, 20]]. request_wf r"
    using accepted_request_wf [OF sample_request_accepted [of 4 "[10, 20]" 1]] by simp
qed

lemma sweep_maximum:
  "s_maximum (fold sweep_step es s) \<le> b \<longleftrightarrow>
     s_maximum s \<le> b \<and> (\<forall>xs ys. es = xs @ ys \<longrightarrow> xs \<noteq> [] \<longrightarrow> s_depth (fold sweep_step xs s) \<le> b)"
proof (induction es arbitrary: s)
  case (Cons e es)
  have step: "s_maximum (sweep_step e s) = max (s_maximum s) (s_depth (sweep_step e s))"
    by (simp add: sweep_step_def Let_def split: prod.splits)
  have "(\<forall>xs ys. e # es = xs @ ys \<longrightarrow> xs \<noteq> [] \<longrightarrow> s_depth (fold sweep_step xs s) \<le> b) \<longleftrightarrow>
    s_depth (sweep_step e s) \<le> b \<and>
    (\<forall>xs ys. es = xs @ ys \<longrightarrow> xs \<noteq> [] \<longrightarrow> s_depth (fold sweep_step xs (sweep_step e s)) \<le> b)"
    (is "?L \<longleftrightarrow> ?R")
  proof
    assume L: ?L
    have "s_depth (fold sweep_step (e # xs) s) \<le> b" if "es = xs @ ys" for xs ys
      using L that by (metis append_Cons list.distinct(1))
    then show ?R by fastforce
  next
    assume ?R
    then show ?L by (auto simp: Cons_eq_append_conv)
  qed
  with Cons step show ?case by auto
qed auto

lemma sweep_maximum_start: "s_maximum s \<le> s_maximum (fold sweep_step es s)"
proof (induction es arbitrary: s)
  case (Cons e es)
  have "s_maximum s \<le> s_maximum (sweep_step e s)"
    by (simp add: sweep_step_def Let_def split: prod.splits)
  also have "\<dots> \<le> s_maximum (fold sweep_step es (sweep_step e s))" by (rule Cons)
  finally show ?case by simp
qed simp

lemma queue_maximum_bounds:
  assumes "\<forall>r \<in> set rs. request_wf r"
  shows "0 \<le> s_maximum (queue_sweep first fin rs)" "s_maximum (queue_sweep first fin rs) \<le> int (length rs)"
proof -
  let ?es = "sort_key event_key (concat (map (queue_events fin) rs))"
  have q: "s_maximum (queue_sweep first fin rs) = s_maximum (fold sweep_step ?es (sweep_start first))"
    by (simp add: queue_sweep_def Let_def sweep_start_def)
  show "0 \<le> s_maximum (queue_sweep first fin rs)"
    using sweep_maximum_start [of "sweep_start first" ?es] by (simp add: q sweep_start_def)
  have "\<forall>xs ys. ?es = xs @ ys \<longrightarrow> s_depth (fold sweep_step xs (sweep_start first)) \<le> int (length rs)"
    using queue_depth_prefix [OF assms] by blast
  then show "s_maximum (queue_sweep first fin rs) \<le> int (length rs)"
    by (simp add: q sweep_maximum, simp add: sweep_start_def)
qed

section \<open>Objectives\<close>

definition slos_relaxed :: "json \<Rightarrow> json \<Rightarrow> bool" where
  "slos_relaxed slos slos' \<longleftrightarrow> list_all (\<lambda>name. case slo_threshold slos' name of
     None \<Rightarrow> True
   | Some b \<Rightarrow> (case slo_threshold slos name of None \<Rightarrow> False | Some a \<Rightarrow> a \<le> b)) SLO_NAMES"

lemma slo_violated_mono:
  "slos_relaxed slos slos' \<Longrightarrow> name \<in> set SLO_NAMES \<Longrightarrow> slo_violated slos' name e \<Longrightarrow> slo_violated slos name e"
  by (auto simp: slos_relaxed_def list_all_iff slo_violated_def split: option.splits)

lemma slo_passed_mono: "slos_relaxed slos slos' \<Longrightarrow> slo_passed slos e \<Longrightarrow> slo_passed slos' e"
  unfolding slo_passed_def list_all_iff using slo_violated_mono by blast

lemma count_if_mono: "(\<And>x. P x \<Longrightarrow> Q x) \<Longrightarrow> count_if P xs \<le> count_if Q xs"
  by (induction xs) auto

lemma count_if_le: "0 \<le> count_if P xs" "count_if P xs \<le> int (length xs)"
  by (simp_all add: count_if_def)


definition sample_enriched :: enriched where
  "sample_enriched = (sample_request 0 [10, 20],
     \<lparr>m_queue_delay = Some 0, m_ttft = Some 10, m_e2e = Some 20, m_tpot = Some 10\<rparr>)"


section \<open>What the analysis reports\<close>

lemma fold_min_le: "fold min xs y \<le> (y :: 'a :: linorder)" "x \<in> set xs \<Longrightarrow> fold min xs y \<le> x"
proof (induction xs arbitrary: y)
  case (Cons z xs)
  { case 1 show ?case using Cons(1) [of "min z y"] by simp }
  { case 2 then show ?case using Cons(1) [of "min z y"] Cons(2) [of "min z y"] by auto }
qed auto

lemma min_default_le: "x \<in> set xs \<Longrightarrow> min_default d xs \<le> x"
  by (cases xs) (auto simp: min_default_def fold_min_le)

lemma enrich_Inr: "enrich r = Inr e \<Longrightarrow> fst e = r"
  by (auto simp: enrich_def)

lemma rmap_enrich: "rmap enrich rs = Inr es \<Longrightarrow> map fst es = rs"
proof (induction rs arbitrary: es)
  case (Cons r rs)
  then obtain e es' where "enrich r = Inr e" "rmap enrich rs = Inr es'" "es = e # es'" by auto
  with Cons.IH [of es'] enrich_Inr [of r e] show ?case by simp
qed simp

lemma ratio_unit: "0 \<le> n \<Longrightarrow> n \<le> d \<Longrightarrow> ratio n d = Inr (Some q) \<Longrightarrow> 0 \<le> q \<and> q \<le> 1"
  using py_truediv_unit [of n d] by (auto simp: ratio_def split: if_splits)

definition analysis_ok :: "json list \<Rightarrow> json \<Rightarrow> analysis \<Rightarrow> bool" where
  "analysis_ok reqs sm a \<longleftrightarrow>
     an_request_count a = int (length reqs) \<and>
     an_completed a = count_if (in_state ''Finished'') reqs \<and>
     an_completed a + an_unfinished a = an_request_count a \<and>
     0 \<le> an_good a \<and> an_good a \<le> an_completed a \<and>
     (\<forall>q. an_goodput_ratio a = Some q \<longrightarrow> 0 \<le> q \<and> q \<le> 1) \<and>
     (\<forall>q. an_completion_ratio a = Some q \<longrightarrow> 0 \<le> q \<and> q \<le> 1) \<and>
     (\<forall>(name, n) \<in> set (an_violations a). 0 \<le> n \<and> n \<le> an_completed a - an_good a) \<and>
     0 \<le> an_maximum_depth a \<and> an_maximum_depth a \<le> an_request_count a \<and>
     (\<forall>q. an_average_depth a = Some q \<longrightarrow>
        (let first = min_default 0 (map r_arrival reqs); window = jint sm ''makespan_us'' - first in
         0 < window \<and> py_truediv (total_of (waiting_time (jint sm ''makespan_us'')) reqs) window = Inr q))"

lemma violations_bound:
  "name \<in> set SLO_NAMES \<Longrightarrow>
     count_if (slo_violated slos name) es + count_if (slo_passed slos) es \<le> int (length es)"
proof (induction es)
  case (Cons e es)
  then have "\<not> (slo_violated slos name e \<and> slo_passed slos e)"
    by (auto simp: slo_passed_def list_all_iff)
  with Cons show ?case by auto
qed simp

lemma analyze_stream_ok:
  assumes an: "analyze_stream slos reqs its sm = Inr a" and wf: "\<forall>r \<in> set reqs. request_wf r"
  shows "analysis_ok reqs sm a"
proof -
  let ?first = "min_default 0 (map r_arrival reqs)" and ?fin = "jint sm ''makespan_us''"
  obtain es where es: "rmap enrich reqs = Inr es"
  proof (cases "rmap enrich reqs")
    case (Inl e)
    with an have "Inl e = Inr a" by (simp only: analyze_stream_def rbind_Inl)
    then show ?thesis by simp
  qed
  let ?f = "filter (in_state ''Finished'' \<circ> fst) es"
  let ?s = "queue_sweep ?first ?fin reqs"
  have reqs: "reqs = map fst es" using rmap_enrich [OF es] by simp
  have cnt: "int (length ?f) = count_if (in_state ''Finished'') reqs" "length es = length reqs"
    by (simp_all add: reqs count_if_def filter_map comp_def)
  from an obtain completion goodput depth where
    r: "ratio (int (length ?f)) (int (length es)) = Inr completion"
      "ratio (count_if (slo_passed slos) ?f) (int (length ?f)) = Inr goodput"
      "(if ?fin - ?first \<le> 0 then Inr None else ratio (s_weighted ?s) (?fin - ?first)) = Inr depth"
    and a: "an_request_count a = int (length es)" "an_completed a = int (length ?f)"
      "an_unfinished a = int (length es) - int (length ?f)"
      "an_good a = count_if (slo_passed slos) ?f" "an_goodput_ratio a = goodput"
      "an_completion_ratio a = completion" "an_average_depth a = depth"
      "an_violations a = map (\<lambda>name. (name, count_if (slo_violated slos name) ?f)) SLO_NAMES"
      "an_maximum_depth a = s_maximum ?s"
    unfolding analyze_stream_def es rbind_Inr Let_def rbind_Inr_iff sum.inject
    by - (elim exE conjE, rule that, assumption, assumption, assumption,
        (drule sym [of _ a], simp only: analysis.select_convs)+)
  have le: "length ?f \<le> length es" by simp
  have good: "0 \<le> an_good a \<and> an_good a \<le> an_completed a"
    by (simp add: a count_if_le)
  have units: "\<forall>q. an_goodput_ratio a = Some q \<longrightarrow> 0 \<le> q \<and> q \<le> 1"
    "\<forall>q. an_completion_ratio a = Some q \<longrightarrow> 0 \<le> q \<and> q \<le> 1"
    using r(1,2) ratio_unit [of "count_if (slo_passed slos) ?f" "int (length ?f)"]
      ratio_unit [of "int (length ?f)" "int (length es)"] le count_if_le [of "slo_passed slos" ?f]
    by (auto simp: a simp del: length_filter_le)
  have viol: "\<forall>(name, n) \<in> set (an_violations a). 0 \<le> n \<and> n \<le> an_completed a - an_good a"
  proof -
    have "0 \<le> count_if (slo_violated slos name) ?f \<and>
        count_if (slo_violated slos name) ?f \<le> an_completed a - an_good a" if "name \<in> set SLO_NAMES" for name
      using violations_bound [OF that, of slos ?f] count_if_le(1) by (simp add: a)
    then show ?thesis by (auto simp: a(8))
  qed
  have depth: "0 < ?fin - ?first \<and> py_truediv (total_of (waiting_time ?fin) reqs) (?fin - ?first) = Inr q"
    if "an_average_depth a = Some q" for q
  proof -
    have "\<forall>r \<in> set reqs. request_wf r \<and> ?first \<le> r_arrival r"
      using wf by (auto intro: min_default_le)
    moreover have w: "0 < ?fin - ?first" using that r(3) by (auto simp: a split: if_splits)
    ultimately have "s_weighted ?s = total_of (waiting_time ?fin) reqs"
      by (intro queue_sweep_waiting) auto
    with r(3) w that show ?thesis by (auto simp: a ratio_def split: if_splits)
  qed
  show ?thesis
    unfolding analysis_ok_def Let_def
    using a cnt good units viol depth queue_maximum_bounds [OF wf, of ?first ?fin] by simp
qed


section \<open>The analysis of an accepted stream returns\<close>

lemma py_float_small: "0 \<le> a \<Longrightarrow> a \<le> 2 ^ 53 \<Longrightarrow> \<exists>q. py_float a = Inr q"
  using py_truediv_small [of a 1] by (auto simp: py_float_def py_truediv_def split: option.splits)

lemma safe_rate_small:
  "0 \<le> n \<Longrightarrow> n \<le> 2 ^ 53 \<Longrightarrow> d \<le> 2 ^ 53 \<Longrightarrow> \<exists>v. safe_rate n d = Inr v"
  using py_float_small [of n] py_float_small [of d] by (auto simp: safe_rate_def)

lemma ratio_total: "0 \<le> n \<Longrightarrow> n \<le> d \<Longrightarrow> \<exists>v. ratio n d = Inr v"
  using py_truediv_unit(1) [of n d] by (auto simp: ratio_def)

lemma ratio_small: "0 \<le> n \<Longrightarrow> n \<le> 2 ^ 53 \<Longrightarrow> 0 \<le> d \<Longrightarrow> \<exists>v. ratio n d = Inr v"
  using py_truediv_small [of n d] by (auto simp: ratio_def)

lemma rbind_total: "\<exists>v. r = Inr v \<Longrightarrow> \<forall>v. \<exists>a. k v = Inr a \<Longrightarrow> \<exists>a. rbind r k = Inr a"
  by auto

lemma percentile_range: "\<forall>(label, p) \<in> set PERCENTILES. 0 < p \<and> p \<le> 1"
  by code_simp

lemma nearest_rank_total: "0 < p \<Longrightarrow> p \<le> 1 \<Longrightarrow> \<exists>v. nearest_rank xs p = Inr v"
  by (auto simp: nearest_rank_def Let_def)

lemma rmap_total: "\<forall>x \<in> set xs. \<exists>y. f x = Inr y \<Longrightarrow> \<exists>ys. rmap f xs = Inr ys"
  by (induction xs) auto

lemma percentiles_total: "\<exists>v. percentiles f es = Inr v"
  unfolding percentiles_def
proof (rule rmap_total, rule ballI)
  fix x assume x: "x \<in> set PERCENTILES"
  obtain label p where lp: "x = (label, p)" by fastforce
  with x percentile_range have "0 < p" "p \<le> 1" by auto
  with nearest_rank_total lp show "\<exists>y. (case x of (label, p) \<Rightarrow>
      rbind (nearest_rank (List.map_filter f es) p) (\<lambda>v. Inr (label, v))) = Inr y" by fastforce
qed

lemma enrich_total:
  assumes "check_request ext known line r = None"
  shows "\<exists>e. enrich r = Inr e"
proof -
  from assms obtain ctx where i: "check_request_identity ctx ext known r = None"
    and d: "check_request_derived ctx r = None"
    by (auto simp: check_request_def Let_def)
  from d obtain mt where mt: "request_metrics r = Inr mt"
    by (auto simp: check_request_derived_def split: sum.splits)
  from i have "has_exactly r REQUEST_RECORD_FIELDS"
    by (simp add: check_request_identity_def Let_def)
  then have "\<forall>k \<in> set REQUEST_RECORD_FIELDS. jhas r k" by (simp add: has_exactly_jhas)
  then have "keys_missing r [''request_id'', ''arrival_time_us'', ''generated_tokens'',
        ''final_state'', ''prompt_tokens_original'', ''prompt_tokens_matched'', ''prompt_tokens_scheduled''] = []"
    by (simp add: keys_missing_Nil REQUEST_RECORD_FIELDS_def)
  with mt show ?thesis by (simp add: enrich_def)
qed

lemma fold_max_le: "fold max xs y \<le> b \<longleftrightarrow> y \<le> b \<and> (\<forall>x \<in> set xs. x \<le> b)" for y b :: "'a::linorder"
  by (induction xs arbitrary: y) auto

lemma max_default_le: "max_default d xs \<le> b" if "\<forall>x \<in> set xs. x \<le> b" "d \<le> b" for b :: "'a::linorder"
  using that by (auto simp: max_default_def fold_max_le split: list.splits)

lemma fold_min_ge: "b \<le> fold min xs y \<longleftrightarrow> b \<le> y \<and> (\<forall>x \<in> set xs. b \<le> x)" for y b :: "'a::linorder"
  by (induction xs arbitrary: y) auto

lemma min_default_ge: "b \<le> min_default d xs" if "\<forall>x \<in> set xs. b \<le> x" "b \<le> d" for b :: "'a::linorder"
  using that by (auto simp: min_default_def fold_min_ge split: list.splits)

lemma total_of_mono: "(\<And>x. x \<in> set xs \<Longrightarrow> f x \<le> g x) \<Longrightarrow> total_of f xs \<le> total_of g xs"
  by (induction xs) (force simp: total_of_simps intro: add_mono)+

lemma total_of_nonneg: "(\<And>x. x \<in> set xs \<Longrightarrow> 0 \<le> f x) \<Longrightarrow> 0 \<le> total_of f xs"
  by (induction xs) (auto intro: add_nonneg_nonneg)

lemma total_of_filter_le:
  "(\<And>x. x \<in> set xs \<Longrightarrow> 0 \<le> f x) \<Longrightarrow> total_of f (filter P xs) \<le> total_of f xs"
  by (induction xs) (auto intro: add_increasing)

text \<open>The sizes for which every count, sum and time is a float without rounding.\<close>

definition stream_small :: "json list \<Rightarrow> json \<Rightarrow> bool" where
  "stream_small reqs sm \<longleftrightarrow>
     int (length reqs) \<le> 2 ^ 53 \<and> jint sm ''makespan_us'' \<le> 2 ^ 53 \<and>
     (\<forall>r \<in> set reqs. r_arrival r \<le> 2 ^ 53) \<and>
     total_of (\<lambda>r. r_generated r + r_scheduled r) reqs \<le> 2 ^ 53 \<and>
     total_of (waiting_time (jint sm ''makespan_us'')) reqs \<le> 2 ^ 53"

lemma waiting_time_nonneg: "request_wf r \<Longrightarrow> 0 \<le> waiting_time fin r"
  by (auto simp: waiting_time_def dest: wf_admitted_after_arrival split: option.splits)

lemma analyze_stream_total:
  assumes es: "rmap enrich reqs = Inr es" and wf: "\<forall>r \<in> set reqs. request_wf r"
    and small: "stream_small reqs sm"
    and fin: "\<forall>n \<in> set (finish_times reqs). n \<le> jint sm ''makespan_us''"
    and hits: "0 \<le> jint sm ''prefix_lookup_hits''" "0 \<le> jint sm ''prefix_lookup_misses''"
  shows "\<exists>a. analyze_stream slos reqs its sm = Inr a"
proof -
  let ?first = "min_default 0 (map r_arrival reqs)" and ?fin = "jint sm ''makespan_us''"
  let ?f = "filter (in_state ''Finished'' \<circ> fst) es"
  let ?last = "max_default ?first (map r_arrival reqs)"
  let ?done = "int (length ?f)" and ?good = "count_if (slo_passed slos) ?f"
  let ?dur = "max_default ?first (finish_times (map fst ?f)) - ?first"
  have reqs: "map fst es = reqs" by (rule rmap_enrich [OF es])
  then have len: "length es = length reqs" by (metis length_map)
  have arr: "0 \<le> r_arrival r" "0 \<le> r_generated r" "0 \<le> r_scheduled r" if "r \<in> set reqs" for r
    using wf that by (auto simp: request_wf_def)
  have first: "0 \<le> ?first" "?first \<le> 2 ^ 53"
    using arr(1) small min_default_le [of "r_arrival (hd reqs)" "map r_arrival reqs" 0]
    by (auto simp: stream_small_def min_default_def fold_min_ge intro!: min_default_ge split: list.splits)
  have last: "?last - ?first \<le> 2 ^ 53"
    using max_default_le [of "map r_arrival reqs" "2 ^ 53" ?first] first small by (simp add: stream_small_def)
  have "set (finish_times (map fst ?f)) \<subseteq> set (finish_times reqs)"
    by (auto simp: finish_times_def List.map_filter_def reqs [symmetric])
  then have dur: "?dur \<le> 2 ^ 53"
    using max_default_le [of "finish_times (map fst ?f)" "2 ^ 53" ?first] first fin small
    by (force simp: stream_small_def)
  have le: "length ?f \<le> length reqs" using length_filter_le [of _ es] by (simp add: len)
  have good: "0 \<le> ?good" "?good \<le> ?done" by (simp_all add: count_if_le)
  have tot: "0 \<le> total_of (r_generated \<circ> fst) ?f" "0 \<le> total_of (r_scheduled \<circ> fst) ?f"
    using arr(2,3) by (intro total_of_nonneg; force simp: reqs [symmetric])+
  have sum: "total_of (r_generated \<circ> fst) ?f + total_of (r_scheduled \<circ> fst) ?f
      \<le> total_of (\<lambda>r. r_generated r + r_scheduled r) reqs"
  proof -
    have "total_of (g \<circ> fst) ?f \<le> total_of g reqs" if "\<And>r. r \<in> set reqs \<Longrightarrow> 0 \<le> g r" for g
      using total_of_filter_le [of es "g \<circ> fst"] that by (simp add: reqs [symmetric] total_of_def comp_def)
    from add_mono [OF this [of r_generated] this [of r_scheduled]] arr show ?thesis
      by (simp add: total_of_def sum_list_addf)
  qed
  have "s_weighted (queue_sweep ?first ?fin reqs) = total_of (waiting_time ?fin) reqs"
    if "?first \<le> ?fin" using wf that by (intro queue_sweep_waiting) (auto intro: min_default_le)
  moreover have "0 \<le> total_of (waiting_time ?fin) reqs"
    using wf by (intro total_of_nonneg waiting_time_nonneg) blast
  ultimately have depth: "\<exists>v. (if ?fin - ?first \<le> 0 then Inr None
      else ratio (s_weighted (queue_sweep ?first ?fin reqs)) (?fin - ?first)) = Inr v"
    using ratio_small [of "total_of (waiting_time ?fin) reqs" "?fin - ?first"] small
    by (auto simp: stream_small_def)
  have small': "int (length reqs) \<le> 2 ^ 53"
    "total_of (\<lambda>r. r_generated r + r_scheduled r) reqs \<le> 2 ^ 53" using small by (simp_all add: stream_small_def)
  note rates = safe_rate_small [OF _ _ last, of "max 0 (int (length es) - 1)"]
    safe_rate_small [OF _ _ dur, of ?done] safe_rate_small [OF _ _ dur, of ?good]
    safe_rate_small [OF _ _ dur, of "total_of (r_generated \<circ> fst) ?f"]
    safe_rate_small [OF _ _ dur, of "total_of (r_generated \<circ> fst) ?f + total_of (r_scheduled \<circ> fst) ?f"]
  have b: "0 \<le> max 0 (int (length es) - 1)" "max 0 (int (length es) - 1) \<le> 2 ^ 53"
    "0 \<le> ?done" "?done \<le> 2 ^ 53" "?good \<le> 2 ^ 53"
    "total_of (r_generated \<circ> fst) ?f \<le> 2 ^ 53"
    "0 \<le> total_of (r_generated \<circ> fst) ?f + total_of (r_scheduled \<circ> fst) ?f"
    "total_of (r_generated \<circ> fst) ?f + total_of (r_scheduled \<circ> fst) ?f \<le> 2 ^ 53"
    using small' le good tot sum len by linarith+
  have rates': "\<exists>v. safe_rate (max 0 (int (length es) - 1)) (?last - ?first) = Inr v"
    "\<exists>v. safe_rate ?done ?dur = Inr v" "\<exists>v. safe_rate ?good ?dur = Inr v"
    "\<exists>v. safe_rate (total_of (r_generated \<circ> fst) ?f) ?dur = Inr v"
    "\<exists>v. safe_rate (total_of (r_generated \<circ> fst) ?f + total_of (r_scheduled \<circ> fst) ?f) ?dur = Inr v"
    using rates(1) [OF b(1,2)] rates(2) [OF b(3,4)] rates(3) [OF good(1) b(5)] rates(4) [OF tot(1) b(6)]
      rates(5) [OF b(7,8)] by blast+
  have ratios: "\<exists>v. ratio ?done (int (length es)) = Inr v" "\<exists>v. ratio ?good ?done = Inr v"
    "\<exists>v. ratio (jint sm ''prefix_lookup_hits'') (jint sm ''prefix_lookup_hits'' + jint sm ''prefix_lookup_misses'') = Inr v"
    using ratio_total [of ?done "int (length es)"] ratio_total [OF good] hits le len
      ratio_total [of "jint sm ''prefix_lookup_hits''" "jint sm ''prefix_lookup_hits'' + jint sm ''prefix_lookup_misses''"]
    by auto
  show ?thesis
    unfolding analyze_stream_def es rbind_Inr Let_def
    by (intro rbind_total allI depth rates' ratios percentiles_total) (rule exI, rule refl)
qed


lemma sample_arrival [simp]: "r_arrival (sample_request a ts) = 0"
  by (simp add: sample_request_def render_request_def r_defs finished_life_def decoding_life_def
      admitted_life_def submitted_def)

lemma sample_stream_small: "stream_small [sample_request 0 [10, 20]] (sample_summary 20 2 3)"
  by (simp add: stream_small_def summary_fields jint_def waiting_time_def)


text \<open>C19: The analysis of an accepted stream is consistent: completed and unfinished requests add up,
  good requests are among the completed ones and violate no objective, the ratios lie between 0 and 1
  after float rounding, the maximum queue depth lies between 0 and the number of requests, and the
  average depth is the rounded quotient of the total waiting time by the window.\<close>

theorem analysis_consistent:
  assumes "analyze_records fs config workload slos records = Inr a"
  shows "\<exists>reqs its sm. validate_native_records fs config workload records = Inr (reqs, its, sm) \<and>
    analysis_ok reqs sm a"
proof -
  from assms obtain reqs its sm where
    v: "validate_native_records fs config workload records = Inr (reqs, its, sm)"
    and a: "analyze_stream slos reqs its sm = Inr a"
    by (auto simp: analyze_records_def)
  with accepted_stream_requests(3) [OF v] show ?thesis by (blast intro: analyze_stream_ok)
qed

theorem analysis_consistent_witness:
  "\<exists>a reqs its sm. analyze_records sample_repo (Some sample_config) None (JObj []) sample_stream = Inr a \<and>
     validate_native_records sample_repo (Some sample_config) None sample_stream = Inr (reqs, its, sm) \<and>
     analysis_ok reqs sm a"
proof -
  obtain es where "rmap enrich [sample_request 0 [10, 20]] = Inr es"
    using enrich_total [OF sample_request_accepted [of 0 "[10, 20]" 1]] by auto
  then obtain a where "analyze_stream (JObj []) [sample_request 0 [10, 20]] sample_iterations (sample_summary 20 2 3) = Inr a"
    using analyze_stream_total [OF _ _ sample_stream_small, of es "JObj []" sample_iterations]
      accepted_stream_requests(3) [OF sample_stream_accepted]
    by (auto simp: finish_times_def map_filter_simps summary_fields jint_def)
  then have "analyze_records sample_repo (Some sample_config) None (JObj []) sample_stream = Inr a"
    by (simp add: analyze_records_def sample_stream_accepted)
  with analysis_consistent show ?thesis by blast
qed

end
