(* ===== verification/Workload.thy ===== *)
theory Workload
  imports Serving_Schema Serving_Config
begin

unbundle bit_operations_syntax

text \<open>
  Serving workloads of \<open>benchmarks/serving_common.py\<close>: \<open>_arrival_times\<close>, \<open>_shared_tokens\<close>,
  \<open>generate_records\<close>, \<open>validate_workload_record\<close> and \<open>read_workload\<close>.

  Python's random module is the parameter \<open>rng\<close>: \<open>exp_delta seed k mean\<close> is the \<open>k\<close>-th value of
  \<open>math.floor(-mean * math.log1p(-rng.random()))\<close> for \<open>random.Random(seed)\<close>, and
  \<open>randint_at seed k lo hi\<close> the \<open>k\<close>-th call of \<open>randint(lo, hi)\<close>. What the code relies on is
  \<open>rng_ok\<close>: increments are not negative and draws stay in their range.
\<close>

record rng =
  exp_delta :: "json \<Rightarrow> nat \<Rightarrow> int \<Rightarrow> int"
  randint_at :: "int \<Rightarrow> nat \<Rightarrow> int \<Rightarrow> int \<Rightarrow> int"

definition rng_ok :: "rng \<Rightarrow> bool" where
  "rng_ok g \<longleftrightarrow> (\<forall>seed k mean. 1 \<le> mean \<longrightarrow> 0 \<le> exp_delta g seed k mean) \<and>
     (\<forall>seed k lo hi. lo \<le> hi \<longrightarrow> lo \<le> randint_at g seed k lo hi \<and> randint_at g seed k lo hi \<le> hi)"

section \<open>Arrival times\<close>

definition exponential_times :: "rng \<Rightarrow> json \<Rightarrow> int \<Rightarrow> int \<Rightarrow> nat \<Rightarrow> int list" where
  "exponential_times g seed start mean count =
     map (\<lambda>index. start + (\<Sum>k\<leftarrow>[0..<index]. exp_delta g seed k mean)) [0..<count]"

definition require_int_value :: "json \<Rightarrow> string \<Rightarrow> int \<Rightarrow> int res" where
  "require_int_value v name minimum = checked (require_int v name minimum) (Inr (int_of v))"

definition arrival_times :: "rng \<Rightarrow> json \<Rightarrow> nat \<Rightarrow> json \<Rightarrow> int list res" where
  "arrival_times g config count seed =
     (let arrival = jget_default config ''arrival'' (JObj []); mode = jget arrival ''mode'';
          jstart = jget_default arrival ''start_time_us'' (JInt 0); start = int_of jstart
      in checked (first_error
          [reject (\<not> is_JObj arrival) (ValidationError ''arrival must be an object''),
           require_str mode ''arrival.mode'' False,
           reject (str_of mode \<notin> set ARRIVAL_MODELS) (ValidationError ''arrival.mode must be one of''),
           require_int jstart ''arrival.start_time_us'' 0])
        (if mode = JStr ''burst'' then Inr (replicate count start)
         else if mode = JStr ''fixed_interval'' then
           rbind (require_int_value (jget arrival ''interval_us'') ''arrival.interval_us'' 1)
             (\<lambda>interval. Inr (map (\<lambda>index. start + int index * interval) [0..<count]))
         else if mode = JStr ''manual'' then
           (let ts = jget arrival ''timestamps_us'' in checked
              (reject (\<not> is_JList ts \<or> length (list_of ts) \<noteq> count)
                 (ValidationError ''arrival.timestamps_us must have request_count entries''))
              (rbind (rmap (\<lambda>v. require_int_value v ''arrival.timestamps_us'' 0) (list_of ts))
                (\<lambda>known. checked (reject (known \<noteq> sort known)
                     (ValidationError ''manual arrival timestamps must be non-decreasing''))
                   (Inr known))))
         else rbind (require_int_value (jget arrival ''mean_interval_us'') ''arrival.mean_interval_us'' 1)
                (\<lambda>mean. Inr (exponential_times g seed start mean count))))"

section \<open>Workload records\<close>

text \<open>\<open>raise ValidationError(prefix + str(error))\<close>\<close>

definition prefix_error :: "string \<Rightarrow> check \<Rightarrow> check" where
  "prefix_error p c = (case c of Some (ValidationError m) \<Rightarrow> Some (ValidationError (p @ m)) | _ \<Rightarrow> c)"

definition WORKLOAD_FIELDS :: "string list" where
  "WORKLOAD_FIELDS =
    [''schema_version'', ''request_id'', ''arrival_time_us'', ''prompt_token_count'', ''prompt_tokens'',
     ''max_new_tokens'', ''workload_class'', ''prefix_group'', ''deadline_us'', ''metadata'']"

definition check_prompt_token :: "json \<Rightarrow> check" where
  "check_prompt_token token = first_error
     [require_int token ''prompt_tokens'' (- (2 ^ 31)),
      reject (2 ^ 31 - 1 < int_of token) (ValidationError ''prompt_tokens exceeds signed 32-bit range'')]"

definition check_workload_record :: "nat \<Rightarrow> json \<Rightarrow> check" where
  "check_workload_record line record =
     prefix_error (''JSONL line '' @ str_nat line @ '': '') (let g = jget record in first_error
      [reject (\<not> is_JObj record) (ValidationError ''record must be an object''),
       reject (keys_outside record WORKLOAD_FIELDS \<noteq> []) (ValidationError ''unknown fields''),
       reject (g ''schema_version'' \<noteq> JStr WORKLOAD_SCHEMA_VERSION)
         (ValidationError ''incompatible schema_version''),
       require_str (g ''request_id'') ''request_id'' False,
       require_int (g ''arrival_time_us'') ''arrival_time_us'' 0,
       require_int (g ''prompt_token_count'') ''prompt_token_count'' 0,
       require_int (g ''max_new_tokens'') ''max_new_tokens'' 0,
       require_str (g ''workload_class'') ''workload_class'' False,
       reject (str_of (g ''workload_class'') \<notin> set WORKLOAD_CLASSES)
         (ValidationError ''unknown workload_class''),
       (if \<not> jhas record ''prompt_tokens'' then None
        else first_error
          [reject (\<not> is_JList (g ''prompt_tokens'')) (ValidationError ''prompt_tokens must be an array''),
           first_error (map check_prompt_token (list_of (g ''prompt_tokens''))),
           reject (int (length (list_of (g ''prompt_tokens''))) \<noteq> int_of (g ''prompt_token_count''))
             (ValidationError ''prompt_token_count must equal len(prompt_tokens)'')]),
       (if jhas record ''prefix_group'' then require_str (g ''prefix_group'') ''prefix_group'' False else None),
       (if jhas record ''deadline_us'' then require_int (g ''deadline_us'') ''deadline_us'' 0 else None),
       reject (jhas record ''metadata'' \<and> \<not> is_JObj (g ''metadata''))
         (ValidationError ''metadata must be an object'')])"

definition validate_workload_record :: "nat \<Rightarrow> json \<Rightarrow> json res" where
  "validate_workload_record line record = checked (check_workload_record line record) (Inr record)"

section \<open>The generator\<close>

definition shared_tokens :: "int \<Rightarrow> nat \<Rightarrow> int \<Rightarrow> int list" where
  "shared_tokens grp len base = map (\<lambda>index. base + grp * 10000 + int index) [0..<len]"

text \<open>\<open>f"{n:04d}"\<close>\<close>

definition pad4 :: "nat \<Rightarrow> string" where
  "pad4 n = replicate (4 - length (str_nat n)) (CHR ''0'') @ str_nat n"

text \<open>\<open>record.update(...)\<close>\<close>

definition jupdate :: "json \<Rightarrow> (string \<times> json) list \<Rightarrow> json" where
  "jupdate r kvs = fold (\<lambda>(k, w) v. jset v k w) kvs r"

definition counts :: "int \<Rightarrow> int \<Rightarrow> (string \<times> json) list" where
  "counts prompt max_new = [(''prompt_token_count'', JInt prompt), (''max_new_tokens'', JInt max_new)]"

definition tokens_update :: "int list \<Rightarrow> int \<Rightarrow> string \<Rightarrow> (string \<times> json) list" where
  "tokens_update tokens max_new grp =
    [(''prompt_token_count'', JInt (int (length tokens))), (''prompt_tokens'', jints tokens),
     (''max_new_tokens'', JInt max_new), (''prefix_group'', JStr grp)]"

definition class_update :: "rng \<Rightarrow> int \<Rightarrow> string \<Rightarrow> nat \<Rightarrow> (string \<times> json) list" where
  "class_update g seed cls n =
     (let index = int n; draw = randint_at g (seed XOR 0x5EEDC0DE) in
      if cls = ''chat'' then counts (draw (2 * n) 12 80) (draw (2 * n + 1) 16 64)
      else if cls = ''shared_system_prompt'' then
        tokens_update (shared_tokens 0 64 10000 @ shared_tokens index (8 + n mod 5) 20000)
          (16 + index mod 17) ''shared-system-v1''
      else if cls = ''coding_agent'' then
        (let grp = index mod 2 in
         tokens_update (shared_tokens grp 128 30000 @ shared_tokens index (24 + n mod 17) 50000)
           (64 + index mod 65) (''coding-tools-'' @ str_int grp))
      else if cls = ''burst'' then counts (16 + (index mod 4) * 8) (8 + index mod 8)
      else if cls = ''overload'' then counts (48 + index mod 33) (48 + index mod 49)
      else
        (let kind = n mod 4 in
         if kind = 0 then counts (16 + index mod 48) (16 + index mod 24)
         else if kind = 1 then counts (192 + index mod 65) (12 + index mod 12)
         else if kind = 2 then
           tokens_update (shared_tokens 0 96 70000 @ shared_tokens index (16 + n mod 9) 80000)
             (48 + index mod 49) ''mixed-coding''
         else counts (24 + index mod 40) (80 + index mod 49)))"

definition generated_record :: "rng \<Rightarrow> int \<Rightarrow> string \<Rightarrow> nat \<Rightarrow> int \<Rightarrow> json" where
  "generated_record g seed cls n arrival = jupdate (JObj
     [(''schema_version'', JStr WORKLOAD_SCHEMA_VERSION), (''request_id'', JStr (cls @ ''-'' @ pad4 n)),
      (''arrival_time_us'', JInt arrival), (''prompt_token_count'', JInt 0), (''max_new_tokens'', JInt 0),
      (''workload_class'', JStr cls)]) (class_update g seed cls n)"

definition GENERATOR_FIELDS :: "string list" where
  "GENERATOR_FIELDS = [''schema_version'', ''workload_class'', ''request_count'', ''seed'', ''arrival'']"

definition check_generator_config :: "json \<Rightarrow> check" where
  "check_generator_config config = (let f = jget config in first_error
     [reject (keys_outside config GENERATOR_FIELDS \<noteq> []) (ValidationError ''unknown generator fields''),
      reject (f ''schema_version'' \<noteq> JStr WORKLOAD_SCHEMA_VERSION)
        (ValidationError ''schema_version must be serving-workload-v1''),
      require_str (f ''workload_class'') ''workload_class'' False,
      reject (str_of (f ''workload_class'') \<notin> set WORKLOAD_CLASSES)
        (ValidationError ''unknown workload_class''),
      require_int (f ''request_count'') ''request_count'' 0,
      require_int (f ''seed'') ''seed'' 0])"

definition generated_manifest :: "json \<Rightarrow> json" where
  "generated_manifest config = JObj
     [(''schema_version'', JStr MANIFEST_SCHEMA_VERSION),
      (''workload_schema_version'', JStr WORKLOAD_SCHEMA_VERSION),
      (''workload_class'', jget config ''workload_class''), (''request_count'', jget config ''request_count''),
      (''seed'', jget config ''seed''), (''generator_config'', config),
      (''generator'', JStr ''benchmarks/generate_serving_workload.py''), (''timestamp'', JNull)]"

definition generate_records :: "rng \<Rightarrow> json \<Rightarrow> (json list \<times> json) res" where
  "generate_records g config =
     (let cls = str_of (jget config ''workload_class''); count = nat (int_of (jget config ''request_count''));
          seed = int_of (jget config ''seed'')
      in checked (check_generator_config config)
        (rbind (arrival_times g config count (jget config ''seed'')) (\<lambda>arrivals.
         rbind (rmap (\<lambda>(n, arrival). validate_workload_record (n + 1) (generated_record g seed cls n arrival))
                  (zip [0..<length arrivals] arrivals))
           (\<lambda>records. Inr (records, generated_manifest config)))))"

section \<open>Reading a workload file\<close>

text \<open>
  \<open>json.loads\<close> is the parameter \<open>loads\<close>: the value of a line, or the message of its decode error.
  A line is blank when \<open>str.strip\<close> leaves nothing of it.
\<close>

definition is_space :: "char \<Rightarrow> bool" where
  "is_space c \<longleftrightarrow> (let n = of_char c :: nat in n = 32 \<or> (9 \<le> n \<and> n \<le> 13) \<or> (28 \<le> n \<and> n \<le> 31))"

fun read_lines :: "(string \<Rightarrow> string + json) \<Rightarrow> string list \<Rightarrow> (nat \<times> string) list \<Rightarrow> json list res" where
  "read_lines loads seen [] = Inr []"
| "read_lines loads seen ((n, line) # rest) =
     (let place = ''JSONL line '' @ str_nat n in
      checked (reject (list_all is_space line) (ValidationError (place @ '': blank lines are not allowed'')))
       (case loads line of
          Inl msg \<Rightarrow> Inl (ValidationError (place @ '': malformed JSON: '' @ msg))
        | Inr val \<Rightarrow> rbind (validate_workload_record n val) (\<lambda>record.
            let rid = str_of (jget record ''request_id'') in
            checked (reject (rid \<in> set seen) (ValidationError (place @ '': duplicate request_id'')))
              (rbind (read_lines loads (rid # seen) rest) (\<lambda>records. Inr (record # records))))))"

definition read_workload :: "(string \<Rightarrow> string + json) \<Rightarrow> string list \<Rightarrow> json list res" where
  "read_workload loads lines = read_lines loads [] (enumerate1 lines)"

section \<open>What an accepted workload promises\<close>

definition workload_ok :: "json \<Rightarrow> bool" where
  "workload_ok w \<longleftrightarrow> (\<exists>n. check_workload_record n w = None)"

lemma prefix_error_None [simp]: "prefix_error p c = None \<longleftrightarrow> c = None"
  by (auto simp: prefix_error_def split: option.splits py_error.splits)

lemma check_workload_record_line: "check_workload_record n w = None \<longleftrightarrow> check_workload_record m w = None"
  by (simp add: check_workload_record_def Let_def)

lemma workload_ok_iff: "workload_ok w \<longleftrightarrow> check_workload_record n w = None"
  using check_workload_record_line by (auto simp: workload_ok_def)

text \<open>The value of a line that is neither blank nor malformed nor invalid.\<close>

definition line_record :: "(string \<Rightarrow> string + json) \<Rightarrow> string \<Rightarrow> json" where
  "line_record loads line = (case loads line of Inr v \<Rightarrow> v | Inl _ \<Rightarrow> JNull)"

definition line_ok :: "(string \<Rightarrow> string + json) \<Rightarrow> string \<Rightarrow> bool" where
  "line_ok loads line \<longleftrightarrow> \<not> list_all is_space line \<and> (\<exists>v. loads line = Inr v \<and> workload_ok v)"

definition line_id :: "(string \<Rightarrow> string + json) \<Rightarrow> nat \<times> string \<Rightarrow> string" where
  "line_id loads item = str_of (jget (line_record loads (snd item)) ''request_id'')"

lemma read_lines_Cons:
  "read_lines loads seen (item # rest) = Inr rs \<longleftrightarrow>
     line_ok loads (snd item) \<and> line_id loads item \<notin> set seen \<and>
     (\<exists>rs'. read_lines loads (line_id loads item # seen) rest = Inr rs' \<and>
            rs = line_record loads (snd item) # rs')"
proof (cases item)
  case (Pair n line)
  then show ?thesis
    by (cases "loads line")
      (auto simp: Let_def validate_workload_record_def line_ok_def workload_ok_iff [of _ n]
        line_record_def line_id_def)
qed

interpretation workload_lines: unique_scan
  "\<lambda>seen items. \<exists>rs. read_lines loads seen items = Inr rs" "\<lambda>item. line_ok loads (snd item)" "line_id loads"
  for loads
  by unfold_locales (auto simp: read_lines_Cons)

lemma read_lines_result:
  "read_lines loads seen items = Inr rs \<Longrightarrow> rs = map (\<lambda>item. line_record loads (snd item)) items"
  by (induction items arbitrary: seen rs) (auto simp: read_lines_Cons)

lemma read_workload_iff:
  "read_workload loads lines = Inr rs \<longleftrightarrow>
     rs = map (line_record loads) lines \<and> (\<forall>line \<in> set lines. line_ok loads line) \<and>
     distinct (map (\<lambda>r. str_of (jget r ''request_id'')) rs)"
proof -
  have recs: "map (\<lambda>item. line_record loads (snd item)) (enumerate1 lines) = map (line_record loads) lines"
    by (rule map_enumerate1)
  have ids: "map (line_id loads) (enumerate1 lines)
      = map (\<lambda>r. str_of (jget r ''request_id'')) (map (line_record loads) lines)"
    using map_enumerate1 [of "\<lambda>line. str_of (jget (line_record loads line) ''request_id'')" lines]
    by (simp add: comp_def line_id_def [abs_def])
  have "(\<exists>rs. read_lines loads [] (enumerate1 lines) = Inr rs) \<longleftrightarrow>
      (\<forall>line \<in> set lines. line_ok loads line) \<and>
      distinct (map (\<lambda>r. str_of (jget r ''request_id'')) (map (line_record loads) lines))"
    unfolding workload_lines.scan_fresh ids by (fastforce dest: ex_enumerate1 set_enumerate1D)
  with recs read_lines_result [of loads "[]" "enumerate1 lines"] show ?thesis
    unfolding read_workload_def by auto
qed

section \<open>Arrival times: sorted, non-negative, one per request\<close>

lemma sorted_partial_sums:
  "\<forall>k. (0 :: int) \<le> f k \<Longrightarrow> sorted (map (\<lambda>i. start + (\<Sum>k\<leftarrow>[0..<i]. f k)) [0..<n])"
proof -
  assume nn: "\<forall>k. (0 :: int) \<le> f k"
  have "(\<Sum>k\<leftarrow>[0..<i]. f k) \<le> (\<Sum>k\<leftarrow>[0..<j]. f k)" if "i \<le> j" for i j
    using that
  proof (induction j)
    case (Suc j)
    then show ?case using nn by (cases "i = Suc j") (auto intro: order_trans add_increasing2)
  qed simp
  then show ?thesis by (auto simp: sorted_iff_nth_mono)
qed

lemma partial_sum_nonneg: "\<forall>k. (0 :: int) \<le> f k \<Longrightarrow> 0 \<le> (\<Sum>k\<leftarrow>[0..<i]. f k)"
  by (rule sum_list_nonneg) auto

lemma require_int_value_Inr [simp, accept_simps]:
  "require_int_value v name m = Inr i \<longleftrightarrow> is_JInt v \<and> m \<le> int_of v \<and> i = int_of v"
  by (auto simp: require_int_value_def)

lemma rmap_require_int:
  "rmap (\<lambda>v. require_int_value v name m) vs = Inr is \<Longrightarrow> is = map int_of vs \<and> (\<forall>i \<in> set is. m \<le> i)"
  by (induction vs arbitrary: "is") auto

lemma arrival_times_ok:
  assumes "arrival_times g config count seed = Inr ts" "rng_ok g"
  shows "length ts = count" "sorted ts" "\<forall>t \<in> set ts. 0 \<le> t"
proof -
  let ?arrival = "jget_default config ''arrival'' (JObj [])"
  let ?start = "int_of (jget_default ?arrival ''start_time_us'' (JInt 0))"
  let ?mode = "jget ?arrival ''mode''"
  have start: "0 \<le> ?start" and mode: "?mode \<in> JStr ` set ARRIVAL_MODELS"
    using assms(1) by (auto simp: arrival_times_def Let_def elim: is_JStrE)
  note body = assms(1) [unfolded arrival_times_def Let_def]
  from mode consider "?mode = JStr ''burst''" | "?mode = JStr ''fixed_interval''"
    | "?mode = JStr ''manual''" | "?mode = JStr ''exponential''"
    by (auto simp: ARRIVAL_MODELS_def)
  then have "length ts = count \<and> sorted ts \<and> (\<forall>t \<in> set ts. 0 \<le> t)"
  proof cases
    case 1
    with body start show ?thesis by (auto simp: sorted_replicate)
  next
    case 2
    with body obtain d where d: "1 \<le> d" "ts = map (\<lambda>i. ?start + int i * d) [0..<count]" by auto
    then have "sorted ts" by (auto simp: sorted_iff_nth_mono mult_right_mono)
    with d start show ?thesis by auto
  next
    case 3
    with body obtain known where k: "ts = known" "known = sort known"
      "rmap (\<lambda>v. require_int_value v ''arrival.timestamps_us'' 0) (list_of (jget ?arrival ''timestamps_us'')) = Inr known"
      "length (list_of (jget ?arrival ''timestamps_us'')) = count" by auto
    with rmap_require_int [OF k(3)] show ?thesis by (metis length_map sorted_sort)
  next
    case 4
    with body obtain mean where m: "1 \<le> mean" "ts = exponential_times g seed ?start mean count" by auto
    have nn: "\<forall>k. 0 \<le> exp_delta g seed k mean" using assms(2) m(1) by (simp add: rng_ok_def)
    show ?thesis
      using sorted_partial_sums [OF nn] partial_sum_nonneg [OF nn] start
      by (auto simp: m(2) exponential_times_def intro: add_nonneg_nonneg)
  qed
  then show "length ts = count" "sorted ts" "\<forall>t \<in> set ts. 0 \<le> t" by blast+
qed

section \<open>Generated records are valid\<close>

lemma jset_simps [simp]: "jitems (jset v k w) = al_put k w (jitems v)"
  by (simp add: jset_def)

lemma jkeys_jset: "set (jkeys (jset v k w)) = insert k (set (jkeys v))"
  using jhas_jset [of v k w] by (auto simp: jhas_def)

lemma jget_base [simp]: "jget (jset v k w) k' = (if k' = k then w else jget v k')"
  by (rule jget_jset)

definition base_record :: "string \<Rightarrow> string \<Rightarrow> int \<Rightarrow> json" where
  "base_record cls rid arrival = JObj
     [(''schema_version'', JStr WORKLOAD_SCHEMA_VERSION), (''request_id'', JStr rid),
      (''arrival_time_us'', JInt arrival), (''prompt_token_count'', JInt 0), (''max_new_tokens'', JInt 0),
      (''workload_class'', JStr cls)]"

lemma counts_record_ok:
  assumes "cls \<in> set WORKLOAD_CLASSES" "rid \<noteq> []" "0 \<le> arrival" "0 \<le> p" "0 \<le> k"
  shows "workload_ok (jupdate (base_record cls rid arrival) (counts p k))"
proof -
  have "cls \<noteq> []" using assms(1) by (auto simp: WORKLOAD_CLASSES_def)
  with assms show ?thesis
    by (simp add: workload_ok_iff [of _ 0] check_workload_record_def Let_def jupdate_def counts_def
        keys_outside_Nil jkeys_jset, simp add: base_record_def jkeys_def WORKLOAD_FIELDS_def)
qed

definition token_range :: "int \<Rightarrow> bool" where
  "token_range t \<longleftrightarrow> - (2 ^ 31) \<le> t \<and> t \<le> 2 ^ 31 - 1"

lemma check_prompt_token_JInt [simp]: "check_prompt_token (JInt t) = None \<longleftrightarrow> token_range t"
  by (auto simp: check_prompt_token_def token_range_def)

lemma tokens_record_ok_iff:
  assumes "cls \<in> set WORKLOAD_CLASSES" "rid \<noteq> []" "0 \<le> arrival" "0 \<le> k" "grp \<noteq> []"
  shows "workload_ok (jupdate (base_record cls rid arrival) (tokens_update ts k grp))
     \<longleftrightarrow> list_all token_range ts"
proof -
  have "cls \<noteq> []" using assms(1) by (auto simp: WORKLOAD_CLASSES_def)
  with assms show ?thesis
    by (simp add: workload_ok_iff [of _ 0] check_workload_record_def Let_def jupdate_def tokens_update_def
        keys_outside_Nil jkeys_jset jints_def list_all_iff,
        simp add: base_record_def jkeys_def WORKLOAD_FIELDS_def)
qed

lemma shared_tokens_range:
  "0 \<le> base \<Longrightarrow> 0 \<le> grp \<Longrightarrow> base + grp * 10000 + int len \<le> 2 ^ 31 \<Longrightarrow>
     list_all token_range (shared_tokens grp len base)"
  by (auto simp: shared_tokens_def list_all_iff token_range_def)

lemma generated_record_base:
  "generated_record g seed cls n arrival
     = jupdate (base_record cls (cls @ ''-'' @ pad4 n) arrival) (class_update g seed cls n)"
  by (simp add: generated_record_def base_record_def)

text \<open>The two shapes of an update, and what each needs to keep the record valid.\<close>

definition update_form :: "nat \<Rightarrow> (string \<times> json) list \<Rightarrow> bool" where
  "update_form n u \<longleftrightarrow>
     (\<exists>p k. u = counts p k \<and> 0 \<le> p \<and> 0 \<le> k) \<or>
     (\<exists>ts k grp. u = tokens_update ts k grp \<and> 0 \<le> k \<and> grp \<noteq> [] \<and>
        (n < 200000 \<longrightarrow> list_all token_range ts))"

lemma counts_form: "0 \<le> p \<Longrightarrow> 0 \<le> k \<Longrightarrow> update_form n (counts p k)"
  by (auto simp: update_form_def)

lemma tokens_form:
  "0 \<le> k \<Longrightarrow> grp \<noteq> [] \<Longrightarrow> 0 \<le> a \<Longrightarrow> a \<le> 1 \<Longrightarrow> 0 \<le> b \<Longrightarrow> b \<le> 100000 \<Longrightarrow> m \<le> 200 \<Longrightarrow>
     0 \<le> b' \<Longrightarrow> b' \<le> 100000 \<Longrightarrow> m' \<le> 200 \<Longrightarrow>
     update_form n (tokens_update (shared_tokens a m b @ shared_tokens (int n) m' b') k grp)"
  using shared_tokens_range [of b a m] shared_tokens_range [of b' "int n" m']
  by (auto simp: update_form_def intro!: exI)

lemma class_update_form:
  assumes "rng_ok g"
  shows "update_form n (class_update g seed cls n)"
proof -
  have draw: "0 \<le> randint_at g s k 12 80" "0 \<le> randint_at g s k 16 64" for s k
  proof -
    have "12 \<le> randint_at g s k 12 80" "16 \<le> randint_at g s k 16 64"
      using assms by (simp_all add: rng_ok_def)
    then show "0 \<le> randint_at g s k 12 80" "0 \<le> randint_at g s k 16 64" by linarith+
  qed
  have m: "n mod 5 \<le> 4" "n mod 17 \<le> 16" "n mod 9 \<le> 8" "int n mod 2 \<le> 1" by simp_all
  have "update_form n (tokens_update (shared_tokens 0 64 10000 @ shared_tokens (int n) (8 + n mod 5) 20000)
      (16 + int n mod 17) ''shared-system-v1'')"
    "update_form n (tokens_update (shared_tokens (int n mod 2) 128 30000 @ shared_tokens (int n) (24 + n mod 17) 50000)
      (64 + int n mod 65) (''coding-tools-'' @ str_int (int n mod 2)))"
    "update_form n (tokens_update (shared_tokens 0 96 70000 @ shared_tokens (int n) (16 + n mod 9) 80000)
      (48 + int n mod 49) ''mixed-coding'')"
    using m by (intro tokens_form; simp)+
  then show ?thesis
    using draw by (simp add: class_update_def Let_def counts_form)
qed

lemma generated_record_ok:
  assumes "cls \<in> set WORKLOAD_CLASSES" "0 \<le> arrival" "rng_ok g" "n < 200000"
  shows "workload_ok (generated_record g seed cls n arrival)"
proof -
  have rid: "cls @ ''-'' @ pad4 n \<noteq> []" by simp
  note ok = counts_record_ok [OF assms(1) rid assms(2)] tokens_record_ok_iff [OF assms(1) rid assms(2)]
  from class_update_form [OF assms(3), of n seed cls] show ?thesis
    unfolding generated_record_base update_form_def
    by (elim disjE exE conjE) (simp_all only: ok(1) ok(2) assms(4) simp_thms)
qed

section \<open>The generated workload\<close>

lemma jget_jupdate_other: "k \<notin> set (map fst kvs) \<Longrightarrow> jget (jupdate r kvs) k = jget r k"
proof (induction kvs arbitrary: r)
  case Nil
  then show ?case by (simp add: jupdate_def)
next
  case (Cons p kvs)
  have "jupdate r (p # kvs) = jupdate (jset r (fst p) (snd p)) kvs"
    by (cases p) (simp add: jupdate_def)
  with Cons show ?case by simp
qed

lemma class_update_keys:
  "set (map fst (class_update g seed cls n))
     \<subseteq> {''prompt_token_count'', ''max_new_tokens'', ''prompt_tokens'', ''prefix_group''}"
  by (simp add: class_update_def Let_def counts_def tokens_update_def)

lemma generated_record_keeps:
  "jget (generated_record g seed cls n a) ''request_id'' = JStr (cls @ ''-'' @ pad4 n)"
  "jget (generated_record g seed cls n a) ''arrival_time_us'' = JInt a"
  "jget (generated_record g seed cls n a) ''workload_class'' = JStr cls"
proof -
  have "jget (generated_record g seed cls n a) k = jget (base_record cls (cls @ ''-'' @ pad4 n) a) k"
    if "k \<notin> {''prompt_token_count'', ''max_new_tokens'', ''prompt_tokens'', ''prefix_group''}" for k
    unfolding generated_record_base using class_update_keys that by (intro jget_jupdate_other) blast
  note this [of "''request_id''"] this [of "''arrival_time_us''"] this [of "''workload_class''"]
  then show "jget (generated_record g seed cls n a) ''request_id'' = JStr (cls @ ''-'' @ pad4 n)"
    "jget (generated_record g seed cls n a) ''arrival_time_us'' = JInt a"
    "jget (generated_record g seed cls n a) ''workload_class'' = JStr cls"
    by (simp_all add: base_record_def)
qed

lemma digits_val_zeros: "digits_val (replicate k (CHR ''0'') @ s) = digits_val s"
proof (induction s rule: rev_induct)
  case Nil
  show ?case by (induction k) (auto simp: digits_val_def digit_val_def)
next
  case (snoc x xs)
  then show ?case by (simp flip: append_assoc)
qed

lemma pad4_inj [simp]: "pad4 m = pad4 n \<longleftrightarrow> m = n"
  by (metis digits_val_str_nat digits_val_zeros pad4_def)

text \<open>The list the generator's loop builds when every record passes its check.\<close>

definition generated_list :: "rng \<Rightarrow> int \<Rightarrow> string \<Rightarrow> int list \<Rightarrow> json list" where
  "generated_list g seed cls arrivals =
     map (\<lambda>(n, a). generated_record g seed cls n a) (zip [0..<length arrivals] arrivals)"

lemma validate_workload_record_Inr: "validate_workload_record n w = Inr r \<longleftrightarrow> r = w \<and> workload_ok w"
  by (auto simp: validate_workload_record_def workload_ok_iff [of w n])

lemma generate_records_Inr:
  "generate_records g config = Inr (rs, manifest) \<longleftrightarrow>
     check_generator_config config = None \<and>
     (\<exists>ts. arrival_times g config (nat (int_of (jget config ''request_count''))) (jget config ''seed'') = Inr ts \<and>
        rs = generated_list g (int_of (jget config ''seed'')) (str_of (jget config ''workload_class'')) ts \<and>
        list_all workload_ok rs) \<and>
     manifest = generated_manifest config"
proof -
  have rm: "rmap (\<lambda>(n, a). validate_workload_record (n + 1) (generated_record g s cls n a)) ps = Inr rs \<longleftrightarrow>
      rs = map (\<lambda>(n, a). generated_record g s cls n a) ps \<and> list_all workload_ok rs" for s cls ps rs
    by (rule rmap_guarded) (simp add: validate_workload_record_Inr split: prod.split)
  show ?thesis
    unfolding generate_records_def Let_def checked_Inr rbind_Inr_iff rm generated_list_def by blast
qed

lemma generated_list_ids:
  "map (\<lambda>r. jget r ''request_id'') (generated_list g seed cls ts)
     = map (\<lambda>n. JStr (cls @ ''-'' @ pad4 n)) [0..<length ts]"
proof -
  have "map (\<lambda>r. jget r ''request_id'') (generated_list g seed cls ts)
      = map (\<lambda>n. JStr (cls @ ''-'' @ pad4 n)) (map fst (zip [0..<length ts] ts))"
    by (simp add: generated_list_def comp_def case_prod_unfold generated_record_keeps del: map_fst_zip)
  then show ?thesis by simp
qed

lemma generated_list_arrivals:
  "map (\<lambda>r. jget r ''arrival_time_us'') (generated_list g seed cls ts) = map JInt ts"
proof -
  have "map (\<lambda>r. jget r ''arrival_time_us'') (generated_list g seed cls ts)
      = map JInt (map snd (zip [0..<length ts] ts))"
    by (simp add: generated_list_def comp_def case_prod_unfold generated_record_keeps del: map_snd_zip)
  then show ?thesis by simp
qed

lemma length_generated_list [simp]: "length (generated_list g seed cls ts) = length ts"
  by (simp add: generated_list_def)

lemma generated_ids_distinct: "distinct (map (\<lambda>r. jget r ''request_id'') (generated_list g seed cls ts))"
  by (simp add: generated_list_ids distinct_map inj_on_def)

text \<open>C21: A generated workload is well formed: as many records as the configuration asks for, each of
  which passes the record validator, with distinct request identifiers and arrival times that are
  non-negative and in non-decreasing order, whatever the arrival model and the random draws.\<close>

theorem generated_workload_well_formed:
  assumes "generate_records g config = Inr (rs, manifest)" "rng_ok g"
  shows "int (length rs) = int_of (jget config ''request_count'') \<and> list_all workload_ok rs \<and>
    distinct (map (\<lambda>r. jget r ''request_id'') rs) \<and>
    (\<exists>ts. map (\<lambda>r. jget r ''arrival_time_us'') rs = map JInt ts \<and> sorted ts \<and> (\<forall>t \<in> set ts. 0 \<le> t))"
proof -
  from assms(1) obtain ts where
    c: "check_generator_config config = None" and
    t: "arrival_times g config (nat (int_of (jget config ''request_count''))) (jget config ''seed'') = Inr ts"
    and rs: "rs = generated_list g (int_of (jget config ''seed'')) (str_of (jget config ''workload_class'')) ts"
    "list_all workload_ok rs"
    by (auto simp: generate_records_Inr)
  have "0 \<le> int_of (jget config ''request_count'')"
    using c by (simp add: check_generator_config_def Let_def)
  with arrival_times_ok [OF t assms(2)] rs generated_ids_distinct show ?thesis
    by (auto simp: generated_list_arrivals)
qed

text \<open>C22: Generation succeeds: a configuration the field checks and the arrival model accept, with fewer
  than 200000 requests, always yields a workload; the token identifiers of every class stay inside the
  signed 32-bit range the validator demands.\<close>

theorem generation_succeeds:
  assumes "check_generator_config config = None" "rng_ok g"
    and "arrival_times g config (nat (int_of (jget config ''request_count''))) (jget config ''seed'') = Inr ts"
    and "int_of (jget config ''request_count'') < 200000"
  shows "\<exists>rs. generate_records g config = Inr (rs, generated_manifest config)"
proof -
  let ?cls = "str_of (jget config ''workload_class'')"
  have cls: "?cls \<in> set WORKLOAD_CLASSES"
    using assms(1) by (simp add: check_generator_config_def Let_def)
  note ts = arrival_times_ok [OF assms(3,2)]
  have "workload_ok (generated_record g (int_of (jget config ''seed'')) ?cls n (ts ! n))" if "n < length ts" for n
    using that ts assms(4) cls assms(2) by (intro generated_record_ok) auto
  then have "list_all workload_ok (generated_list g (int_of (jget config ''seed'')) ?cls ts)"
    by (auto simp: generated_list_def list_all_iff set_zip)
  with assms(1,3) show ?thesis by (auto simp: generate_records_Inr)
qed

definition sample_generator :: json where
  "sample_generator = JObj
    [(''schema_version'', JStr WORKLOAD_SCHEMA_VERSION), (''workload_class'', JStr ''burst''),
     (''request_count'', JInt 2), (''seed'', JInt 7),
     (''arrival'', JObj [(''mode'', JStr ''fixed_interval''), (''interval_us'', JInt 50)])]"

definition sample_rng :: rng where
  "sample_rng = \<lparr>exp_delta = (\<lambda>seed k mean. mean), randint_at = (\<lambda>seed k lo hi. lo)\<rparr>"

lemma sample_rng_ok: "rng_ok sample_rng"
  by (simp add: rng_ok_def sample_rng_def)

lemma sample_generator_checked: "check_generator_config sample_generator = None"
  by (simp add: check_generator_config_def Let_def sample_generator_def keys_outside_Nil jkeys_def
      GENERATOR_FIELDS_def WORKLOAD_CLASSES_def)

lemma sample_generator_arrivals:
  "arrival_times sample_rng sample_generator (nat (int_of (jget sample_generator ''request_count'')))
     (jget sample_generator ''seed'') = Inr [0, 50]"
  by (simp add: arrival_times_def Let_def sample_generator_def jget_default_JObj ARRIVAL_MODELS_def
      require_int_value_def upt_conv_Cons)

theorem generation_succeeds_witness:
  "\<exists>rs. generate_records sample_rng sample_generator = Inr (rs, generated_manifest sample_generator)"
  by (rule generation_succeeds [OF sample_generator_checked sample_rng_ok sample_generator_arrivals])
    (simp add: sample_generator_def)

definition sample_workload :: "json list" where
  "sample_workload = generated_list sample_rng 7 ''burst'' [0, 50]"

lemma sample_workload_ok: "list_all workload_ok sample_workload"
  using generated_record_ok [OF _ _ sample_rng_ok, of "''burst''"]
  by (simp add: sample_workload_def generated_list_def list_all_iff WORKLOAD_CLASSES_def upt_conv_Cons)

lemma sample_generated:
  "generate_records sample_rng sample_generator = Inr (sample_workload, generated_manifest sample_generator)"
  using sample_generator_checked sample_generator_arrivals sample_workload_ok
  by (auto simp: generate_records_Inr sample_workload_def) (simp_all add: sample_generator_def)

theorem generated_workload_well_formed_witness:
  "int (length sample_workload) = 2 \<and> list_all workload_ok sample_workload \<and>
    distinct (map (\<lambda>r. jget r ''request_id'') sample_workload)"
  using generated_workload_well_formed [OF sample_generated sample_rng_ok] by (simp add: sample_generator_def)

section \<open>Shared prefixes\<close>

definition prompt_of :: "rng \<Rightarrow> int \<Rightarrow> string \<Rightarrow> nat \<Rightarrow> int list" where
  "prompt_of g seed cls n = ints_of (jget (generated_record g seed cls n 0) ''prompt_tokens'')"

lemma lcp_diverge: "y \<noteq> z \<Longrightarrow> longest_common_prefix (xs @ y # ys) (xs @ z # zs) = xs"
  by (induction xs) auto

lemma shared_tokens_Cons: "0 < m \<Longrightarrow> \<exists>ts. shared_tokens grp m base = (base + grp * 10000) # ts"
  by (cases m) (auto simp: shared_tokens_def upt_conv_Cons simp del: upt_Suc)

lemma lcp_shared:
  "0 < m \<Longrightarrow> 0 < m' \<Longrightarrow> i \<noteq> j \<Longrightarrow>
     longest_common_prefix (xs @ shared_tokens i m base) (xs @ shared_tokens j m' base) = xs"
  using shared_tokens_Cons [of m i base] shared_tokens_Cons [of m' j base] by (auto simp: lcp_diverge)

lemma prompt_of_classes:
  "prompt_of g seed ''shared_system_prompt'' n
     = shared_tokens 0 64 10000 @ shared_tokens (int n) (8 + n mod 5) 20000"
  "prompt_of g seed ''coding_agent'' n
     = shared_tokens (int n mod 2) 128 30000 @ shared_tokens (int n) (24 + n mod 17) 50000"
  "n mod 4 = 2 \<Longrightarrow> prompt_of g seed ''mixed'' n
     = shared_tokens 0 96 70000 @ shared_tokens (int n) (16 + n mod 9) 80000"
  by (simp_all add: prompt_of_def generated_record_def class_update_def Let_def tokens_update_def
      jupdate_def ints_of_def jints_def comp_def)

text \<open>C23: Prefix groups share exactly their system prompt: the prompts of two different requests of the
  shared-system-prompt class have the 64 tokens of the system prompt as their longest common prefix;
  two coding-agent prompts have the 128 tokens of their tool group when they belong to the same group,
  and no common token at the start otherwise; two coding prompts of the mixed class have 96.\<close>

theorem prefix_groups_share_exactly:
  assumes "i \<noteq> j"
  shows "longest_common_prefix (prompt_of g seed ''shared_system_prompt'' i)
      (prompt_of g seed ''shared_system_prompt'' j) = shared_tokens 0 64 10000 \<and>
    longest_common_prefix (prompt_of g seed ''coding_agent'' i) (prompt_of g seed ''coding_agent'' j)
      = (if i mod 2 = j mod 2 then shared_tokens (int i mod 2) 128 30000 else []) \<and>
    (i mod 4 = 2 \<and> j mod 4 = 2 \<longrightarrow>
      longest_common_prefix (prompt_of g seed ''mixed'' i) (prompt_of g seed ''mixed'' j)
        = shared_tokens 0 96 70000)"
proof -
  have "longest_common_prefix (prompt_of g seed ''coding_agent'' i) (prompt_of g seed ''coding_agent'' j) = []"
    if "i mod 2 \<noteq> j mod 2"
  proof -
    have "int (i mod 2) \<noteq> int (j mod 2)" using that by (simp only: of_nat_eq_iff not_False_eq_True)
    then have "int i mod 2 \<noteq> int j mod 2" by (simp add: zmod_int)
    then show ?thesis
      using lcp_diverge [of _ _ "[]"] shared_tokens_Cons [of 128 "int i mod 2" 30000]
        shared_tokens_Cons [of 128 "int j mod 2" 30000]
      by (auto simp: prompt_of_classes)
  qed
  moreover have "int i mod 2 = int j mod 2" if "i mod 2 = j mod 2"
    using arg_cong [OF that, of int] by (simp add: zmod_int)
  ultimately show ?thesis using assms by (simp add: prompt_of_classes lcp_shared)
qed

theorem prefix_groups_share_exactly_witness:
  "longest_common_prefix (prompt_of sample_rng 7 ''coding_agent'' 3) (prompt_of sample_rng 7 ''coding_agent'' 4) = []"
  using prefix_groups_share_exactly [of 3 4 sample_rng 7] by simp

section \<open>Round trip through a file\<close>

lemma workload_ok_id: "workload_ok w \<Longrightarrow> is_JStr (jget w ''request_id'')"
  by (auto simp: workload_ok_def check_workload_record_def Let_def)



end
