(* ===== verification/Py_Process.thy ===== *)
theory Py_Process
  imports Py_Text
begin

text \<open>
  What the scripts see of other programs and of the file system: the end of a
  \<open>subprocess.run(..., text=True, capture_output=True, timeout=...)\<close>, the files as a map from paths
  to contents, and the loop that runs one probe per entry of a fixed table of names.
\<close>

section \<open>Ends of a process\<close>

text \<open>
  The bytes written before a timeout: nothing captured, bytes, or text, as \<open>TimeoutExpired\<close> holds
  them. \<open>Exited\<close> has the return code and the bytes of the two streams; \<open>TimedOut\<close> and
  \<open>NotStarted\<close> have the text of the \<open>TimeoutExpired\<close> and of the \<open>OSError\<close>.
\<close>

datatype captured = NoOutput | Bytes string | Str string

datatype process_end =
    Exited int string string
  | TimedOut captured captured string
  | NotStarted string

type_synonym runner = "string list \<Rightarrow> process_end"

text \<open>Both streams of a finished process, decoded as \<open>text=True\<close> asks for.\<close>

definition read_streams :: "string \<Rightarrow> string \<Rightarrow> (string \<times> string) res" where
  "read_streams out err =
     rbind (read_text out) (\<lambda>o'. rbind (read_text err) (\<lambda>e'. Inr (o', e')))"

lemma read_text_Inr [simp]: "read_text b = Inr t \<longleftrightarrow> utf8_valid b \<and> t = newlines b"
  by (auto simp: read_text_def)

lemma read_text_Inl [simp]: "read_text b = Inl e \<longleftrightarrow> \<not> utf8_valid b \<and> e = UnicodeDecodeError"
  by (auto simp: read_text_def)

lemma read_streams_Inr [simp]:
  "read_streams out err = Inr p \<longleftrightarrow>
     utf8_valid out \<and> utf8_valid err \<and> p = (newlines out, newlines err)"
  by (auto simp: read_streams_def)

lemma read_streams_Inl:
  "read_streams out err = Inl e \<longleftrightarrow>
     \<not> (utf8_valid out \<and> utf8_valid err) \<and> e = UnicodeDecodeError"
  by (auto simp: read_streams_def rbind_def read_text_def)

lemma read_streams_eq:
  "read_streams out err =
     (if utf8_valid out \<and> utf8_valid err then Inr (newlines out, newlines err)
      else Inl UnicodeDecodeError)"
  by (simp add: read_streams_Inl)

section \<open>Files\<close>

type_synonym files = "path \<Rightarrow> string option"

section \<open>One probe per name\<close>

text \<open>
  The interface of a table-driven report: every name of the table is probed once, in order, each
  result carries the name it is about, and the first exception ends the loop.
\<close>

locale roster =
  fixes probe :: "'n \<Rightarrow> 'r res"
    and about :: "'r \<Rightarrow> 'n"
  assumes about_probe: "probe n = Inr r \<Longrightarrow> about r = n"
begin

lemma names_kept: "rmap probe ns = Inr rs \<Longrightarrow> map about rs = ns"
proof (induction ns arbitrary: rs)
  case (Cons n ns)
  then show ?case using about_probe by fastforce
qed simp

lemma results_of_names:
  assumes "rmap probe ns = Inr rs"
  shows "\<forall>r \<in> set rs. about r \<in> set ns \<and> probe (about r) = Inr r"
  using assms
proof (induction ns arbitrary: rs)
  case (Cons n ns)
  then obtain r rs' where p: "probe n = Inr r" "rmap probe ns = Inr rs'" "rs = r # rs'" by auto
  with about_probe [OF p(1)] Cons.IH [OF p(2)] show ?case by auto
qed simp

lemma one_result_each: "rmap probe ns = Inr rs \<Longrightarrow> length rs = length ns"
  using names_kept by (metis length_map)

text \<open>The exception that ends the loop is the one of the first name that raises.\<close>

lemma first_exception:
  "rmap probe ns = Inl e \<longleftrightarrow>
     (\<exists>as n bs. ns = as @ n # bs \<and> (\<forall>a \<in> set as. \<exists>r. probe a = Inr r) \<and> probe n = Inl e)"
proof (induction ns)
  case (Cons m ns)
  show ?case
  proof (cases "probe m")
    case (Inl e')
    then have "rmap probe (m # ns) = Inl e \<longleftrightarrow> e' = e" by simp
    also have "\<dots> \<longleftrightarrow> (\<exists>as n bs. m # ns = as @ n # bs \<and>
        (\<forall>a \<in> set as. \<exists>r. probe a = Inr r) \<and> probe n = Inl e)"
    proof
      assume "e' = e"
      with Inl show "\<exists>as n bs. m # ns = as @ n # bs \<and>
          (\<forall>a \<in> set as. \<exists>r. probe a = Inr r) \<and> probe n = Inl e"
        by (intro exI [of _ "[]"]) auto
    next
      assume "\<exists>as n bs. m # ns = as @ n # bs \<and>
          (\<forall>a \<in> set as. \<exists>r. probe a = Inr r) \<and> probe n = Inl e"
      then obtain as n bs where *: "m # ns = as @ n # bs" "\<forall>a \<in> set as. \<exists>r. probe a = Inr r"
        "probe n = Inl e" by blast
      with Inl show "e' = e" by (cases as) auto
    qed
    finally show ?thesis .
  next
    case (Inr r)
    have "rmap probe (m # ns) = Inl e \<longleftrightarrow> rmap probe ns = Inl e"
      using Inr by (cases "rmap probe ns") auto
    also note Cons.IH
    also have "(\<exists>as n bs. ns = as @ n # bs \<and> (\<forall>a \<in> set as. \<exists>r. probe a = Inr r) \<and> probe n = Inl e)
        \<longleftrightarrow> (\<exists>as n bs. m # ns = as @ n # bs \<and>
              (\<forall>a \<in> set as. \<exists>r. probe a = Inr r) \<and> probe n = Inl e)" (is "?l \<longleftrightarrow> ?r")
    proof
      assume ?l
      then obtain as n bs where "ns = as @ n # bs" "\<forall>a \<in> set as. \<exists>r. probe a = Inr r"
        "probe n = Inl e" by blast
      with Inr show ?r by (intro exI [of _ "m # as"] exI [of _ n] exI [of _ bs]) auto
    next
      assume ?r
      then obtain as n bs where *: "m # ns = as @ n # bs" "\<forall>a \<in> set as. \<exists>r. probe a = Inr r"
        "probe n = Inl e" by blast
      with Inr show ?l by (cases as) auto
    qed
    finally show ?thesis .
  qed
qed simp

lemma raises_iff: "(\<exists>e. rmap probe ns = Inl e) \<longleftrightarrow> (\<exists>n \<in> set ns. \<exists>e. probe n = Inl e)"
proof (induction ns)
  case (Cons n ns)
  then show ?case by (cases "probe n"; cases "rmap probe ns") auto
qed simp

end

end
