(* ===== verification/Perf_Probe.thy ===== *)
theory Perf_Probe
  imports Py_Process
begin

text \<open>
  \<open>scripts/probe_perf_events.py\<close>: every event of \<open>EVENTS\<close> is tried with \<open>perf stat\<close>, the end of the
  process is classified, and the report is written as JSON and as a Markdown table.

  The program \<open>perf\<close> is the argument \<open>run\<close>, a function from an argument vector to the end of the
  process; \<open>which\<close> is the result of \<open>shutil.which("perf")\<close> and \<open>now\<close> the time stamp.
\<close>

section \<open>Classification\<close>

definition EVENTS :: "string list" where
  "EVENTS =
    [''task-clock'', ''cpu-clock'', ''cycles'', ''instructions'', ''branches'', ''branch-misses'',
     ''cache-references'', ''cache-misses'', ''context-switches'', ''cpu-migrations'', ''page-faults'',
     ''minor-faults'', ''major-faults'', ''stalled-cycles-frontend'', ''stalled-cycles-backend'',
     ''L1-dcache-loads'', ''L1-dcache-load-misses'', ''LLC-loads'', ''LLC-load-misses'']"

text \<open>\<open>(stderr or stdout).strip()\<close>\<close>

definition diagnostic_of :: "string \<Rightarrow> string \<Rightarrow> string" where
  "diagnostic_of out err = strip (if err \<noteq> [] then err else out)"

definition classify_probe :: "int \<Rightarrow> string \<Rightarrow> string \<Rightarrow> string \<times> string" where
  "classify_probe returncode out err = (let txt = lower (out @ CHR 0x0A # err) in
     if sublist ''permission'' txt \<or> sublist ''access to performance monitoring'' txt \<or>
        sublist ''perf_event_paranoid'' txt
     then (''permission denied'', diagnostic_of out err)
     else if sublist ''not supported'' txt \<or> sublist ''unsupported'' txt
     then (''unsupported'', diagnostic_of out err)
     else if sublist ''unknown event'' txt \<or> sublist ''event syntax error'' txt \<or>
        sublist ''cannot find pmu'' txt
     then (''unavailable in WSL2'', diagnostic_of out err)
     else if sublist ''<not supported>'' txt
     then (''unsupported'', diagnostic_of out err)
     else if sublist ''<not counted>'' txt \<or> sublist ''not counted'' txt
     then (''noisy or unreliable'', diagnostic_of out err)
     else if returncode = 0 then (''supported'', [])
     else (''unsupported'',
       if diagnostic_of out err \<noteq> [] then diagnostic_of out err
       else ''perf exited '' @ str_int returncode))"

section \<open>Probing\<close>

record event_probe =
  event :: string
  classification :: string
  perf_exit_code :: "int option"
  diagnostic :: string
  command :: "string list"

definition probe_argv :: "string \<Rightarrow> string list \<Rightarrow> string \<Rightarrow> string list" where
  "probe_argv perf cmd ev = [perf, ''stat'', ''-x'', '','', ''-e'', ev, ''--''] @ cmd"

definition probe_event :: "runner \<Rightarrow> string \<Rightarrow> string list \<Rightarrow> string \<Rightarrow> event_probe res" where
  "probe_event run perf cmd ev = (let argv = probe_argv perf cmd ev in
     case run argv of
       Exited returncode out err \<Rightarrow> rbind (read_streams out err) (\<lambda>(o', e').
         let (status, diag) = classify_probe returncode o' e' in
         Inr \<lparr>event = ev, classification = status, perf_exit_code = Some returncode,
              diagnostic = diag, command = argv\<rparr>)
     | TimedOut _ _ exc \<Rightarrow>
         Inr \<lparr>event = ev, classification = ''noisy or unreliable'', perf_exit_code = None,
              diagnostic = ''probe timed out: '' @ exc, command = argv\<rparr>
     | NotStarted exc \<Rightarrow> Inl (OSError exc))"

record probe_data =
  timestamp_utc :: string
  perf_path :: "string option"
  events :: "event_probe list"
  probe_error :: "string option"

text \<open>\<open>perf or shutil.which("perf")\<close>, and whether the result counts as a path\<close>

definition find_perf :: "string option \<Rightarrow> string option \<Rightarrow> string option" where
  "find_perf perf which = (case perf of Some (c # cs) \<Rightarrow> Some (c # cs) | _ \<Rightarrow> which)"

definition MISSING_PERF :: string where
  "MISSING_PERF = ''perf binary not found; install linux-tools-common and the linux-tools package matching the current kernel''"

definition run_probe ::
  "runner \<Rightarrow> string option \<Rightarrow> string \<Rightarrow> string option \<Rightarrow> string list \<Rightarrow> probe_data res" where
  "run_probe run which now perf cmd = (let found = find_perf perf which in
     case found of
       Some (c # cs) \<Rightarrow> rbind (rmap (probe_event run (c # cs) cmd) EVENTS) (\<lambda>ps.
         Inr \<lparr>timestamp_utc = now, perf_path = found, events = ps, probe_error = None\<rparr>)
     | _ \<Rightarrow> Inr \<lparr>timestamp_utc = now, perf_path = found, events = [], probe_error = Some MISSING_PERF\<rparr>)"

section \<open>The reports\<close>

text \<open>The UTF-8 bytes of the dash in an empty cell.\<close>

definition EM_DASH :: string where
  "EM_DASH = [CHR 0xE2, CHR 0x80, CHR 0x94]"

definition cell_text :: "string \<Rightarrow> string" where
  "cell_text s = replace_char (CHR ''|'') [CHR 0x5C, CHR ''|''] (replace_char (CHR 0x0A) '' '' s)"

definition markdown_row :: "event_probe \<Rightarrow> string" where
  "markdown_row p = (let diag = cell_text (diagnostic p) in
     ''| `'' @ event p @ ''` | '' @ classification p @ '' | '' @
     (if diag \<noteq> [] then diag else EM_DASH) @ '' |'')"

definition markdown_head :: "probe_data \<Rightarrow> string list" where
  "markdown_head d =
    [''# perf event capability probe'', [], ''Generated: `'' @ timestamp_utc d @ ''`'', [],
     ''perf: `'' @ (case perf_path d of Some (c # cs) \<Rightarrow> c # cs | _ \<Rightarrow> ''missing'') @ ''`'', [],
     ''| Event | Classification | Diagnostic |'', ''| --- | --- | --- |'']"

definition render_markdown :: "probe_data \<Rightarrow> string" where
  "render_markdown d =
     join_with (CHR 0x0A) (markdown_head d @ map markdown_row (events d)) @ [CHR 0x0A]"

definition probe_doc :: "event_probe \<Rightarrow> doc" where
  "probe_doc p = DObj
    [(''event'', DStr (event p)), (''classification'', DStr (classification p)),
     (''perf_exit_code'', doc_opt DInt (perf_exit_code p)), (''diagnostic'', DStr (diagnostic p)),
     (''command'', DList (map DStr (command p)))]"

definition data_doc :: "probe_data \<Rightarrow> doc" where
  "data_doc d = DObj
    ([(''schema_version'', DInt 1), (''timestamp_utc'', DStr (timestamp_utc d)),
      (''perf_path'', doc_opt DStr (perf_path d)), (''events'', DList (map probe_doc (events d)))] @
     (case probe_error d of None \<Rightarrow> [] | Some e \<Rightarrow> [(''error'', DStr e)]))"

text \<open>
  \<open>main\<close>: the files afterwards, and the exception that leaves the script, or what it prints and
  its exit code. The two \<open>mkdir\<close> calls make the parent directories exist.
\<close>

definition probe_main ::
  "runner \<Rightarrow> string option \<Rightarrow> string \<Rightarrow> path \<Rightarrow> path \<Rightarrow> string option \<Rightarrow> files \<Rightarrow>
     files \<times> (string \<times> int) res" where
  "probe_main run which now json_path markdown_path perf fs =
     (case run_probe run which now perf [''true''] of
        Inl e \<Rightarrow> (fs, Inl e)
      | Inr d \<Rightarrow>
         (fs(json_path \<mapsto> json_dumps (data_doc d) @ [CHR 0x0A], markdown_path \<mapsto> render_markdown d),
          Inr (json_dumps_line (data_doc d) @ [CHR 0x0A],
               if probe_error d \<noteq> None \<and> probe_error d \<noteq> Some [] then 127 else 0)))"

section \<open>The classification\<close>

text \<open>The verdicts in the order of precedence, each with the phrases that give it.\<close>

definition VERDICTS :: "(string list \<times> string) list" where
  "VERDICTS =
    [([''permission'', ''access to performance monitoring'', ''perf_event_paranoid''], ''permission denied''),
     ([''not supported'', ''unsupported''], ''unsupported''),
     ([''unknown event'', ''event syntax error'', ''cannot find pmu''], ''unavailable in WSL2''),
     ([''not counted''], ''noisy or unreliable'')]"

definition first_verdict :: "string \<Rightarrow> string option" where
  "first_verdict txt = map_option snd (find (\<lambda>(ps, _). list_ex (\<lambda>p. sublist p txt) ps) VERDICTS)"

text \<open>Nothing in the output of \<open>perf\<close> speaks against the event.\<close>

definition quiet :: "string \<Rightarrow> string \<Rightarrow> bool" where
  "quiet out err \<longleftrightarrow> first_verdict (lower (out @ CHR 0x0A # err)) = None"

lemma sublist_inside:
  assumes "sublist q p" "sublist p txt"
  shows "sublist q txt"
  using assms sublist_order.order_trans by blast

lemma bracketed_phrases:
  "sublist ''<not supported>'' txt \<Longrightarrow> sublist ''not supported'' txt"
  "sublist ''<not counted>'' txt \<Longrightarrow> sublist ''not counted'' txt"
  by (erule sublist_inside [rotated], simp add: sublist_def, rule exI [of _ "''<''"], simp)+

text \<open>C34: The class is the first verdict, in the table's order, one of whose phrases occurs in the
  lower-cased output; without one it is decided by the exit code. So the branch that tests
  \<open><not supported>\<close> after \<open>not supported\<close> is dead code, and so is the test of \<open><not counted>\<close>.\<close>

theorem classify_first_verdict:
  "fst (classify_probe returncode out err) =
     (case first_verdict (lower (out @ CHR 0x0A # err)) of
        Some v \<Rightarrow> v
      | None \<Rightarrow> if returncode = 0 then ''supported'' else ''unsupported'')"
  using bracketed_phrases [of "lower (out @ CHR 0x0A # err)"]
  by (auto simp: classify_probe_def first_verdict_def VERDICTS_def Let_def)

lemma verdict_classes:
  "first_verdict txt = Some v \<Longrightarrow>
     v \<in> {''permission denied'', ''unsupported'', ''unavailable in WSL2'', ''noisy or unreliable''}"
  by (auto simp: first_verdict_def VERDICTS_def split: if_splits)

definition CLASSES :: "string list" where
  "CLASSES = [''permission denied'', ''unsupported'', ''unavailable in WSL2'',
     ''noisy or unreliable'', ''supported'']"

lemma verdict_not_supported: "first_verdict txt \<noteq> Some ''supported''"
  using verdict_classes by fastforce

lemma classify_class: "fst (classify_probe returncode out err) \<in> set CLASSES"
  using verdict_classes unfolding classify_first_verdict CLASSES_def
  by (fastforce split: option.splits)

lemma classify_supported:
  "fst (classify_probe returncode out err) = ''supported'' \<longleftrightarrow> returncode = 0 \<and> quiet out err"
  using verdict_not_supported
  by (auto simp: classify_first_verdict quiet_def split: option.splits)

section \<open>The probes\<close>

lemma probe_event_about: "probe_event run perf cmd ev = Inr r \<Longrightarrow> event r = ev"
  by (auto simp: probe_event_def Let_def split: process_end.splits prod.splits)

interpretation events: roster "probe_event run perf cmd" event for run perf cmd
  by unfold_locales (rule probe_event_about)

lemma probe_event_Inr:
  assumes "probe_event run perf cmd ev = Inr r"
  shows "classification r \<in> set CLASSES \<and> command r = probe_argv perf cmd ev \<and>
    (classification r = ''supported'' \<longleftrightarrow>
       (\<exists>out err. run (probe_argv perf cmd ev) = Exited 0 out err \<and>
          quiet (newlines out) (newlines err)))"
proof (cases "run (probe_argv perf cmd ev)")
  case (Exited returncode out err)
  obtain s t where c: "classify_probe returncode (newlines out) (newlines err) = (s, t)" by force
  with Exited assms have r: "r = \<lparr>event = ev, classification = s, perf_exit_code = Some returncode,
      diagnostic = t, command = probe_argv perf cmd ev\<rparr>"
    by (auto simp: probe_event_def Let_def)
  show ?thesis
    using classify_class [of returncode "newlines out" "newlines err"] r c Exited
      classify_supported [of returncode "newlines out" "newlines err"] by auto
next
  case (TimedOut a b exc)
  with assms show ?thesis by (auto simp: probe_event_def Let_def CLASSES_def)
qed (use assms in \<open>simp add: probe_event_def Let_def\<close>)

text \<open>The ends of a process that \<open>probe_event\<close> does not handle.\<close>

definition probe_breaks :: "process_end \<Rightarrow> bool" where
  "probe_breaks r = (case r of
     Exited _ out err \<Rightarrow> \<not> (utf8_valid out \<and> utf8_valid err)
   | TimedOut _ _ _ \<Rightarrow> False
   | NotStarted _ \<Rightarrow> True)"

lemma probe_event_Inl:
  "(\<exists>e. probe_event run perf cmd ev = Inl e) \<longleftrightarrow> probe_breaks (run (probe_argv perf cmd ev))"
proof (cases "run (probe_argv perf cmd ev)")
  case (Exited returncode out err)
  then show ?thesis
    by (auto simp: probe_event_def probe_breaks_def Let_def read_streams_eq split: prod.splits)
qed (simp_all add: probe_event_def probe_breaks_def Let_def)

lemma run_probe_Inr:
  "run_probe run which now perf cmd = Inr d \<longleftrightarrow>
     (case find_perf perf which of
        Some (c # cs) \<Rightarrow> (\<exists>ps. rmap (probe_event run (c # cs) cmd) EVENTS = Inr ps \<and>
          d = \<lparr>timestamp_utc = now, perf_path = Some (c # cs), events = ps, probe_error = None\<rparr>)
      | p \<Rightarrow> d = \<lparr>timestamp_utc = now, perf_path = p, events = [], probe_error = Some MISSING_PERF\<rparr>)"
  by (auto simp: run_probe_def Let_def split: option.splits list.splits)

lemma probe_reports_all:
  assumes "find_perf perf which = Some p" and "p \<noteq> []"
    and "run_probe run which now perf cmd = Inr d"
  shows "map event (events d) = EVENTS \<and> probe_error d = None \<and>
    (\<forall>r \<in> set (events d). classification r \<in> set CLASSES \<and>
       command r = probe_argv p cmd (event r) \<and>
       (classification r = ''supported'' \<longleftrightarrow>
          (\<exists>out err. run (command r) = Exited 0 out err \<and> quiet (newlines out) (newlines err))))"
proof -
  from assms obtain ps where ps: "rmap (probe_event run p cmd) EVENTS = Inr ps"
    and d: "events d = ps" "probe_error d = None"
    by (cases p) (auto simp: run_probe_Inr)
  have "\<forall>r \<in> set ps. probe_event run p cmd (event r) = Inr r"
    using events.results_of_names [OF ps] by blast
  with probe_event_Inr [of run p cmd] events.names_kept [OF ps] d show ?thesis by metis
qed

text \<open>C38: When a \<open>perf\<close> is found and the script finishes, the report has one entry for each of the
  nineteen events, in the table's order, each probed by its own command line and put in one of the
  five classes; an event is reported as supported exactly when its \<open>perf stat\<close> ran to exit code 0
  and printed none of the phrases that speak against it.\<close>

theorem probe_reports_every_event:
  assumes "find_perf perf which = Some p" and "p \<noteq> []"
    and "run_probe run which now perf cmd = Inr d"
  shows "map event (events d) = EVENTS \<and> probe_error d = None \<and>
    (\<forall>r \<in> set (events d). classification r \<in> set CLASSES \<and>
       command r = probe_argv p cmd (event r) \<and>
       (classification r = ''supported'' \<longleftrightarrow>
          (\<exists>out err. run (command r) = Exited 0 out err \<and> quiet (newlines out) (newlines err))))"
  by (rule probe_reports_all [OF assms])

definition sample_run :: runner where
  "sample_run argv =
     (if argv ! 5 = ''cycles'' then Exited 1 [] ''Permission denied''
      else if argv ! 5 = ''LLC-loads'' then TimedOut NoOutput NoOutput ''timed out''
      else Exited 0 [] [])"

lemma probe_reports_every_event_witness:
  "\<exists>d. run_probe sample_run None ''now'' (Some ''perf'') [''true''] = Inr d \<and>
     map event (events d) = EVENTS"
proof -
  have run: "\<exists>d. run_probe sample_run None ''now'' (Some ''perf'') [''true''] = Inr d"
  proof -
    have "\<exists>r. probe_event sample_run ''perf'' [''true''] ev = Inr r" for ev
    proof -
      have "utf8_valid ''Permission denied''" by (rule utf8_valid_ascii) simp
      then have "\<not> (\<exists>e. probe_event sample_run ''perf'' [''true''] ev = Inl e)"
        unfolding probe_event_Inl by (simp add: sample_run_def probe_breaks_def del: utf8_valid.simps(2))
      then show ?thesis by (cases "probe_event sample_run ''perf'' [''true''] ev") auto
    qed
    then have "\<not> (\<exists>e. rmap (probe_event sample_run ''perf'' [''true'']) EVENTS = Inl e)"
      unfolding events.raises_iff by (metis Inl_Inr_False)
    then obtain ps where "rmap (probe_event sample_run ''perf'' [''true'']) EVENTS = Inr ps"
      by (cases "rmap (probe_event sample_run ''perf'' [''true'']) EVENTS") auto
    then show ?thesis by (auto simp: run_probe_def find_perf_def)
  qed
  then obtain d where d: "run_probe sample_run None ''now'' (Some ''perf'') [''true''] = Inr d" ..
  with probe_reports_every_event [of "Some ''perf''" None "''perf''", OF _ _ d]
  show ?thesis by (simp add: find_perf_def)
qed

section \<open>The script\<close>

text \<open>C6: The script ends by an exception exactly when a \<open>perf\<close> is found and some probe cannot be
  started (a \<open>--perf\<close> that is no executable) or prints bytes that are not UTF-8, and then neither
  report is written. Otherwise it writes the two reports and nothing else, prints one line, and
  its exit code is 0 with a \<open>perf\<close> and 127 without one.\<close>

theorem probe_main_outcome:
  "case probe_main run which now jp mp perf fs of
     (fs', Inl e) \<Rightarrow> fs' = fs \<and> (\<exists>p. find_perf perf which = Some p \<and> p \<noteq> [] \<and>
        (\<exists>ev \<in> set EVENTS. probe_breaks (run (probe_argv p [''true''] ev))))
   | (fs', Inr (out, code)) \<Rightarrow> (\<exists>js md. fs' = fs(jp \<mapsto> js, mp \<mapsto> md)) \<and>
        (\<exists>l. CHR 0x0A \<notin> set l \<and> out = l @ [CHR 0x0A]) \<and>
        (case find_perf perf which of
           Some (c # cs) \<Rightarrow> code = 0 \<and>
             \<not> (\<exists>ev \<in> set EVENTS. probe_breaks (run (probe_argv (c # cs) [''true''] ev)))
         | _ \<Rightarrow> code = 127)"
proof (cases "run_probe run which now perf [''true'']")
  case (Inl e)
  then obtain p where p: "find_perf perf which = Some p" "p \<noteq> []"
    and "rmap (probe_event run p [''true'']) EVENTS = Inl e"
    by (auto simp: run_probe_def Let_def rbind_Inl_iff split: option.splits list.splits)
  then have "\<exists>ev \<in> set EVENTS. probe_breaks (run (probe_argv p [''true''] ev))"
    using events.raises_iff [of run p "[''true'']" EVENTS] by (auto simp: probe_event_Inl)
  with Inl p show ?thesis by (auto simp: probe_main_def)
next
  case (Inr d)
  have code: "case find_perf perf which of
      Some (c # cs) \<Rightarrow> probe_error d = None \<and>
        \<not> (\<exists>ev \<in> set EVENTS. probe_breaks (run (probe_argv (c # cs) [''true''] ev)))
    | _ \<Rightarrow> probe_error d = Some MISSING_PERF"
  proof (cases "\<exists>c cs. find_perf perf which = Some (c # cs)")
    case True
    then obtain c cs where f: "find_perf perf which = Some (c # cs)" by blast
    with Inr obtain ps where "rmap (probe_event run (c # cs) [''true'']) EVENTS = Inr ps"
      and d: "probe_error d = None"
      by (auto simp: run_probe_Inr)
    then have "\<not> (\<exists>ev \<in> set EVENTS. probe_breaks (run (probe_argv (c # cs) [''true''] ev)))"
      using events.raises_iff [of run "c # cs" "[''true'']" EVENTS] by (auto simp: probe_event_Inl)
    with f d show ?thesis by simp
  next
    case False
    with Inr show ?thesis by (auto simp: run_probe_Inr split: option.splits list.splits)
  qed
  show ?thesis
    using Inr code dumps_line_no_newline [of "data_doc d"]
    by (auto simp: probe_main_def MISSING_PERF_def split: option.splits list.splits)
qed

section \<open>The Markdown table\<close>

lemma split_on_join_nl:
  assumes "ls \<noteq> []" "\<forall>l \<in> set ls. c \<notin> set l"
  shows "split_on c (join_with c ls @ [c]) = ls @ [[]]"
proof -
  have "join_with c ls @ [c] = join_with c (ls @ [[]])"
    using assms(1) by (induction c ls rule: join_with.induct) auto
  with assms show ?thesis by (simp add: split_join)
qed

lemma cell_text_line: "CHR 0x0A \<notin> set (cell_text s)"
  using set_replace_char [of "CHR ''|''" "[CHR 0x5C, CHR ''|'']" "replace_char (CHR 0x0A) '' '' s"]
    set_replace_char [of "CHR 0x0A" "'' ''" s]
  by (auto simp: cell_text_def)

lemma EVENTS_lines: "ev \<in> set EVENTS \<Longrightarrow> CHR 0x0A \<notin> set ev"
  by (auto simp: EVENTS_def)

lemma CLASSES_lines: "cl \<in> set CLASSES \<Longrightarrow> CHR 0x0A \<notin> set cl"
  by (auto simp: CLASSES_def)

lemma run_probe_lines:
  assumes "run_probe run which now perf cmd = Inr d" "r \<in> set (events d)"
  shows "CHR 0x0A \<notin> set (event r) \<and> CHR 0x0A \<notin> set (classification r)"
proof -
  from assms obtain p where "find_perf perf which = Some p" "p \<noteq> []"
    by (auto simp: run_probe_Inr split: option.splits list.splits)
  from probe_reports_all [OF this assms(1)] assms(2) EVENTS_lines CLASSES_lines
  show ?thesis by (metis image_eqI list.set_map)
qed

text \<open>Whatever the diagnostics hold, line breaks and pipes included, the Markdown report is its
  eight header lines followed by exactly one line per reported event, provided the time stamp and
  the path of \<open>perf\<close> are single lines.\<close>

theorem markdown_one_row_per_event:
  assumes "run_probe run which now perf cmd = Inr d"
    and "CHR 0x0A \<notin> set now"
    and "\<forall>p. find_perf perf which = Some p \<longrightarrow> CHR 0x0A \<notin> set p"
  shows "split_on (CHR 0x0A) (render_markdown d) = markdown_head d @ map markdown_row (events d) @ [[]] \<and>
    length (markdown_head d) = 8"
proof -
  have stamp: "timestamp_utc d = now" and found: "perf_path d = find_perf perf which"
    using assms(1) by (auto simp: run_probe_Inr split: option.splits list.splits)
  have head: "\<forall>l \<in> set (markdown_head d). CHR 0x0A \<notin> set l"
    using assms(2,3) stamp found
    by (auto simp: markdown_head_def split: option.splits list.splits)
  have rows: "\<forall>l \<in> set (map markdown_row (events d)). CHR 0x0A \<notin> set l"
    using run_probe_lines [OF assms(1)] cell_text_line
    by (auto simp: markdown_row_def Let_def EM_DASH_def)
  have "markdown_head d @ map markdown_row (events d) \<noteq> []" by (simp add: markdown_head_def)
  from split_on_join_nl [OF this, of "CHR 0x0A"] head rows
  show ?thesis by (simp add: render_markdown_def ball_Un) (simp add: markdown_head_def)
qed

lemma markdown_one_row_per_event_witness:
  "\<exists>d. run_probe sample_run None ''now'' None [] = Inr d \<and>
     split_on (CHR 0x0A) (render_markdown d) = markdown_head d @ map markdown_row (events d) @ [[]]"
proof -
  obtain d where d: "run_probe sample_run None ''now'' None [] = Inr d"
    by (auto simp: run_probe_def find_perf_def)
  with markdown_one_row_per_event [OF d] show ?thesis by (simp add: find_perf_def)
qed

end
