(* ===== verification/Build_Verification.thy ===== *)
theory Build_Verification
  imports Py_Process
begin

text \<open>
  \<open>scripts/verify_llama_cpp_build.py\<close>: the three executables of a llama.cpp build are each run with
  \<open>--help\<close>, the outcome of each is printed, and the exit code says whether all of them passed.

  The machine is a record of what the script asks the operating system: whether a path is a
  regular file, whether it may be executed, and how a command run with a time limit ends.
  A time limit is a Python float.
\<close>

section \<open>The result of one executable\<close>

definition EXECUTABLES :: "string list" where
  "EXECUTABLES = [''llama-bench'', ''llama-cli'', ''llama-server'']"

definition DEFAULT_BUILD_DIR :: path where
  "DEFAULT_BUILD_DIR = path_of ''third_party/llama.cpp/build-release''"

record verification_result =
  result_name :: string
  result_path :: path
  result_stdout :: string
  result_stderr :: string
  return_code :: "int option"
  timed_out :: bool
  result_error :: "string option"

definition passed :: "verification_result \<Rightarrow> bool" where
  "passed r \<longleftrightarrow> result_error r = None \<and> \<not> timed_out r \<and> return_code r = Some 0"

text \<open>\<open>_text\<close>\<close>

definition text_of :: "captured \<Rightarrow> string" where
  "text_of v = (case v of NoOutput \<Rightarrow> [] | Bytes b \<Rightarrow> utf8_replace b | Str s \<Rightarrow> s)"

record machine =
  is_file :: "path \<Rightarrow> bool"
  may_execute :: "path \<Rightarrow> bool"
  run_command :: "string list \<Rightarrow> pyfloat \<Rightarrow> process_end"

text \<open>
  A result with a path and an error and nothing captured, and \<open>verify_executable\<close>. \<open>shown\<close> is
  \<open>f"{timeout:g}"\<close>.
\<close>

definition failed_result :: "path \<Rightarrow> string \<Rightarrow> verification_result" where
  "failed_result p err =
     \<lparr>result_name = path_name p, result_path = p, result_stdout = [], result_stderr = [],
      return_code = None, timed_out = False, result_error = Some err\<rparr>"

definition verify_executable ::
  "machine \<Rightarrow> pyfloat \<Rightarrow> string \<Rightarrow> path \<Rightarrow> verification_result res" where
  "verify_executable m timeout shown p =
     (if \<not> is_file m p then Inr (failed_result p ''file does not exist'')
      else if \<not> may_execute m p then Inr (failed_result p ''file is not executable'')
      else case run_command m [path_str p, ''--help''] timeout of
        TimedOut out err _ \<Rightarrow> Inr
          \<lparr>result_name = path_name p, result_path = p, result_stdout = text_of out,
           result_stderr = text_of err, return_code = None, timed_out = True,
           result_error = Some (''--help timed out after '' @ shown @ '' seconds'')\<rparr>
      | NotStarted exc \<Rightarrow> Inr (failed_result p exc)
      | Exited returncode out err \<Rightarrow> rbind (read_streams out err) (\<lambda>(o', e'). Inr
          \<lparr>result_name = path_name p, result_path = p, result_stdout = o', result_stderr = e',
           return_code = Some returncode, timed_out = False, result_error = None\<rparr>))"

definition verify_build ::
  "machine \<Rightarrow> path \<Rightarrow> pyfloat \<Rightarrow> string \<Rightarrow> verification_result list res" where
  "verify_build m build_dir timeout shown = (let binary_dir = path_join build_dir ''bin'' in
     rmap (verify_executable m timeout shown) (map (path_join binary_dir) EXECUTABLES))"

section \<open>The printed report\<close>

definition println :: "string \<Rightarrow> string" where
  "println s = s @ [CHR 0x0A]"

text \<open>\<open>print(s, end="" if s.endswith("\n") or not s else "\n")\<close>\<close>

definition print_block :: "string \<Rightarrow> string" where
  "print_block s = (if suffix [CHR 0x0A] s \<or> s = [] then s else println s)"

definition print_result :: "verification_result \<Rightarrow> string" where
  "print_result r =
     println (''['' @ (if passed r then ''PASS'' else ''FAIL'') @ ''] '' @ result_name r) @
     println (''path: '' @ path_str (result_path r)) @
     println (''return code: '' @ (case return_code r of None \<Rightarrow> ''not available'' | Some c \<Rightarrow> str_int c)) @
     println (''timed out: '' @ (if timed_out r then ''true'' else ''false'')) @
     (case result_error r of Some (c # cs) \<Rightarrow> println (''error: '' @ c # cs) | _ \<Rightarrow> []) @
     println ''--- stdout ---'' @ print_block (result_stdout r) @
     println ''--- stderr ---'' @ print_block (result_stderr r)"

fun print_results :: "nat \<Rightarrow> verification_result list \<Rightarrow> string" where
  "print_results i [] = []"
| "print_results i (r # rs) =
     (if i \<noteq> 0 then println [] else []) @ print_result r @ print_results (Suc i) rs"

section \<open>The script\<close>

text \<open>
  \<open>parse_args\<close>: the options as \<open>argparse\<close> hands them over, absent ones replaced by the defaults;
  \<open>None\<close> is \<open>parser.error\<close>, which exits with status 2.
\<close>

fun float_le_0 :: "pyfloat \<Rightarrow> bool" where
  "float_le_0 (Fin q) \<longleftrightarrow> q \<le> 0"
| "float_le_0 (Inf neg) \<longleftrightarrow> neg"
| "float_le_0 NaN \<longleftrightarrow> False"

definition parse_args :: "string option \<Rightarrow> pyfloat option \<Rightarrow> (path \<times> pyfloat) option" where
  "parse_args build_dir timeout =
     (let d = (case build_dir of None \<Rightarrow> DEFAULT_BUILD_DIR | Some s \<Rightarrow> path_of s);
          t = (case timeout of None \<Rightarrow> Fin 10 | Some t \<Rightarrow> t)
      in if float_le_0 t then None else Some (d, t))"

text \<open>What the script prints and its exit code; \<open>g t\<close> is \<open>f"{t:g}"\<close>.\<close>

definition verify_main ::
  "machine \<Rightarrow> (pyfloat \<Rightarrow> string) \<Rightarrow> string option \<Rightarrow> pyfloat option \<Rightarrow> (string \<times> int) res" where
  "verify_main m g build_dir timeout = (case parse_args build_dir timeout of
       None \<Rightarrow> Inr ([], 2)
     | Some (d, t) \<Rightarrow> rbind (verify_build m d t (g t)) (\<lambda>rs.
         Inr (print_results 0 rs, if list_all passed rs then 0 else 1)))"

section \<open>Names and order\<close>

lemma EXECUTABLES_single: "n \<in> set EXECUTABLES \<Longrightarrow> path_join p n = Path (path_root p) (path_parts p @ [n])"
  by (rule path_join_single) (auto simp: EXECUTABLES_def)

text \<open>What a result may look like: an error exactly when there is no return code, and texts.\<close>

definition result_ok :: "verification_result \<Rightarrow> bool" where
  "result_ok r \<longleftrightarrow> (return_code r = None \<longleftrightarrow> result_error r \<noteq> None) \<and>
     (timed_out r \<longrightarrow> return_code r = None) \<and> result_name r = path_name (result_path r)"

lemma result_ok_failed [simp]: "result_ok (failed_result p err)"
  by (simp add: result_ok_def failed_result_def)

lemma verify_executable_Inr:
  assumes "verify_executable m timeout shown p = Inr r"
  shows "result_ok r \<and> result_path r = p \<and>
    (passed r \<longleftrightarrow> is_file m p \<and> may_execute m p \<and>
      (\<exists>out err. run_command m [path_str p, ''--help''] timeout = Exited 0 out err))"
proof (cases "is_file m p \<and> may_execute m p")
  case True
  with assms show ?thesis
    by (cases "run_command m [path_str p, ''--help''] timeout")
      (auto simp: verify_executable_def result_ok_def passed_def failed_result_def)
next
  case False
  with assms show ?thesis
    by (auto simp: verify_executable_def result_ok_def passed_def failed_result_def split: if_splits)
qed

text \<open>An executable that ends with output that is not UTF-8.\<close>

definition undecodable :: "machine \<Rightarrow> pyfloat \<Rightarrow> path \<Rightarrow> bool" where
  "undecodable m timeout p \<longleftrightarrow> is_file m p \<and> may_execute m p \<and>
     (case run_command m [path_str p, ''--help''] timeout of
        Exited _ out err \<Rightarrow> \<not> (utf8_valid out \<and> utf8_valid err) | _ \<Rightarrow> False)"

lemma verify_executable_Inl:
  "verify_executable m timeout shown p = Inl e \<longleftrightarrow> undecodable m timeout p \<and> e = UnicodeDecodeError"
  by (auto simp: verify_executable_def undecodable_def read_streams_eq split: process_end.splits)

interpretation binaries: roster "verify_executable m timeout shown" result_path
  for m timeout shown
  using verify_executable_Inr by unfold_locales blast

definition binaries_of :: "path \<Rightarrow> path list" where
  "binaries_of build_dir = map (path_join (path_join build_dir ''bin'')) EXECUTABLES"

lemma verify_build_eq:
  "verify_build m d timeout shown = rmap (verify_executable m timeout shown) (binaries_of d)"
  by (simp add: verify_build_def binaries_of_def Let_def)

lemma path_join_bin: "path_join d ''bin'' = Path (path_root d) (path_parts d @ [''bin''])"
  by (rule path_join_single) auto

lemma binaries_of_eq:
  "binaries_of d = map (\<lambda>n. Path (path_root d) (path_parts d @ [''bin'', n])) EXECUTABLES"
  unfolding binaries_of_def using EXECUTABLES_single
  by (intro map_cong) (simp_all add: path_join_bin)

lemma map_path_name_binaries: "map path_name (binaries_of d) = EXECUTABLES"
  by (simp add: binaries_of_eq path_name_def comp_def)

text \<open>C39: The report has one result for each of the three executables, in the table's order and at
  its path below \<open>bin\<close> of the build directory; a result has an error exactly when it has no return
  code, a timeout always has one, and a result passes exactly when the file exists, may be executed
  and its \<open>--help\<close> ended with exit code 0.\<close>

theorem build_results_complete:
  assumes "verify_build m d timeout shown = Inr rs"
  shows "map result_name rs = EXECUTABLES \<and> map result_path rs = binaries_of d \<and>
    (\<forall>r \<in> set rs. result_ok r \<and>
      (passed r \<longleftrightarrow> is_file m (result_path r) \<and> may_execute m (result_path r) \<and>
        (\<exists>out err. run_command m [path_str (result_path r), ''--help''] timeout = Exited 0 out err)))"
proof -
  from assms have rs: "rmap (verify_executable m timeout shown) (binaries_of d) = Inr rs"
    by (simp add: verify_build_eq)
  note paths = binaries.names_kept [OF rs]
  have each: "\<forall>r \<in> set rs. result_ok r \<and>
      (passed r \<longleftrightarrow> is_file m (result_path r) \<and> may_execute m (result_path r) \<and>
        (\<exists>out err. run_command m [path_str (result_path r), ''--help''] timeout = Exited 0 out err))"
    using binaries.results_of_names [OF rs] verify_executable_Inr by metis
  then have "map result_name rs = map path_name (map result_path rs)"
    by (auto simp: result_ok_def)
  with paths each show ?thesis by (simp only: map_path_name_binaries simp_thms)
qed

definition sample_machine :: machine where
  "sample_machine =
     \<lparr>is_file = (\<lambda>p. path_name p \<noteq> ''llama-server''), may_execute = (\<lambda>_. True),
      run_command = (\<lambda>argv t. if t = Fin 10 then Exited 0 ''usage'' [] else TimedOut NoOutput NoOutput [])\<rparr>"

lemma build_results_complete_witness:
  "\<exists>rs. verify_build sample_machine DEFAULT_BUILD_DIR (Fin 10) ''10'' = Inr rs \<and>
     map result_name rs = EXECUTABLES"
proof -
  have "utf8_valid ''usage''" by (rule utf8_valid_ascii) simp
  then have "\<not> undecodable sample_machine (Fin 10) p" for p
    by (simp add: undecodable_def sample_machine_def del: utf8_valid.simps(2))
  then obtain rs where rs: "verify_build sample_machine DEFAULT_BUILD_DIR (Fin 10) ''10'' = Inr rs"
    using binaries.raises_iff [of sample_machine "Fin 10" "''10''" "binaries_of DEFAULT_BUILD_DIR"]
    by (cases "verify_build sample_machine DEFAULT_BUILD_DIR (Fin 10) ''10''")
      (auto simp: verify_build_eq verify_executable_Inl)
  with build_results_complete [OF rs] show ?thesis by blast
qed

section \<open>The exit code\<close>

lemma parse_args_None:
  "parse_args bd t = None \<longleftrightarrow> (\<exists>q. t = Some (Fin q) \<and> q \<le> 0) \<or> t = Some (Inf True)"
proof (cases t)
  case (Some x)
  then show ?thesis by (cases x) (auto simp: parse_args_def Let_def)
qed (simp add: parse_args_def Let_def)

text \<open>The guard on \<open>--timeout\<close> lets \<open>nan\<close> through, which is not greater than zero.\<close>

lemma nan_timeout_accepted: "parse_args None (Some NaN) = Some (DEFAULT_BUILD_DIR, NaN)"
  by (simp add: parse_args_def)

lemma verify_main_eq:
  "verify_main m g bd t = (case parse_args bd t of None \<Rightarrow> Inr ([], 2)
     | Some (d, l) \<Rightarrow> rbind (verify_build m d l (g l)) (\<lambda>rs.
         Inr (print_results 0 rs, if list_all passed rs then 0 else 1)))"
  by (simp add: verify_main_def)

text \<open>C4: The script exits with 0 exactly when its time limit is accepted and every one of the three
  executables exists, may be executed, and ends its \<open>--help\<close> within the limit with exit code 0 and
  UTF-8 output. So a build with one missing, hanging or crashing executable never verifies.\<close>

theorem build_verified_iff:
  "(\<exists>out. verify_main m g bd t = Inr (out, 0)) \<longleftrightarrow>
     (\<exists>d limit. parse_args bd t = Some (d, limit) \<and>
       (\<forall>p \<in> set (binaries_of d). is_file m p \<and> may_execute m p \<and>
         (\<exists>out err. run_command m [path_str p, ''--help''] limit = Exited 0 out err \<and>
            utf8_valid out \<and> utf8_valid err)))" (is "?l \<longleftrightarrow> ?r")
proof
  assume ?l
  then obtain d limit rs where p: "parse_args bd t = Some (d, limit)"
    and v: "verify_build m d limit (g limit) = Inr rs" and ok: "list_all passed rs"
    by (auto simp: verify_main_eq split: option.splits if_splits)
  from v have r: "rmap (verify_executable m limit (g limit)) (binaries_of d) = Inr rs"
    by (simp add: verify_build_eq)
  have "is_file m q \<and> may_execute m q \<and>
      (\<exists>out err. run_command m [path_str q, ''--help''] limit = Exited 0 out err \<and>
         utf8_valid out \<and> utf8_valid err)" if "q \<in> set (binaries_of d)" for q
  proof -
    from that binaries.names_kept [OF r] obtain x where x: "x \<in> set rs" "result_path x = q"
      by (metis imageE list.set_map)
    with binaries.results_of_names [OF r] have e: "verify_executable m limit (g limit) q = Inr x"
      by blast
    then have "\<not> undecodable m limit q"
      using verify_executable_Inl [of m limit "g limit" q] by auto
    with verify_executable_Inr [OF e] ok x show ?thesis
      by (auto simp: undecodable_def list_all_iff)
  qed
  with p show ?r by blast
next
  assume ?r
  then obtain d limit where p: "parse_args bd t = Some (d, limit)"
    and all: "\<forall>q \<in> set (binaries_of d). is_file m q \<and> may_execute m q \<and>
         (\<exists>out err. run_command m [path_str q, ''--help''] limit = Exited 0 out err \<and>
            utf8_valid out \<and> utf8_valid err)" by blast
  then have "\<not> (\<exists>q \<in> set (binaries_of d). \<exists>e. verify_executable m limit (g limit) q = Inl e)"
    by (auto simp: verify_executable_Inl undecodable_def split: process_end.splits)
  then obtain rs where v: "verify_build m d limit (g limit) = Inr rs"
    using binaries.raises_iff [of m limit "g limit" "binaries_of d"]
    by (cases "verify_build m d limit (g limit)") (auto simp: verify_build_eq)
  then have r: "rmap (verify_executable m limit (g limit)) (binaries_of d) = Inr rs"
    by (simp add: verify_build_eq)
  have "passed x" if "x \<in> set rs" for x
    using binaries.results_of_names [OF r] that all verify_executable_Inr [of m limit "g limit"] by blast
  then have "list_all passed rs" by (simp add: list_all_iff)
  with p v show ?l by (auto simp: verify_main_eq)
qed

lemma build_verified_iff_witness:
  "\<exists>out. verify_main (sample_machine\<lparr>is_file := \<lambda>_. True\<rparr>) (\<lambda>_. ''10'') None None = Inr (out, 0)"
proof -
  have "utf8_valid ''usage''" by (rule utf8_valid_ascii) simp
  then show ?thesis
    unfolding build_verified_iff
    by (simp add: parse_args_def sample_machine_def del: utf8_valid.simps(2))
qed


section \<open>What the script runs\<close>

text \<open>Only a regular file that may be executed is ever run, and only as \<open><path> --help\<close> under the
  given limit: on two machines with the same files that agree on these commands the script prints
  the same report and ends in the same way, whatever any other command would do.\<close>

theorem only_executables_run:
  assumes "is_file m' = is_file m" and "may_execute m' = may_execute m"
    and "\<forall>p t. is_file m p \<and> may_execute m p \<longrightarrow>
      run_command m' [path_str p, ''--help''] t = run_command m [path_str p, ''--help''] t"
  shows "verify_main m' g bd t = verify_main m g bd t"
proof -
  have "verify_executable m' l s p = verify_executable m l s p" for l s p
    using assms by (simp add: verify_executable_def)
  then have "verify_executable m' = verify_executable m" by blast
  then have "verify_build m' = verify_build m"
    by (intro ext) (simp add: verify_build_eq)
  then show ?thesis unfolding verify_main_eq by (simp only:)
qed

lemma only_executables_run_witness:
  "verify_main (sample_machine\<lparr>run_command := \<lambda>argv t. if argv = [''rm''] then Exited 1 [] []
      else run_command sample_machine argv t\<rparr>) (\<lambda>_. ''10'') None None =
   verify_main sample_machine (\<lambda>_. ''10'') None None"
  by (rule only_executables_run) (simp_all add: sample_machine_def)

section \<open>The report\<close>

lemma split_on_println: "CHR 0x0A \<notin> set s \<Longrightarrow> split_on (CHR 0x0A) (println s @ u) = s # split_on (CHR 0x0A) u"
  by (simp add: println_def split_on_append)

lemma print_block_ends: "print_block s = [] \<or> suffix [CHR 0x0A] (print_block s)"
  by (auto simp: print_block_def println_def)

text \<open>Every section of the report ends at the start of a line, so two results never share one.\<close>

lemma print_result_ends: "suffix [CHR 0x0A] (print_result r)"
proof -
  have block: "suffix [CHR 0x0A] (a @ print_block t)" if "suffix [CHR 0x0A] a" for a t
    using print_block_ends [of t] that by (auto simp: suffix_def)
  have "suffix [CHR 0x0A] (a @ println s)" for a s
    by (simp add: println_def suffix_def)
  from block [OF this] show ?thesis
    unfolding print_result_def by (simp only: append_assoc [symmetric])
qed

end
