(* ===== verification/Model_Download.thy ===== *)
theory Model_Download
  imports Py_Process "HOL-Library.List_Lexorder" "HOL-Library.Char_ord"
begin

text \<open>
  \<open>scripts/download_model.py\<close>: a model file is streamed from Hugging Face into a \<open>.part\<close> file beside
  its destination (resumed when one is left over), moved to the destination, checked against the
  expected digest and size, and described by a \<open>.metadata.json\<close> file. (The configuration that names
  the three models to fetch, and the script itself, are in \<open>Model_Config\<close>.)

  The state is the map of files. A file name is a single component, so the destination, the partial
  file and the metadata file are three entries of the models directory; \<open>mkdir\<close> makes the directory
  exist and is not recorded. The rest of the world is the record \<open>world\<close>: the SHA-256 digest as a
  hexadecimal text, \<open>json.loads\<close> and \<open>yaml.safe_load\<close> (\<open>None\<close> is a document that does not parse),
  \<open>str\<close> of a float, a list or a mapping, the clock, and \<open>urllib.request.urlopen\<close>, which answers a URL and a \<open>Range\<close> header with an error or a
  reply. A reply is read in chunks; reading it may end by an exception.
\<close>

section \<open>The world\<close>

text \<open>
  \<open>Reply status content_length chunks failure\<close>: the reads return the chunks in turn, then the end
  of the stream, or raise the failure.
\<close>

datatype reply =
    OpenError py_error
  | Reply "int option" "string option" "string list" "py_error option"

record world =
  sha256 :: "string \<Rightarrow> string"
  json_loads :: "string \<Rightarrow> json option"
  yaml_load :: "string \<Rightarrow> json option"
  render :: "json \<Rightarrow> string"
  clock :: string
  open_url :: "string \<Rightarrow> string option \<Rightarrow> reply"

text \<open>\<open>while chunk := stream.read(n)\<close>: the chunks of a file, and the digest fed with them in turn.\<close>

function chunks :: "nat \<Rightarrow> string \<Rightarrow> string list" where
  "chunks n s = (if n = 0 \<or> s = [] then [] else take n s # chunks n (drop n s))"
  by pat_completeness auto
termination by (relation "measure (\<lambda>(n, s). length s)") auto

declare chunks.simps [simp del]

definition sha256_file :: "world \<Rightarrow> nat \<Rightarrow> string \<Rightarrow> string" where
  "sha256_file w chunk_size content = sha256 w (foldl (@) [] (chunks chunk_size content))"

section \<open>The URL of a model\<close>

definition quote_safe :: "char \<Rightarrow> bool" where
  "quote_safe c \<longleftrightarrow> (let n = ord c in 48 \<le> n \<and> n \<le> 57 \<or> 65 \<le> n \<and> n \<le> 90 \<or> 97 \<le> n \<and> n \<le> 122) \<or>
     c \<in> set ''_.-~/''"

definition hex_upper :: "nat \<Rightarrow> char" where
  "hex_upper d = char_of (if d < 10 then 48 + d else 55 + d)"

text \<open>\<open>urllib.parse.quote\<close>, on the UTF-8 bytes\<close>

definition quote_char :: "char \<Rightarrow> string" where
  "quote_char c = (if quote_safe c then [c]
     else [CHR ''%'', hex_upper (ord c div 16), hex_upper (ord c mod 16)])"

definition quote :: "string \<Rightarrow> string" where
  "quote s = concat (map quote_char s)"

definition source_url :: "string \<Rightarrow> string \<Rightarrow> string \<Rightarrow> string res" where
  "source_url repository filename revision = checked (first_error
     [reject (repository = [] \<or> prefix ''/'' repository \<or> prefix ''.'' repository \<or>
        count_list repository (CHR ''/'') \<noteq> 1) (DownloadError ''repository must have the form owner/name''),
      reject (filename = [] \<or> path_name (path_of filename) \<noteq> filename)
        (DownloadError ''filename must be a single file name''),
      reject (revision = [] \<or> CHR ''/'' \<in> set revision \<or> prefix ''.'' revision)
        (DownloadError ''revision must be a branch, tag, or commit without slashes'')])
     (Inr (''https://huggingface.co/'' @ repository @ ''/resolve/'' @ quote revision @ ''/'' @
        quote filename @ ''?download=true''))"

section \<open>Metadata\<close>

type_synonym metadata = "(string \<times> doc) list"

text \<open>The keyword arguments of \<open>download_model\<close>; the two expectations come from YAML and may hold
  any value, \<open>JNull\<close> when absent.\<close>

record model_options =
  logical_id :: "string option"
  quantization :: "string option"
  base_model :: "string option"
  parameter_count :: "int option"
  revision :: string
  expected_sha256 :: json
  expected_byte_size :: json

text \<open>The defaults of the keyword arguments\<close>

definition default_options :: model_options where
  "default_options = \<lparr>logical_id = None, quantization = None, base_model = None,
     parameter_count = None, revision = ''main'', expected_sha256 = JNull, expected_byte_size = JNull\<rparr>"

definition model_metadata ::
  "world \<Rightarrow> string \<Rightarrow> path \<Rightarrow> string \<Rightarrow> string \<Rightarrow> string \<Rightarrow> model_options \<Rightarrow> metadata" where
  "model_metadata w content p repository url filename opts =
     [(''logical_model_id'', DStr (case logical_id opts of
         Some (c # cs) \<Rightarrow> c # cs | _ \<Rightarrow> name_stem (path_name (path_of filename)))),
      (''quantization'', doc_opt DStr (quantization opts)),
      (''source_repository'', DStr repository),
      (''source_filename'', DStr filename),
      (''local_filename'', DStr (path_name p)),
      (''source_url'', DStr url),
      (''source_revision'', DStr (revision opts)),
      (''base_model_name'', doc_opt DStr (base_model opts)),
      (''parameter_count'', doc_opt DInt (parameter_count opts)),
      (''download_timestamp'', DStr (clock w)),
      (''filename'', DStr filename),
      (''byte_size'', DInt (int (length content))),
      (''sha256'', DStr (sha256_file w (1024 * 1024) content))]"

definition metadata_for ::
  "world \<Rightarrow> files \<Rightarrow> path \<Rightarrow> string \<Rightarrow> string \<Rightarrow> string \<Rightarrow> model_options \<Rightarrow> metadata res" where
  "metadata_for w fs p repository url filename opts = (case fs p of
       None \<Rightarrow> Inl (OSError ''No such file or directory'')
     | Some content \<Rightarrow>
        if length content \<le> 0 then Inl (DownloadError ''rejecting empty model file'')
        else Inr (model_metadata w content p repository url filename opts))"

text \<open>\<open>path.with_suffix(path.suffix + ext)\<close>\<close>

definition sidecar :: "path \<Rightarrow> string \<Rightarrow> path" where
  "sidecar p ext = with_suffix p (name_suffix (path_name p) @ ext)"

abbreviation metadata_path :: "path \<Rightarrow> path" where
  "metadata_path p \<equiv> sidecar p ''.metadata.json''"

abbreviation partial_path :: "path \<Rightarrow> path" where
  "partial_path p \<equiv> sidecar p ''.part''"

definition metadata_text :: "metadata \<Rightarrow> string" where
  "metadata_text m = json_dumps (DObj (sort_key fst m)) @ [CHR 0x0A]"

definition write_metadata :: "files \<Rightarrow> path \<Rightarrow> metadata \<Rightarrow> files" where
  "write_metadata fs p m = fs(metadata_path p \<mapsto> metadata_text m)"

section \<open>Checks against earlier metadata and expectations\<close>

definition IDENTITY :: "string list" where
  "IDENTITY =
    [''logical_model_id'', ''quantization'', ''source_repository'', ''source_filename'',
     ''source_revision'', ''base_model_name'', ''parameter_count'', ''byte_size'', ''sha256'']"

definition meta_get :: "metadata \<Rightarrow> string \<Rightarrow> json" where
  "meta_get m k = (case map_of m k of None \<Rightarrow> JNull | Some d \<Rightarrow> doc_json d)"

text \<open>
  \<open>any(key in previous and previous.get(key) != metadata.get(key) for key in identity)\<close> for
  whatever the earlier file holds: \<open>in\<close> works on a dictionary, a list and a text, \<open>get\<close> only on a
  dictionary.
\<close>

definition identity_differs :: "json \<Rightarrow> metadata \<Rightarrow> bool res" where
  "identity_differs previous m = (case previous of
       JObj _ \<Rightarrow> Inr (list_ex (\<lambda>k. jhas previous k \<and> \<not> py_eq (jget previous k) (meta_get m k)) IDENTITY)
     | JList vs \<Rightarrow> if list_ex (\<lambda>k. JStr k \<in> set vs) IDENTITY then Inl (AttributeError ''get'') else Inr False
     | JStr s \<Rightarrow> if list_ex (\<lambda>k. sublist k s) IDENTITY then Inl (AttributeError ''get'') else Inr False
     | _ \<Rightarrow> Inl (TypeError ''argument is not iterable''))"

definition check_previous :: "world \<Rightarrow> string \<Rightarrow> metadata \<Rightarrow> check" where
  "check_previous w content m = error_of (rbind (read_text content) (\<lambda>t.
     case json_loads w t of
       None \<Rightarrow> Inl (DownloadError ''cannot read existing metadata'')
     | Some previous \<Rightarrow> rbind (identity_differs previous m) (\<lambda>differs.
         if differs then Inl (DownloadError ''existing model does not match its metadata; remove it and retry'')
         else Inr ())))"

definition check_expected :: "model_options \<Rightarrow> metadata \<Rightarrow> check" where
  "check_expected opts m = first_error
     [if \<not> truthy (expected_sha256 opts) then None
      else (case expected_sha256 opts of
          JStr s \<Rightarrow> reject (meta_get m ''sha256'' \<noteq> JStr (lower s)) (DownloadError ''checksum mismatch'')
        | _ \<Rightarrow> Some (AttributeError ''lower'')),
      reject (truthy (expected_byte_size opts) \<and>
          \<not> py_eq (meta_get m ''byte_size'') (expected_byte_size opts))
        (DownloadError ''byte-size mismatch'')]"

section \<open>Downloading one model\<close>

type_synonym outcome = "files \<times> (path \<times> metadata) res"

text \<open>The branch for a destination that exists.\<close>

definition download_existing ::
  "world \<Rightarrow> files \<Rightarrow> path \<Rightarrow> string \<Rightarrow> string \<Rightarrow> string \<Rightarrow> model_options \<Rightarrow> outcome" where
  "download_existing w fs destination repository url filename opts =
     (case rbind (metadata_for w fs destination repository url filename opts) (\<lambda>m.
        checked (first_error
          [case fs (metadata_path destination) of None \<Rightarrow> None | Some content \<Rightarrow> check_previous w content m,
           check_expected opts m]) (Inr m)) of
        Inl e \<Rightarrow> (fs, Inl e)
      | Inr m \<Rightarrow> (write_metadata fs destination m, Inr (destination, m)))"

text \<open>The loop over \<open>response.read\<close>: what it has received, and the exception that ended it.\<close>

fun read_loop :: "string list \<Rightarrow> py_error option \<Rightarrow> string \<times> py_error option" where
  "read_loop [] failure = ([], failure)"
| "read_loop (c # cs) failure = (if c = [] then ([], None)
     else (let (body, e) = read_loop cs failure in (c @ body, e)))"

text \<open>
  The \<open>try\<close> block: the files and the number of bytes the partial file should have, or the exception
  raised in it.
\<close>

definition fetch :: "world \<Rightarrow> files \<Rightarrow> path \<Rightarrow> string \<Rightarrow> files \<times> int option res" where
  "fetch w fs partial url =
     (let old = (case fs partial of None \<Rightarrow> [] | Some c \<Rightarrow> c);
          offset = length old;
          range = (if offset \<noteq> 0 then Some (''bytes='' @ str_nat offset @ ''-'') else None)
      in case open_url w url range of
        OpenError e \<Rightarrow> (fs, Inl e)
      | Reply status content_length cs failure \<Rightarrow>
         (let resumed = offset > 0 \<and> (case status of None \<Rightarrow> 200 | Some s \<Rightarrow> s) = 206;
              offset = (if offset \<noteq> 0 \<and> \<not> resumed then 0 else offset)
          in case (case content_length of None \<Rightarrow> Inr None
                   | Some t \<Rightarrow> (case parse_int t of
                        None \<Rightarrow> Inl (ValueError ''invalid literal for int()'')
                      | Some n \<Rightarrow> Inr (Some (int offset + n)))) of
               Inl e \<Rightarrow> (fs, Inl e)
             | Inr expected \<Rightarrow>
                (let (body, e) = read_loop cs failure
                 in (fs(partial \<mapsto> (if resumed then old else []) @ body),
                     case e of Some e \<Rightarrow> Inl e | None \<Rightarrow> Inr expected))))"

text \<open>The exceptions the handler turns into a \<open>DownloadError\<close>.\<close>

definition caught :: "py_error \<Rightarrow> bool" where
  "caught e = (case e of OSError _ \<Rightarrow> True | ValueError _ \<Rightarrow> True | UnicodeDecodeError \<Rightarrow> True | _ \<Rightarrow> False)"

definition download_fresh ::
  "world \<Rightarrow> files \<Rightarrow> path \<Rightarrow> string \<Rightarrow> string \<Rightarrow> string \<Rightarrow> model_options \<Rightarrow> outcome" where
  "download_fresh w fs destination repository url filename opts =
     (let partial = partial_path destination in
      case fetch w fs partial url of
        (fs1, Inl e) \<Rightarrow> (fs1, Inl (if caught e then DownloadError ''download failed'' else e))
      | (fs1, Inr expected) \<Rightarrow>
         (let actual = (case fs1 partial of None \<Rightarrow> 0 | Some c \<Rightarrow> int (length c)) in
          if actual = 0 then (fs1, Inl (DownloadError ''download returned an empty file''))
          else if expected \<noteq> None \<and> Some actual \<noteq> expected
          then (fs1, Inl (DownloadError ''incomplete download''))
          else (let fs2 = fs1(destination := fs1 partial, partial := None) in
            case metadata_for w fs2 destination repository url filename opts of
              Inl e \<Rightarrow> (fs2, Inl e)
            | Inr m \<Rightarrow> (case check_expected opts m of
                Some (DownloadError msg) \<Rightarrow> (fs2(destination := None), Inl (DownloadError msg))
              | Some e \<Rightarrow> (fs2, Inl e)
              | None \<Rightarrow> (write_metadata fs2 destination m, Inr (destination, m))))))"

definition download_model ::
  "world \<Rightarrow> files \<Rightarrow> string \<Rightarrow> string \<Rightarrow> path \<Rightarrow> model_options \<Rightarrow> outcome" where
  "download_model w fs repository filename models_dir opts =
     (case source_url repository filename (revision opts) of
        Inl e \<Rightarrow> (fs, Inl e)
      | Inr url \<Rightarrow>
         (let destination = path_join models_dir filename in
          if fs destination \<noteq> None
          then download_existing w fs destination repository url filename opts
          else download_fresh w fs destination repository url filename opts))"

section \<open>Digest and names\<close>

lemma concat_chunks: "0 < n \<Longrightarrow> concat (chunks n s) = s"
proof (induction n s rule: chunks.induct)
  case (1 n s)
  then show ?case by (cases "s = []") (simp_all add: chunks.simps)
qed

text \<open>The digest does not depend on the chunk size.\<close>

lemma foldl_append: "foldl (@) a xs = a @ concat xs"
  by (induction xs arbitrary: a) auto

lemma sha256_file_whole: "0 < n \<Longrightarrow> sha256_file w n s = sha256 w s"
  by (simp add: sha256_file_def concat_chunks foldl_append)

lemma prefix_single: "prefix [c] s \<longleftrightarrow> (\<exists>u. s = c # u)"
  by (auto simp: prefix_def)

definition file_name_ok :: "string \<Rightarrow> bool" where
  "file_name_ok f \<longleftrightarrow> f \<noteq> [] \<and> CHR ''/'' \<notin> set f \<and> f \<noteq> ''.''"

lemma source_url_Inr:
  "source_url r f v = Inr u \<longleftrightarrow>
     \<not> prefix ''/'' r \<and> \<not> prefix ''.'' r \<and> count_list r (CHR ''/'') = 1 \<and> file_name_ok f \<and>
     v \<noteq> [] \<and> CHR ''/'' \<notin> set v \<and> \<not> prefix ''.'' v \<and>
     u = ''https://huggingface.co/'' @ r @ ''/resolve/'' @ quote v @ ''/'' @ quote f @ ''?download=true''"
  using path_name_eq_iff [of f] by (auto simp: source_url_def file_name_ok_def)

lemma source_url_Inl: "source_url r f v = Inl e \<Longrightarrow> \<exists>msg. e = DownloadError msg"
  by (auto simp: source_url_def checked_def reject_def first_error.simps(2) split: option.splits if_splits)

lemma path_join_ok: "file_name_ok f \<Longrightarrow> path_join p f = Path (path_root p) (path_parts p @ [f])"
  by (simp add: path_join_single file_name_ok_def)

lemma sidecar_join:
  "file_name_ok f \<Longrightarrow> sidecar (path_join p f) ext = Path (path_root p) (path_parts p @ [f @ ext])"
  by (simp add: sidecar_def path_join_ok with_suffix_append) (simp add: path_name_def)

text \<open>The three files of a model are different files of the models directory.\<close>

lemma model_files_distinct:
  assumes "file_name_ok f"
  shows "path_join p f \<noteq> metadata_path (path_join p f)" "path_join p f \<noteq> partial_path (path_join p f)"
    "metadata_path (path_join p f) \<noteq> partial_path (path_join p f)"
    "metadata_path (path_join p f) \<noteq> path_join p f" "partial_path (path_join p f) \<noteq> path_join p f"
    "partial_path (path_join p f) \<noteq> metadata_path (path_join p f)"
  unfolding sidecar_join [OF assms] by (simp_all add: path_join_ok [OF assms])

lemma path_name_join: "file_name_ok f \<Longrightarrow> path_name (path_join p f) = f"
  by (simp add: path_join_ok path_name_def)

text \<open>The file name \<open>..\<close> is accepted as a single file name, although it names a directory, and so is a
  repository without a name.\<close>

lemma dotdot_accepted: "\<exists>u. source_url ''owner/name'' ''..'' ''main'' = Inr u"
  by (auto simp: source_url_Inr file_name_ok_def prefix_single)

lemma empty_name_accepted: "\<exists>u. source_url ''owner/'' ''model.gguf'' ''main'' = Inr u"
  by (auto simp: source_url_Inr file_name_ok_def prefix_single)

section \<open>The URL determines what it names\<close>

lemma hex_upper_inj: "a < 16 \<Longrightarrow> b < 16 \<Longrightarrow> hex_upper a = hex_upper b \<Longrightarrow> a = b"
proof -
  assume "a < 16" "b < 16" "hex_upper a = hex_upper b"
  then have "ord (hex_upper a) = ord (hex_upper b)" by simp
  with \<open>a < 16\<close> \<open>b < 16\<close> show ?thesis by (auto simp: hex_upper_def split: if_splits)
qed

lemma nibbles: "ord c div 16 < 16" "ord c mod 16 < 16"
proof -
  have "ord c < 16 * 16" by simp
  then show "ord c div 16 < 16" by (simp only: less_mult_imp_div_less)
qed simp

lemma percent_not_safe: "\<not> quote_safe (CHR ''%'')"
  by (simp add: quote_safe_def)

lemma quote_char_prefix:
  assumes "quote_char c @ s = quote_char d @ t"
  shows "c = d \<and> s = t"
proof -
  have eq: "ord c = ord d" if "ord c div 16 = ord d div 16" "ord c mod 16 = ord d mod 16"
    using that by (metis div_mult_mod_eq)
  consider "quote_safe c" "quote_safe d" | "quote_safe c" "\<not> quote_safe d"
    | "\<not> quote_safe c" "quote_safe d" | "\<not> quote_safe c" "\<not> quote_safe d" by blast
  then show ?thesis
  proof cases
    case 4
    with assms have h: "hex_upper (ord c div 16) = hex_upper (ord d div 16)"
      "hex_upper (ord c mod 16) = hex_upper (ord d mod 16)" "s = t"
      by (simp_all add: quote_char_def)
    have "ord c div 16 = ord d div 16" "ord c mod 16 = ord d mod 16"
      using h(1,2) nibbles [of c] nibbles [of d] by (blast intro: hex_upper_inj)+
    then show ?thesis using eq h(3) by simp
  qed (use assms percent_not_safe in \<open>auto simp: quote_char_def\<close>)
qed

lemma quote_inj: "quote s = quote t \<Longrightarrow> s = t"
proof (induction s arbitrary: t)
  case Nil
  then show ?case by (cases t) (auto simp: quote_def quote_char_def split: if_splits)
next
  case (Cons c s)
  then obtain d u where t: "t = d # u"
    by (cases t) (auto simp: quote_def quote_char_def split: if_splits)
  with Cons.prems have "quote_char c @ quote s = quote_char d @ quote u" by (simp add: quote_def)
  from quote_char_prefix [OF this] Cons.IH t show ?case by auto
qed

lemma ord_hex_upper: "d < 16 \<Longrightarrow> ord (hex_upper d) = (if d < 10 then 48 + d else 55 + d)"
  by (simp add: hex_upper_def)

lemma hex_upper_no_slash: "d < 16 \<Longrightarrow> hex_upper d \<noteq> CHR ''/''"
proof
  assume "d < 16" "hex_upper d = CHR ''/''"
  with ord_hex_upper [of d] show False by (simp split: if_splits)
qed

lemma quote_no_slash: "CHR ''/'' \<notin> set s \<Longrightarrow> CHR ''/'' \<notin> set (quote s)"
proof (induction s)
  case (Cons c s)
  have "CHR ''/'' \<notin> set (quote_char c)"
  proof -
    have "hex_upper (ord c div 16) \<noteq> CHR ''/''" "hex_upper (ord c mod 16) \<noteq> CHR ''/''"
      using hex_upper_no_slash nibbles by blast+
    with Cons.prems show ?thesis by (auto simp: quote_char_def)
  qed
  with Cons show ?case by (simp add: quote_def)
qed (simp add: quote_def)

lemma split_two:
  assumes "count_list r c = 1"
  obtains a b where "r = a @ c # b" "c \<notin> set a" "c \<notin> set b"
proof -
  from assms have "c \<in> set r" by (metis count_list_0_iff zero_neq_one)
  then obtain a b where r: "r = a @ c # b" "c \<notin> set a" by (meson split_list_first)
  with assms have "count_list b c = 0" by (simp add: count_list_append)
  with r that show thesis by (simp add: count_list_0_iff)
qed

text \<open>C35: Two accepted requests with the same URL are the same request: repository, file name and
  revision can all be read off it. So percent-encoding and the slash checks let no file name or
  revision pass for another one.\<close>

theorem source_url_injective:
  assumes "source_url r f v = Inr u" and "source_url r' f' v' = Inr u"
  shows "r = r' \<and> f = f' \<and> v = v'"
proof -
  from assms have cnt: "count_list r (CHR ''/'') = 1" "count_list r' (CHR ''/'') = 1"
    and v: "CHR ''/'' \<notin> set v" "CHR ''/'' \<notin> set v'"
    and eq: "r @ ''/resolve/'' @ quote v @ ''/'' @ quote f @ ''?download=true'' =
      r' @ ''/resolve/'' @ quote v' @ ''/'' @ quote f' @ ''?download=true''"
    by (simp_all add: source_url_Inr)
  from cnt(1) obtain a b where r: "r = a @ CHR ''/'' # b" "CHR ''/'' \<notin> set a" "CHR ''/'' \<notin> set b"
    by (rule split_two)
  from cnt(2) obtain a' b' where r': "r' = a' @ CHR ''/'' # b'" "CHR ''/'' \<notin> set a'" "CHR ''/'' \<notin> set b'"
    by (rule split_two)
  let ?t = "\<lambda>v f. CHR ''r'' # ''esolve/'' @ quote v @ ''/'' @ quote f @ ''?download=true''"
  from eq r(1) r'(1) have "a @ CHR ''/'' # b @ CHR ''/'' # ?t v f = a' @ CHR ''/'' # b' @ CHR ''/'' # ?t v' f'"
    by simp
  from same_split [OF this r(2) r'(2)] have ab: "a = a'"
    and e2: "b @ CHR ''/'' # ?t v f = b' @ CHR ''/'' # ?t v' f'" by simp_all
  from same_split [OF e2 r(3) r'(3)] have b: "b = b'"
    and "quote v @ CHR ''/'' # quote f @ ''?download=true'' = quote v' @ CHR ''/'' # quote f' @ ''?download=true''"
    by simp_all
  from same_split [OF this(2)] v quote_no_slash have "quote v = quote v'" "quote f = quote f'" by auto
  with quote_inj ab b r(1) r'(1) show ?thesis by blast
qed

lemma source_url_injective_witness:
  "\<exists>u. source_url ''Qwen/m'' ''a b.gguf'' ''main'' = Inr u \<and>
     (\<forall>f'. source_url ''Qwen/m'' f' ''main'' = Inr u \<longrightarrow> f' = ''a b.gguf'')"
proof -
  obtain u where u: "source_url ''Qwen/m'' ''a b.gguf'' ''main'' = Inr u"
    by (auto simp: source_url_Inr file_name_ok_def prefix_single)
  with source_url_injective [OF _ u] show ?thesis by blast
qed

section \<open>One download\<close>

lemma metadata_for_Inr:
  "metadata_for w fs p r u f opts = Inr m \<longleftrightarrow>
     (\<exists>content. fs p = Some content \<and> content \<noteq> [] \<and> m = model_metadata w content p r u f opts)"
  by (auto simp: metadata_for_def split: option.splits)

lemma meta_get_size: "meta_get (model_metadata w content p r u f opts) ''byte_size'' = JInt (int (length content))"
  by (simp add: meta_get_def model_metadata_def)

lemma meta_get_sha: "meta_get (model_metadata w content p r u f opts) ''sha256'' = JStr (sha256 w content)"
  by (simp add: meta_get_def model_metadata_def sha256_file_whole)

lemmas meta_gets = meta_get_size meta_get_sha

text \<open>What the expectations ask of a content.\<close>

definition expectations_met :: "world \<Rightarrow> model_options \<Rightarrow> string \<Rightarrow> bool" where
  "expectations_met w opts content \<longleftrightarrow>
     (truthy (expected_sha256 opts) \<longrightarrow>
        (\<exists>s. expected_sha256 opts = JStr s \<and> lower s = sha256 w content)) \<and>
     (truthy (expected_byte_size opts) \<longrightarrow>
        py_eq (JInt (int (length content))) (expected_byte_size opts))"

lemma check_expected_None:
  "check_expected opts (model_metadata w content p r u f opts') = None \<longleftrightarrow> expectations_met w opts content"
  by (cases "expected_sha256 opts")
    (auto simp: check_expected_def expectations_met_def meta_gets split: if_splits)

lemma check_expected_Some:
  "check_expected opts m = Some e \<Longrightarrow>
     (\<exists>msg. e = DownloadError msg) \<or>
     e = AttributeError ''lower'' \<and> truthy (expected_sha256 opts) \<and> \<not> is_JStr (expected_sha256 opts)"
  by (cases "expected_sha256 opts")
    (auto simp: check_expected_def reject_def first_error.simps(2) split: if_splits)

lemma download_existing_Inr:
  "download_existing w fs d r u f opts = (fs', Inr pm) \<longleftrightarrow>
     (\<exists>content. fs d = Some content \<and> content \<noteq> [] \<and> expectations_met w opts content \<and>
       (case fs (metadata_path d) of None \<Rightarrow> True
        | Some c \<Rightarrow> check_previous w c (model_metadata w content d r u f opts) = None) \<and>
       pm = (d, model_metadata w content d r u f opts) \<and>
       fs' = write_metadata fs d (model_metadata w content d r u f opts))" (is "?l \<longleftrightarrow> ?r")
proof -
  let ?run = "rbind (metadata_for w fs d r u f opts) (\<lambda>m. checked (first_error
      [case fs (metadata_path d) of None \<Rightarrow> None | Some content \<Rightarrow> check_previous w content m,
       check_expected opts m]) (Inr m))"
  have "?l \<longleftrightarrow> (\<exists>m. ?run = Inr m \<and> pm = (d, m) \<and> fs' = write_metadata fs d m)"
    unfolding download_existing_def by (cases ?run) auto
  also have "\<dots> \<longleftrightarrow> ?r"
    by (auto simp: metadata_for_Inr check_expected_None split: option.splits)
  finally show ?thesis .
qed

lemma download_existing_Inl: "download_existing w fs d r u f opts = (fs', Inl e) \<Longrightarrow> fs' = fs"
  by (auto simp: download_existing_def split: sum.splits)

lemma fetch_frame:
  assumes "fetch w fs p u = (fs1, x)"
  shows "\<exists>c. fs1 = fs(p := c)" and "x = Inr n \<Longrightarrow> fs1 p \<noteq> None"
proof -
  show "\<exists>c. fs1 = fs(p := c)"
    using assms
    by (auto simp: fetch_def Let_def split: reply.splits sum.splits option.splits prod.splits if_splits)
      (metis fun_upd_triv)+
  show "x = Inr n \<Longrightarrow> fs1 p \<noteq> None"
    using assms
    by (auto simp: fetch_def Let_def split: reply.splits sum.splits option.splits prod.splits if_splits)
qed

text \<open>The steps after the transfer, on a partial file that holds \<open>content\<close>.\<close>

definition finish_download ::
  "world \<Rightarrow> files \<Rightarrow> path \<Rightarrow> string \<Rightarrow> string \<Rightarrow> string \<Rightarrow> string \<Rightarrow> model_options \<Rightarrow> int option \<Rightarrow> outcome" where
  "finish_download w fs1 d content r u f opts expected =
     (if content = [] then (fs1, Inl (DownloadError ''download returned an empty file''))
      else if expected \<noteq> None \<and> Some (int (length content)) \<noteq> expected
      then (fs1, Inl (DownloadError ''incomplete download''))
      else (let fs2 = fs1(d \<mapsto> content, partial_path d := None);
                m = model_metadata w content d r u f opts
        in case check_expected opts m of
             Some (DownloadError msg) \<Rightarrow> (fs2(d := None), Inl (DownloadError msg))
           | Some e \<Rightarrow> (fs2, Inl e)
           | None \<Rightarrow> (write_metadata fs2 d m, Inr (d, m))))"

lemma download_fresh_eq:
  assumes "d \<noteq> partial_path d"
  shows "download_fresh w fs d r u f opts =
    (case fetch w fs (partial_path d) u of
       (fs1, Inl e) \<Rightarrow> (fs1, Inl (if caught e then DownloadError ''download failed'' else e))
     | (fs1, Inr expected) \<Rightarrow> finish_download w fs1 d (the (fs1 (partial_path d))) r u f opts expected)"
proof (cases "fetch w fs (partial_path d) u")
  case (Pair fs1 x)
  show ?thesis
  proof (cases x)
    case (Inr expected)
    with Pair fetch_frame(2) [of w fs "partial_path d" u fs1 x expected]
    obtain content where c: "fs1 (partial_path d) = Some content" by auto
    have "metadata_for w (fs1(d \<mapsto> content, partial_path d := None)) d r u f opts =
      (if content = [] then Inl (DownloadError ''rejecting empty model file'')
       else Inr (model_metadata w content d r u f opts))"
      using assms by (simp add: metadata_for_def)
    then show ?thesis
      using Pair Inr c by (simp add: download_fresh_def finish_download_def Let_def)
  qed (simp add: Pair download_fresh_def)
qed

lemma finish_download_Inr:
  "finish_download w fs1 d content r u f opts expected = (fs', Inr pm) \<longleftrightarrow>
     content \<noteq> [] \<and> (expected = None \<or> expected = Some (int (length content))) \<and>
     expectations_met w opts content \<and>
     pm = (d, model_metadata w content d r u f opts) \<and>
     fs' = write_metadata (fs1(d \<mapsto> content, partial_path d := None)) d (model_metadata w content d r u f opts)"
proof (cases "check_expected opts (model_metadata w content d r u f opts)")
  case None
  then have "expectations_met w opts content" by (simp only: check_expected_None)
  with None show ?thesis by (auto simp: finish_download_def Let_def)
next
  case (Some x)
  then have "\<not> expectations_met w opts content"
    using check_expected_None [of opts w content d r u f opts] by simp
  with Some check_expected_Some [OF Some] show ?thesis by (auto simp: finish_download_def Let_def)
qed

lemma finish_download_Inl:
  assumes "finish_download w fs1 d content r u f opts expected = (fs', Inl e)"
  shows "fs' = fs1 \<or> fs' = fs1(partial_path d := None, d := None) \<or>
    fs' = fs1(d \<mapsto> content, partial_path d := None) \<and> e = AttributeError ''lower'' \<and>
      truthy (expected_sha256 opts) \<and> \<not> is_JStr (expected_sha256 opts)"
proof (cases "check_expected opts (model_metadata w content d r u f opts)")
  case None
  with assms show ?thesis by (auto simp: finish_download_def Let_def split: if_splits)
next
  case (Some x)
  show ?thesis
    using assms Some check_expected_Some [OF Some]
    by (auto simp: finish_download_def Let_def fun_upd_twist split: if_splits)
qed

lemma download_model_Inr:
  assumes "download_model w fs repository filename models_dir opts = (fs', Inr (p, m))"
  shows "p = path_join models_dir filename \<and> file_name_ok filename \<and>
    (\<exists>content url. source_url repository filename (revision opts) = Inr url \<and>
      fs' p = Some content \<and> content \<noteq> [] \<and> expectations_met w opts content \<and>
      m = model_metadata w content p repository url filename opts \<and>
      (if fs p \<noteq> None then fs p = Some content \<and> fs' (partial_path p) = fs (partial_path p)
       else fs' (partial_path p) = None)) \<and>
    fs' (metadata_path p) = Some (metadata_text m) \<and>
    (\<forall>q. q \<notin> {p, metadata_path p, partial_path p} \<longrightarrow> fs' q = fs q)"
proof -
  let ?d = "path_join models_dir filename"
  from assms obtain url where u: "source_url repository filename (revision opts) = Inr url"
    and run: "(if fs ?d \<noteq> None then download_existing w fs ?d repository url filename opts
      else download_fresh w fs ?d repository url filename opts) = (fs', Inr (p, m))"
    by (auto simp: download_model_def Let_def split: sum.splits)
  have ok: "file_name_ok filename" using u by (simp add: source_url_Inr)
  note neq = model_files_distinct [OF ok, of models_dir]
  show ?thesis
  proof (cases "fs ?d = None")
    case False
    with run have "download_existing w fs ?d repository url filename opts = (fs', Inr (p, m))" by simp
    then show ?thesis
      unfolding download_existing_Inr using neq False
      by (auto simp: write_metadata_def u ok)
  next
    case True
    with run have "download_fresh w fs ?d repository url filename opts = (fs', Inr (p, m))" by simp
    then obtain fs1 expected where f: "fetch w fs (partial_path ?d) url = (fs1, Inr expected)"
      and fin: "finish_download w fs1 ?d (the (fs1 (partial_path ?d))) repository url filename opts expected =
        (fs', Inr (p, m))"
      using download_fresh_eq [OF neq(2)] by (auto split: prod.splits sum.splits)
    obtain c where "fs1 = fs(partial_path ?d := c)" using fetch_frame(1) [OF f] ..
    with fin True neq show ?thesis
      unfolding finish_download_Inr by (auto simp: write_metadata_def u ok)
  qed
qed

text \<open>C1: A download that returns leaves the model at its destination: a nonempty file whose size
  and SHA-256 digest are those of the returned metadata and meet every expectation passed in, and
  a metadata file that holds exactly the returned metadata. A file that was there before is the
  same file; a new one leaves no partial file behind. Nothing else changes.
\<close>

theorem download_success_sound:
  assumes "download_model w fs repository filename models_dir opts = (fs', Inr (p, m))"
  shows "p = path_join models_dir filename \<and>
    (\<exists>content. fs' p = Some content \<and> content \<noteq> [] \<and>
      meta_get m ''byte_size'' = JInt (int (length content)) \<and>
      meta_get m ''sha256'' = JStr (sha256 w content) \<and> expectations_met w opts content \<and>
      (if fs p \<noteq> None then fs p = Some content else fs' (partial_path p) = None)) \<and>
    fs' (metadata_path p) = Some (metadata_text m) \<and>
    (\<forall>q. q \<notin> {p, metadata_path p, partial_path p} \<longrightarrow> fs' q = fs q)"
  using download_model_Inr [OF assms] by (auto simp: meta_gets split: if_splits)

text \<open>C2: A download that raises never damages what is there: no file but the destination and the
  partial file changes, an existing destination leaves all files as they were, and a destination
  that did not exist does not exist afterwards. The one exception is an expected digest that is
  not a text (a number in the YAML file): it raises after the move, and the unverified file stays.
\<close>

theorem download_failure_safe:
  assumes "download_model w fs repository filename models_dir opts = (fs', Inl e)"
  shows "let d = path_join models_dir filename in
    (\<forall>q. q \<notin> {d, partial_path d} \<longrightarrow> fs' q = fs q) \<and>
    (fs d \<noteq> None \<longrightarrow> fs' = fs) \<and>
    (fs d = None \<and> fs' d \<noteq> None \<longrightarrow> e = AttributeError ''lower'' \<and>
       truthy (expected_sha256 opts) \<and> \<not> is_JStr (expected_sha256 opts))"
proof (cases "source_url repository filename (revision opts)")
  case (Inl e')
  with assms show ?thesis by (auto simp: download_model_def Let_def)
next
  case (Inr url)
  let ?d = "path_join models_dir filename"
  have ok: "file_name_ok filename" using Inr by (simp add: source_url_Inr)
  note neq = model_files_distinct [OF ok, of models_dir]
  show ?thesis
  proof (cases "fs ?d = None")
    case False
    with assms Inr have "download_existing w fs ?d repository url filename opts = (fs', Inl e)"
      by (simp add: download_model_def Let_def)
    then have "fs' = fs" by (rule download_existing_Inl)
    then show ?thesis using False by (auto simp: Let_def)
  next
    case True
    with assms Inr have run: "download_fresh w fs ?d repository url filename opts = (fs', Inl e)"
      by (simp add: download_model_def Let_def)
    obtain fs1 x where f: "fetch w fs (partial_path ?d) url = (fs1, x)" by force
    obtain c where fs1: "fs1 = fs(partial_path ?d := c)" using fetch_frame(1) [OF f] ..
    show ?thesis
    proof (cases x)
      case (Inl e')
      with run f download_fresh_eq [OF neq(2)] have "fs' = fs1" by simp
      then show ?thesis using fs1 True neq by (simp add: Let_def)
    next
      case (Inr expected)
      with run f download_fresh_eq [OF neq(2)]
      have "finish_download w fs1 ?d (the (fs1 (partial_path ?d))) repository url filename opts expected =
        (fs', Inl e)" by simp
      from finish_download_Inl [OF this] fs1 True neq show ?thesis
        by (auto simp: Let_def)
    qed
  qed
qed

section \<open>A sample world\<close>

definition sample_url :: string where
  "sample_url = ''https://huggingface.co/o/m/resolve/main/x.gguf?download=true''"

definition sample_body :: string where
  "sample_body = ''GGUFdata''"

text \<open>A server that knows one file and answers range requests, and a digest that is its own text.\<close>

definition sample_world :: world where
  "sample_world = \<lparr>sha256 = (\<lambda>s. lower s), json_loads = (\<lambda>_. None), yaml_load = (\<lambda>_. None),
     render = (\<lambda>_. []), clock = ''t0'',
     open_url = (\<lambda>u range. case range of
         None \<Rightarrow> Reply (Some 200) (Some (str_nat (length sample_body))) [sample_body] None
       | Some h \<Rightarrow> (case find (\<lambda>k. h = ''bytes='' @ str_nat k @ ''-'') [1..<length sample_body] of
            None \<Rightarrow> OpenError (OSError ''HTTP Error 416: Requested Range Not Satisfiable'')
          | Some k \<Rightarrow> Reply (Some 206) (Some (str_nat (length sample_body - k))) [drop k sample_body] None))\<rparr>"

definition sample_dir :: path where
  "sample_dir = Path [] [''models'']"

lemma sample_source_url: "source_url ''o/m'' ''x.gguf'' ''main'' = Inr sample_url"
  by (auto simp: source_url_Inr file_name_ok_def prefix_single sample_url_def quote_def
      quote_char_def quote_safe_def)

lemma sample_name_ok: "file_name_ok ''x.gguf''"
  by (simp add: file_name_ok_def)

section \<open>Transfers\<close>

lemma read_loop_complete: "[] \<notin> set cs \<Longrightarrow> read_loop cs e = (concat cs, e)"
  by (induction cs) auto

text \<open>A server that has \<open>body\<close> at \<open>url\<close>: a request without a range is answered by the whole body,
  one with a range that starts inside by the rest, both with their length.\<close>

definition serves :: "world \<Rightarrow> string \<Rightarrow> string \<Rightarrow> bool" where
  "serves w url body \<longleftrightarrow>
     (\<exists>cs. open_url w url None = Reply (Some 200) (Some (str_nat (length body))) cs None \<and>
        [] \<notin> set cs \<and> concat cs = body) \<and>
     (\<forall>k. 0 < k \<and> k < length body \<longrightarrow>
        (\<exists>cs. open_url w url (Some (''bytes='' @ str_nat k @ ''-'')) =
            Reply (Some 206) (Some (str_nat (length body - k))) cs None \<and>
          [] \<notin> set cs \<and> concat cs = drop k body))"

text \<open>A transfer from such a server completes any left-over prefix to the whole body.\<close>

lemma fetch_serves:
  assumes "serves w url body" "fs p = None \<or> (\<exists>k. fs p = Some (take k body) \<and> k < length body)"
  shows "fetch w fs p url = (fs(p \<mapsto> body), Inr (Some (int (length body))))"
proof -
  define old where "old = (case fs p of None \<Rightarrow> [] | Some c \<Rightarrow> c)"
  from assms(2) have old: "old = take (length old) body" "old = [] \<or> length old < length body"
    by (auto simp: old_def)
  show ?thesis
  proof (cases "old = []")
    case True
    from assms(1) obtain cs where
      "open_url w url None = Reply (Some 200) (Some (str_nat (length body))) cs None"
      "[] \<notin> set cs" "concat cs = body" by (auto simp: serves_def)
    with True show ?thesis
      by (simp add: fetch_def old_def [symmetric] parse_int_str_nat read_loop_complete)
  next
    case False
    with old have k: "0 < length old" "length old < length body" by auto
    with assms(1) obtain cs where
      "open_url w url (Some (''bytes='' @ str_nat (length old) @ ''-'')) =
         Reply (Some 206) (Some (str_nat (length body - length old))) cs None"
      "[] \<notin> set cs" "concat cs = drop (length old) body" by (auto simp: serves_def)
    moreover have "old @ drop (length old) body = body"
      using old(1) by (metis append_take_drop_id)
    ultimately show ?thesis
      using k False
      by (simp add: fetch_def old_def [symmetric] parse_int_str_nat read_loop_complete of_nat_diff)
  qed
qed

text \<open>C3: A download whose transfer breaks off (a network error after any part of the body has
  arrived) fails and keeps what it received, and running it again against a server that has the
  whole body ends exactly as a download that was never interrupted: the same files, the same
  result. Every cut point is covered, the empty one included.
\<close>

theorem interrupted_download_resumes:
  assumes "source_url repository filename (revision opts) = Inr url"
    and "fs (path_join models_dir filename) = None"
    and "fs (partial_path (path_join models_dir filename)) = None"
    and "open_url w1 url None = Reply status content_length cs (Some e)"
    and "\<forall>t. content_length = Some t \<longrightarrow> parse_int t \<noteq> None"
    and "caught e" and "[] \<notin> set cs"
    and "concat cs = take k body" and "k < length body"
    and "serves w url body"
  shows "\<exists>fs1. download_model w1 fs repository filename models_dir opts =
       (fs1, Inl (DownloadError ''download failed'')) \<and>
     fs1 (partial_path (path_join models_dir filename)) = Some (take k body) \<and>
     download_model w fs1 repository filename models_dir opts =
       download_model w fs repository filename models_dir opts"
proof -
  let ?d = "path_join models_dir filename" and ?p = "partial_path (path_join models_dir filename)"
  let ?fs1 = "fs(?p \<mapsto> take k body)"
  have ok: "file_name_ok filename" using assms(1) by (simp add: source_url_Inr)
  note neq = model_files_distinct [OF ok, of models_dir]
  note eq = download_fresh_eq [OF neq(2)]
  have "fetch w1 fs ?p url = (?fs1, Inl e)"
    using assms(3,4,5,7,8) by (auto simp: fetch_def read_loop_complete split: option.splits)
  then have first: "download_model w1 fs repository filename models_dir opts =
      (?fs1, Inl (DownloadError ''download failed''))"
    using assms(1,2,6) eq by (simp add: download_model_def)
  have "fetch w ?fs1 ?p url = (fs(?p \<mapsto> body), Inr (Some (int (length body))))"
    using fetch_serves [OF assms(10), of ?fs1 ?p] assms(9) by auto
  moreover have "fetch w fs ?p url = (fs(?p \<mapsto> body), Inr (Some (int (length body))))"
    using fetch_serves [OF assms(10), of fs ?p] assms(3) by simp
  ultimately have "download_model w ?fs1 repository filename models_dir opts =
      download_model w fs repository filename models_dir opts"
    using assms(1,2) eq neq by (simp add: download_model_def)
  with first show ?thesis by auto
qed

definition broken_world :: world where
  "broken_world = sample_world\<lparr>open_url := \<lambda>_ _. Reply (Some 200) None [''GGUF''] (Some (OSError ''reset''))\<rparr>"

lemma find_eq: "k \<in> set ks \<Longrightarrow> find (\<lambda>i. k = i) ks = Some k"
  by (induction ks) auto

lemma sample_serves:
  assumes "open_url w = open_url sample_world"
  shows "serves w url sample_body"
  unfolding serves_def
proof (intro conjI allI impI)
  show "\<exists>cs. open_url w url None =
      Reply (Some 200) (Some (str_nat (length sample_body))) cs None \<and> [] \<notin> set cs \<and> concat cs = sample_body"
    by (intro exI [of _ "[sample_body]"]) (simp add: assms sample_world_def, simp add: sample_body_def)
  fix k assume k: "0 < k \<and> k < length sample_body"
  then have "find (\<lambda>i. k = i) [1..<length sample_body] = Some k" by (intro find_eq) auto
  with k show "\<exists>cs. open_url w url (Some (''bytes='' @ str_nat k @ ''-'')) =
      Reply (Some 206) (Some (str_nat (length sample_body - k))) cs None \<and> [] \<notin> set cs \<and>
      concat cs = drop k sample_body"
    by (intro exI [of _ "[drop k sample_body]"]) (simp add: assms sample_world_def)
qed

lemma interrupted_download_resumes_witness:
  "\<exists>fs1. download_model broken_world Map.empty ''o/m'' ''x.gguf'' sample_dir default_options =
       (fs1, Inl (DownloadError ''download failed'')) \<and>
     fs1 (partial_path (path_join sample_dir ''x.gguf'')) = Some (take 4 sample_body) \<and>
     download_model sample_world fs1 ''o/m'' ''x.gguf'' sample_dir default_options =
       download_model sample_world Map.empty ''o/m'' ''x.gguf'' sample_dir default_options"
proof (rule interrupted_download_resumes)
  show "source_url ''o/m'' ''x.gguf'' (revision default_options) = Inr sample_url"
    using sample_source_url by (simp add: default_options_def)
  show "open_url broken_world sample_url None = Reply (Some 200) None [''GGUF''] (Some (OSError ''reset''))"
    by (simp add: broken_world_def)
qed (simp_all add: caught_def sample_serves [OF refl], simp_all add: sample_body_def)

text \<open>From such a server the download succeeds whenever the expectations hold of what it serves.\<close>

lemma served_download_succeeds:
  assumes "source_url repository filename (revision opts) = Inr url"
    and "fs (path_join models_dir filename) = None"
    and "fs (partial_path (path_join models_dir filename)) = None"
    and "serves w url body" and "body \<noteq> []" and "expectations_met w opts body"
  shows "\<exists>fs' m. download_model w fs repository filename models_dir opts =
      (fs', Inr (path_join models_dir filename, m)) \<and>
    fs' (path_join models_dir filename) = Some body"
proof -
  let ?d = "path_join models_dir filename"
  let ?m = "model_metadata w body ?d repository url filename opts"
  let ?fs1 = "fs(partial_path ?d \<mapsto> body)"
  have ok: "file_name_ok filename" using assms(1) by (simp add: source_url_Inr)
  note neq = model_files_distinct [OF ok, of models_dir]
  have "fetch w fs (partial_path ?d) url = (?fs1, Inr (Some (int (length body))))"
    using fetch_serves [OF assms(4), of fs] assms(3) by simp
  then have "download_model w fs repository filename models_dir opts =
      finish_download w ?fs1 ?d body repository url filename opts (Some (int (length body)))"
    using assms(1,2) download_fresh_eq [OF neq(2)] by (simp add: download_model_def Let_def)
  also have "\<dots> = (write_metadata (?fs1(?d \<mapsto> body, partial_path ?d := None)) ?d ?m, Inr (?d, ?m))"
    using assms(5,6) finish_download_Inr [of w ?fs1 ?d body repository url filename opts "Some (int (length body))"]
    by auto
  finally show ?thesis using neq by (auto simp: write_metadata_def)
qed

lemma default_expectations: "expectations_met w default_options c"
  by (simp add: expectations_met_def default_options_def)

lemma sample_download:
  "\<exists>fs' m. download_model sample_world Map.empty ''o/m'' ''x.gguf'' sample_dir default_options =
     (fs', Inr (path_join sample_dir ''x.gguf'', m)) \<and> fs' (path_join sample_dir ''x.gguf'') = Some sample_body"
  by (rule served_download_succeeds [OF _ _ _ sample_serves [OF refl]])
    (simp_all add: default_expectations, simp_all add: default_options_def sample_source_url sample_body_def)

lemma download_success_sound_witness:
  "\<exists>fs' p m. download_model sample_world Map.empty ''o/m'' ''x.gguf'' sample_dir default_options =
     (fs', Inr (p, m)) \<and> fs' (metadata_path p) = Some (metadata_text m)"
proof -
  from sample_download obtain fs' p m where
    d: "download_model sample_world Map.empty ''o/m'' ''x.gguf'' sample_dir default_options = (fs', Inr (p, m))"
    by blast
  from download_success_sound [OF d] d show ?thesis by blast
qed

lemma download_failure_safe_witness:
  "\<exists>fs'. download_model broken_world Map.empty ''o/m'' ''x.gguf'' sample_dir default_options =
       (fs', Inl (DownloadError ''download failed'')) \<and>
     fs' (path_join sample_dir ''x.gguf'') = None"
proof -
  have "fetch broken_world Map.empty (partial_path (path_join sample_dir ''x.gguf'')) sample_url =
      ([partial_path (path_join sample_dir ''x.gguf'') \<mapsto> ''GGUF''], Inl (OSError ''reset''))"
    by (simp add: fetch_def broken_world_def)
  then have d: "download_model broken_world Map.empty ''o/m'' ''x.gguf'' sample_dir default_options =
      ([partial_path (path_join sample_dir ''x.gguf'') \<mapsto> ''GGUF''], Inl (DownloadError ''download failed''))"
    using sample_source_url download_fresh_eq [OF model_files_distinct(2) [OF sample_name_ok]]
    by (simp add: download_model_def default_options_def caught_def)
  from download_failure_safe [OF d] have
    "[partial_path (path_join sample_dir ''x.gguf'') \<mapsto> ''GGUF''] (path_join sample_dir ''x.gguf'') = None"
    by (auto simp: Let_def)
  with d show ?thesis by blast
qed

section \<open>Runs after a run\<close>

text \<open>C37: A partial file that already holds the whole body (the script was stopped between the last
  read and the move) is never promoted: the script asks for the range after its end, the server
  answers with an HTTP error (416), and every further run fails in the same way and changes nothing.
\<close>

theorem complete_partial_never_promoted:
  assumes "source_url repository filename (revision opts) = Inr url"
    and "fs (path_join models_dir filename) = None"
    and "fs (partial_path (path_join models_dir filename)) = Some body" and "body \<noteq> []"
    and "open_url w url (Some (''bytes='' @ str_nat (length body) @ ''-'')) = OpenError (OSError msg)"
  shows "((\<lambda>s. fst (download_model w s repository filename models_dir opts)) ^^ n) fs = fs \<and>
    snd (download_model w fs repository filename models_dir opts) = Inl (DownloadError ''download failed'')"
proof -
  have ok: "file_name_ok filename" using assms(1) by (simp add: source_url_Inr)
  have "fetch w fs (partial_path (path_join models_dir filename)) url = (fs, Inl (OSError msg))"
    using assms(3-5) by (simp add: fetch_def)
  then have run: "download_model w fs repository filename models_dir opts =
      (fs, Inl (DownloadError ''download failed''))"
    using assms(1,2) download_fresh_eq [OF model_files_distinct(2) [OF ok]]
    by (simp add: download_model_def caught_def)
  then have "((\<lambda>s. fst (download_model w s repository filename models_dir opts)) ^^ n) fs = fs"
    by (induction n) simp_all
  with run show ?thesis by simp
qed

lemma complete_partial_never_promoted_witness:
  "snd (download_model sample_world [partial_path (path_join sample_dir ''x.gguf'') \<mapsto> sample_body]
      ''o/m'' ''x.gguf'' sample_dir default_options) = Inl (DownloadError ''download failed'')"
proof -
  have "find (\<lambda>k. ''bytes='' @ str_nat (length sample_body) @ ''-'' = ''bytes='' @ str_nat k @ ''-'')
      [1..<length sample_body] = None"
    by (simp add: find_None_iff)
  then have "open_url sample_world sample_url (Some (''bytes='' @ str_nat (length sample_body) @ ''-'')) =
      OpenError (OSError ''HTTP Error 416: Requested Range Not Satisfiable'')"
    by (simp add: sample_world_def)
  from complete_partial_never_promoted [OF _ _ _ _ this, where n = 0] show ?thesis
    using sample_source_url model_files_distinct [OF sample_name_ok, of sample_dir]
    by (simp add: default_options_def) (simp add: sample_body_def)
qed

lemma map_of_sort_key:
  fixes m :: "('k::linorder \<times> 'v) list"
  assumes "distinct (map fst m)"
  shows "map_of (sort_key fst m) = map_of m"
proof -
  from assms have "distinct (map fst (sort_key fst m))" by (simp add: distinct_map)
  with assms show ?thesis by (simp add: map_of_inject_set)
qed

lemma jget_doc: "jget (doc_json (DObj kds)) k = meta_get kds k"
  by (induction kds) (auto simp: meta_get_def)

lemma distinct_metadata: "distinct (map fst (model_metadata w c p r u f opts))"
  by (simp add: model_metadata_def)

text \<open>Only the time stamp depends on anything but the content and the request.\<close>

lemma metadata_identity:
  assumes "sha256 w' = sha256 w" "k \<in> set IDENTITY"
  shows "py_eq (meta_get (model_metadata w c p r u f opts) k) (meta_get (model_metadata w' c p r u f opts) k)"
  using assms
  by (auto simp: IDENTITY_def meta_get_def model_metadata_def doc_opt_def sha256_file_def split: option.splits)

definition restamped :: "world \<Rightarrow> metadata \<Rightarrow> metadata" where
  "restamped w m = map (\<lambda>(k, d). (k, if k = ''download_timestamp'' then DStr (clock w) else d)) m"

lemma restamped_metadata:
  assumes "sha256 w' = sha256 w"
  shows "restamped w' (model_metadata w c p r u f opts) = model_metadata w' c p r u f opts"
  using assms by (simp add: restamped_def model_metadata_def sha256_file_def)

text \<open>C33: After a download that returned, running it again (a reader of JSON that reads back the
  metadata file just written, the same digest, any network) returns without touching the model,
  with the same metadata but for its time stamp: the second run finds the file, its own
  metadata and the expectations in agreement.
\<close>

theorem download_idempotent:
  assumes "download_model w fs repository filename models_dir opts = (fs', Inr (p, m))"
    and "sha256 w' = sha256 w"
    and "json_loads w' (metadata_text m) = Some (doc_json (DObj (sort_key fst m)))"
  shows "download_model w' fs' repository filename models_dir opts =
    (write_metadata fs' p (restamped w' m), Inr (p, restamped w' m))"
proof -
  from download_model_Inr [OF assms(1)] obtain c u where p: "p = path_join models_dir filename"
    and u: "source_url repository filename (revision opts) = Inr u"
    and c: "fs' p = Some c" "c \<noteq> []" "expectations_met w opts c"
    and m: "m = model_metadata w c p repository u filename opts"
    and meta: "fs' (metadata_path p) = Some (metadata_text m)" by blast
  let ?m = "model_metadata w' c p repository u filename opts"
  have new: "restamped w' m = ?m" using restamped_metadata [OF assms(2)] m by simp
  have "jget (doc_json (DObj (sort_key fst m))) k = meta_get m k" for k
    using map_of_sort_key [OF distinct_metadata] m by (simp only: jget_doc meta_get_def)
  then have same: "identity_differs (doc_json (DObj (sort_key fst m))) ?m = Inr False"
    using metadata_identity [OF assms(2)] m
    by (auto simp: identity_differs_def list_ex_iff simp del: py_eq_JStr py_eq_JNull)
  have "read_text (metadata_text m) = Inr (metadata_text m)"
    unfolding metadata_text_def by (rule read_text_dumps)
  with assms(3) same have prev: "check_previous w' (metadata_text m) ?m = None"
    by (simp add: check_previous_def del: read_text_Inr)
  have met: "expectations_met w' opts c" using c(3) assms(2) by (simp add: expectations_met_def)
  have "download_existing w' fs' p repository u filename opts = (write_metadata fs' p ?m, Inr (p, ?m))"
    unfolding download_existing_Inr using c met meta prev by auto
  then show ?thesis using u c p new by (simp add: download_model_def Let_def)
qed

definition second_world :: "metadata \<Rightarrow> world" where
  "second_world m = sample_world\<lparr>clock := ''t1'',
     json_loads := \<lambda>_. Some (doc_json (DObj (sort_key fst m))), open_url := \<lambda>_ _. OpenError (OSError ''offline'')\<rparr>"

lemma download_idempotent_witness:
  "\<exists>fs' m. download_model sample_world Map.empty ''o/m'' ''x.gguf'' sample_dir default_options =
       (fs', Inr (path_join sample_dir ''x.gguf'', m)) \<and>
     download_model (second_world m) fs' ''o/m'' ''x.gguf'' sample_dir default_options =
       (write_metadata fs' (path_join sample_dir ''x.gguf'') (restamped (second_world m) m),
        Inr (path_join sample_dir ''x.gguf'', restamped (second_world m) m))"
proof -
  from sample_download obtain fs' m where d:
    "download_model sample_world Map.empty ''o/m'' ''x.gguf'' sample_dir default_options =
       (fs', Inr (path_join sample_dir ''x.gguf'', m))" by blast
  moreover have "download_model (second_world m) fs' ''o/m'' ''x.gguf'' sample_dir default_options =
      (write_metadata fs' (path_join sample_dir ''x.gguf'') (restamped (second_world m) m),
       Inr (path_join sample_dir ''x.gguf'', restamped (second_world m) m))"
    by (rule download_idempotent [OF d]) (simp_all add: second_world_def)
  ultimately show ?thesis by blast
qed

text \<open>
  Without an expected digest a resumed download takes whatever the server sends for the rest: a
  partial file of one revision and the tail of another one of the right length are accepted, and
  the metadata certifies the mixture.
\<close>

lemma resume_mixes_revisions:
  assumes "source_url repository filename (revision opts) = Inr url"
    and "fs (path_join models_dir filename) = None"
    and "fs (partial_path (path_join models_dir filename)) = Some old" and "old \<noteq> []"
    and "length old < length new" and "serves w url new" and "expectations_met w opts (old @ drop (length old) new)"
  shows "\<exists>fs' m. download_model w fs repository filename models_dir opts =
      (fs', Inr (path_join models_dir filename, m)) \<and>
    fs' (path_join models_dir filename) = Some (old @ drop (length old) new)"
proof -
  let ?d = "path_join models_dir filename" and ?c = "old @ drop (length old) new"
  let ?m = "model_metadata w ?c ?d repository url filename opts"
  let ?fs1 = "fs(partial_path ?d \<mapsto> ?c)"
  have ok: "file_name_ok filename" using assms(1) by (simp add: source_url_Inr)
  note neq = model_files_distinct [OF ok, of models_dir]
  from assms(4-6) obtain cs where
    "open_url w url (Some (''bytes='' @ str_nat (length old) @ ''-'')) =
       Reply (Some 206) (Some (str_nat (length new - length old))) cs None"
    "[] \<notin> set cs" "concat cs = drop (length old) new" by (auto simp: serves_def)
  with assms(3,4,5) have "fetch w fs (partial_path ?d) url = (?fs1, Inr (Some (int (length ?c))))"
    by (simp add: fetch_def parse_int_str_nat read_loop_complete of_nat_diff)
  then have "download_model w fs repository filename models_dir opts =
      finish_download w ?fs1 ?d ?c repository url filename opts (Some (int (length ?c)))"
    using assms(1,2) download_fresh_eq [OF neq(2)] by (simp add: download_model_def Let_def)
  also have "\<dots> = (write_metadata (?fs1(?d \<mapsto> ?c, partial_path ?d := None)) ?d ?m, Inr (?d, ?m))"
    using assms(4,7) finish_download_Inr [of w ?fs1 ?d ?c repository url filename opts "Some (int (length ?c))"]
    by auto
  finally show ?thesis using neq by (auto simp: write_metadata_def)
qed

end
