(* ===== verification/Model_Config.thy ===== *)
theory Model_Config
  imports Model_Download
begin

text \<open>
  \<open>scripts/download_model.py\<close>, continued: \<open>load_model_config\<close>, \<open>download_config\<close> and \<open>main\<close>. The parsed
  YAML file is a JSON value with text keys: YAML's dates, sets and other keys are not modelled.
\<close>

section \<open>The configuration of the three models\<close>

definition REQUIRED_QUANTIZATIONS :: "(string \<times> string) list" where
  "REQUIRED_QUANTIZATIONS = [(''f16'', ''F16''), (''q8_0'', ''Q8_0''), (''q4_k_m'', ''Q4_K_M'')]"

definition MODEL_FIELDS :: "string list" where
  "MODEL_FIELDS =
    [''logical_id'', ''quantization'', ''source_repository'', ''source_filename'',
     ''local_filename'', ''base_model_name'', ''parameter_count'', ''source_revision'']"

text \<open>\<open>str(v)\<close>\<close>

definition py_str :: "world \<Rightarrow> json \<Rightarrow> string" where
  "py_str w v = (case v of JStr s \<Rightarrow> s | JInt i \<Rightarrow> str_int i | JNull \<Rightarrow> ''None''
     | JBool b \<Rightarrow> if b then ''True'' else ''False'' | _ \<Rightarrow> render w v)"

text \<open>\<open>int(v)\<close>\<close>

definition py_int :: "json \<Rightarrow> int res" where
  "py_int v = (case v of
       JInt i \<Rightarrow> Inr i
     | JBool b \<Rightarrow> Inr (if b then 1 else 0)
     | JFloat (Fin q) \<Rightarrow> Inr (if 0 \<le> q then \<lfloor>q\<rfloor> else \<lceil>q\<rceil>)
     | JFloat (Inf _) \<Rightarrow> Inl OverflowError
     | JFloat NaN \<Rightarrow> Inl (ValueError ''cannot convert float NaN to integer'')
     | JStr s \<Rightarrow> (case parse_int s of
          None \<Rightarrow> Inl (ValueError ''invalid literal for int()'') | Some i \<Rightarrow> Inr i)
     | _ \<Rightarrow> Inl (TypeError ''int() argument''))"

text \<open>The tuple added to \<open>compatibility\<close>, and the set as a list without equal members.\<close>

definition compatibility_key :: "json \<Rightarrow> json list" where
  "compatibility_key item = map (jget item)
     [''source_repository'', ''base_model_name'', ''parameter_count'', ''source_revision'']"

definition add_to_set :: "json list \<Rightarrow> json list list \<Rightarrow> json list list" where
  "add_to_set t ts = (if list_ex (\<lambda>u. list_all2 py_eq u t) ts then ts else ts @ [t])"

definition check_model :: "world \<Rightarrow> json list \<Rightarrow> string \<Rightarrow> json \<Rightarrow> check" where
  "check_model w ids key item = first_error
     [reject (\<not> is_JObj item) (DownloadError ''must be a mapping''),
      reject (keys_missing item MODEL_FIELDS \<noteq> []) (DownloadError ''missing''),
      reject (\<not> hashable (jget item ''logical_id'')) (TypeError ''unhashable type''),
      reject (list_ex (\<lambda>i. py_eq i (jget item ''logical_id'')) ids) (DownloadError ''duplicate model ID''),
      reject (map_of REQUIRED_QUANTIZATIONS key \<noteq> Some (upper (py_str w (jget item ''quantization''))))
        (DownloadError ''wrong quantization''),
      reject (\<not> list_all hashable (compatibility_key item)) (TypeError ''unhashable type'')]"

fun check_models :: "world \<Rightarrow> json list \<Rightarrow> json list list \<Rightarrow> (string \<times> json) list \<Rightarrow> json list list res" where
  "check_models w ids compatibility [] = Inr compatibility"
| "check_models w ids compatibility ((key, item) # items) =
     checked (check_model w ids key item)
       (check_models w (jget item ''logical_id'' # ids)
          (add_to_set (compatibility_key item) compatibility) items)"

definition load_model_config :: "world \<Rightarrow> files \<Rightarrow> path \<Rightarrow> json res" where
  "load_model_config w fs p = (case fs p of
       None \<Rightarrow> Inl (DownloadError ''cannot read model configuration'')
     | Some content \<Rightarrow> rbind (read_text content) (\<lambda>t. case yaml_load w t of
          None \<Rightarrow> Inl (DownloadError ''cannot read model configuration'')
        | Some raw \<Rightarrow> (let models = (if is_JObj raw then jget raw ''models'' else JNull) in
            checked (first_error
              [reject (\<not> is_JObj models) (DownloadError ''model configuration requires a models mapping''),
               reject (\<not> has_exactly models (map fst REQUIRED_QUANTIZATIONS))
                 (DownloadError ''models must contain exactly f16, q8_0, and q4_k_m'')])
            (rbind (check_models w [] [] (jitems models)) (\<lambda>compatibility.
               if length compatibility \<noteq> 1 then Inl (DownloadError ''models are not compatible'')
               else Inr models)))))"

text \<open>The arguments \<open>download_config\<close> passes for one entry.\<close>

definition item_options :: "world \<Rightarrow> json \<Rightarrow> model_options res" where
  "item_options w item = rbind (py_int (jget item ''parameter_count'')) (\<lambda>cnt. Inr
     \<lparr>logical_id = Some (py_str w (jget item ''logical_id'')),
      quantization = Some (py_str w (jget item ''quantization'')),
      base_model = Some (py_str w (jget item ''base_model_name'')),
      parameter_count = Some cnt,
      revision = py_str w (jget item ''source_revision''),
      expected_sha256 = jget item ''sha256'',
      expected_byte_size = jget item ''byte_size''\<rparr>)"

definition download_item :: "world \<Rightarrow> path \<Rightarrow> files \<Rightarrow> json \<Rightarrow> outcome" where
  "download_item w models_dir fs item = (case item_options w item of
       Inl e \<Rightarrow> (fs, Inl e)
     | Inr opts \<Rightarrow> download_model w fs (py_str w (jget item ''source_repository''))
         (py_str w (jget item ''source_filename'')) models_dir opts)"

fun download_items :: "world \<Rightarrow> path \<Rightarrow> files \<Rightarrow> json list \<Rightarrow> files \<times> (path \<times> metadata) list res" where
  "download_items w models_dir fs [] = (fs, Inr [])"
| "download_items w models_dir fs (item # items) = (case download_item w models_dir fs item of
       (fs1, Inl e) \<Rightarrow> (fs1, Inl e)
     | (fs1, Inr r) \<Rightarrow> (case download_items w models_dir fs1 items of
          (fs2, Inl e) \<Rightarrow> (fs2, Inl e)
        | (fs2, Inr rs) \<Rightarrow> (fs2, Inr (r # rs))))"

definition download_config :: "world \<Rightarrow> files \<Rightarrow> path \<Rightarrow> path \<Rightarrow> files \<times> (path \<times> metadata) list res" where
  "download_config w fs config models_dir = (case load_model_config w fs config of
       Inl e \<Rightarrow> (fs, Inl e)
     | Inr models \<Rightarrow> download_items w models_dir fs (map snd (jitems models)))"

section \<open>The script\<close>

definition meta_shown :: "metadata \<Rightarrow> string \<Rightarrow> string" where
  "meta_shown m k = (case map_of m k of Some (DStr s) \<Rightarrow> s | Some (DInt i) \<Rightarrow> str_int i | _ \<Rightarrow> ''None'')"

definition model_report :: "path \<times> metadata \<Rightarrow> string" where
  "model_report = (\<lambda>(p, m). ''model: '' @ path_str p @ CHR 0x0A # ''bytes: '' @ meta_shown m ''byte_size'' @
     CHR 0x0A # ''sha256: '' @ meta_shown m ''sha256'' @ [CHR 0x0A])"

definition given :: "string option \<Rightarrow> bool" where
  "given a \<longleftrightarrow> a \<noteq> None \<and> a \<noteq> Some []"

text \<open>
  \<open>main\<close> for the parsed arguments: the files afterwards, and the exception that leaves the script,
  or the text on standard output and the exit code. A \<open>DownloadError\<close> is printed on standard error
  and gives exit code 1.
\<close>

definition download_main ::
  "world \<Rightarrow> files \<Rightarrow> string option \<Rightarrow> string option \<Rightarrow> path option \<Rightarrow> path \<Rightarrow>
     files \<times> (string \<times> int) res" where
  "download_main w fs repository filename config models_dir =
     (let (fs', r) = (case config of
          Some c \<Rightarrow>
            if given repository \<or> given filename
            then (fs, Inl (DownloadError ''do not combine positional arguments with --config''))
            else download_config w fs c models_dir
        | None \<Rightarrow>
            if \<not> given repository \<or> \<not> given filename
            then (fs, Inl (DownloadError ''repository and filename are required without --config''))
            else (case download_model w fs (the repository) (the filename) models_dir default_options of
                (fs1, Inl e) \<Rightarrow> (fs1, Inl e)
              | (fs1, Inr res) \<Rightarrow> (fs1, Inr [res])))
      in (fs', case r of
          Inl (DownloadError _) \<Rightarrow> Inr ([], 1)
        | Inl e \<Rightarrow> Inl e
        | Inr rs \<Rightarrow> Inr (concat (map model_report rs), 0)))"

section \<open>The model configuration\<close>

definition model_ok :: "world \<Rightarrow> string \<Rightarrow> json \<Rightarrow> bool" where
  "model_ok w key item \<longleftrightarrow> is_JObj item \<and> (\<forall>f \<in> set MODEL_FIELDS. jhas item f) \<and>
     hashable (jget item ''logical_id'') \<and>
     map_of REQUIRED_QUANTIZATIONS key = Some (upper (py_str w (jget item ''quantization''))) \<and>
     list_all hashable (compatibility_key item)"

definition logical_ids :: "(string \<times> json) list \<Rightarrow> json list" where
  "logical_ids items = map (\<lambda>(_, item). jget item ''logical_id'') items"

lemma check_model_None:
  "check_model w ids key item = None \<longleftrightarrow>
     model_ok w key item \<and> (\<forall>i \<in> set ids. \<not> py_eq i (jget item ''logical_id''))"
  by (auto simp: check_model_def model_ok_def keys_missing_Nil list_ex_iff)

lemma check_models_Inr:
  "check_models w ids ts items = Inr ts' \<longleftrightarrow>
     (\<forall>(key, item) \<in> set items. model_ok w key item) \<and>
     (\<forall>i \<in> set ids. \<forall>j \<in> set (logical_ids items). \<not> py_eq i j) \<and>
     sorted_wrt (\<lambda>i j. \<not> py_eq i j) (logical_ids items) \<and>
     ts' = foldl (\<lambda>s t. add_to_set t s) ts (map (\<lambda>(_, item). compatibility_key item) items)"
proof (induction w ids ts items rule: check_models.induct)
  case (2 w ids ts key item items)
  show ?case
    unfolding check_models.simps checked_Inr check_model_None 2
    by (auto simp: logical_ids_def)
qed (auto simp: logical_ids_def)

lemma add_to_set_length: "length ts \<le> length (add_to_set t ts)"
  by (simp add: add_to_set_def)

lemma fold_add_length: "length ts \<le> length (foldl (\<lambda>s t. add_to_set t s) ts us)"
  by (induction us arbitrary: ts) (auto intro: order_trans [OF add_to_set_length])

text \<open>The set of tuples has one member exactly when all later tuples equal the first.\<close>

lemma fold_add_single:
  "length (foldl (\<lambda>s t. add_to_set t s) [u] us) = 1 \<longleftrightarrow> (\<forall>t \<in> set us. list_all2 py_eq u t)"
proof (induction us)
  case (Cons t us)
  show ?case
  proof (cases "list_all2 py_eq u t")
    case True
    with Cons show ?thesis by (simp add: add_to_set_def)
  next
    case False
    then have "foldl (\<lambda>s t. add_to_set t s) [u] (t # us) = foldl (\<lambda>s t. add_to_set t s) [u, t] us"
      by (simp add: add_to_set_def)
    with fold_add_length [of "[u, t]" us] False show ?thesis by simp
  qed
qed simp

lemma compatible_iff:
  "length (foldl (\<lambda>s t. add_to_set t s) [] us) = 1 \<longleftrightarrow>
     us \<noteq> [] \<and> (\<forall>t \<in> set (tl us). list_all2 py_eq (hd us) t)"
proof (cases us)
  case (Cons u us')
  then show ?thesis using fold_add_single [of u us'] by (simp add: add_to_set_def)
qed simp

lemma load_model_config_steps:
  "load_model_config w fs p = Inr models \<longleftrightarrow>
     (\<exists>content raw. fs p = Some content \<and> utf8_valid content \<and>
        yaml_load w (newlines content) = Some raw \<and> is_JObj raw \<and> models = jget raw ''models'') \<and>
     is_JObj models \<and> has_exactly models (map fst REQUIRED_QUANTIZATIONS) \<and>
     (\<exists>ts. check_models w [] [] (jitems models) = Inr ts \<and> length ts = 1)"
proof (cases "fs p")
  case (Some content)
  show ?thesis
  proof (cases "utf8_valid content")
    case True
    then have rd: "read_text content = Inr (newlines content)" by simp
    show ?thesis
    proof (cases "yaml_load w (newlines content)")
      case (Some raw)
      with \<open>fs p = Some content\<close> rd True show ?thesis
        by (cases "is_JObj raw") (auto simp: load_model_config_def Let_def)
    qed (use \<open>fs p = Some content\<close> rd in \<open>simp add: load_model_config_def\<close>)
  qed (use Some in \<open>simp add: load_model_config_def read_text_def\<close>)
qed (simp add: load_model_config_def)

lemma load_model_config_Inr:
  "load_model_config w fs p = Inr models \<longleftrightarrow>
     (\<exists>content raw. fs p = Some content \<and> utf8_valid content \<and>
        yaml_load w (newlines content) = Some raw \<and> is_JObj raw \<and> models = jget raw ''models'') \<and>
     is_JObj models \<and> set (jkeys models) = {''f16'', ''q8_0'', ''q4_k_m''} \<and>
     (\<forall>(key, item) \<in> set (jitems models). model_ok w key item) \<and>
     sorted_wrt (\<lambda>i j. \<not> py_eq i j) (logical_ids (jitems models)) \<and>
     (\<forall>(_, item) \<in> set (tl (jitems models)).
        list_all2 py_eq (compatibility_key (snd (hd (jitems models)))) (compatibility_key item))"
  (is "?l \<longleftrightarrow> ?file \<and> ?rest")
proof -
  define tuples where "tuples = map (\<lambda>(_, item). compatibility_key item) (jitems models)"
  have ne: "jitems models \<noteq> []" if "set (jkeys models) = {''f16'', ''q8_0'', ''q4_k_m''}"
  proof
    assume "jitems models = []"
    then have "jkeys models = []" by (simp add: jkeys_def)
    with that show False by (metis empty_set insert_not_empty)
  qed
  have compat: "length (foldl (\<lambda>s t. add_to_set t s) [] tuples) = 1 \<longleftrightarrow>
      jitems models \<noteq> [] \<and> (\<forall>(_, item) \<in> set (tl (jitems models)).
        list_all2 py_eq (compatibility_key (snd (hd (jitems models)))) (compatibility_key item))"
  proof (cases "jitems models")
    case (Cons x xs)
    obtain k i where x: "x = (k, i)" by force
    with Cons have tup: "tuples = compatibility_key i # map (\<lambda>(_, item). compatibility_key item) xs"
      by (simp add: tuples_def)
    have "(\<forall>t \<in> set (tl tuples). list_all2 py_eq (hd tuples) t) \<longleftrightarrow>
        (\<forall>(_, item) \<in> set xs. list_all2 py_eq (compatibility_key i) (compatibility_key item))"
      unfolding tup list.sel set_map ball_simps by (intro ball_cong refl) (simp only: split_beta)
    with tup have "tuples \<noteq> [] \<and> (\<forall>t \<in> set (tl tuples). list_all2 py_eq (hd tuples) t) \<longleftrightarrow>
        (\<forall>(_, item) \<in> set xs. list_all2 py_eq (compatibility_key i) (compatibility_key item))"
      by (simp only: list.distinct not_False_eq_True simp_thms)
    then show ?thesis unfolding compatible_iff Cons x by (simp only: list.sel list.distinct snd_conv simp_thms)
  qed (simp add: tuples_def)
  have keys: "set (map fst REQUIRED_QUANTIZATIONS) = {''f16'', ''q8_0'', ''q4_k_m''}"
    by (simp add: REQUIRED_QUANTIZATIONS_def)
  have ts: "(\<exists>ts. check_models w [] [] (jitems models) = Inr ts \<and> length ts = 1) \<longleftrightarrow>
      (\<forall>(key, item) \<in> set (jitems models). model_ok w key item) \<and>
      sorted_wrt (\<lambda>i j. \<not> py_eq i j) (logical_ids (jitems models)) \<and>
      length (foldl (\<lambda>s t. add_to_set t s) [] tuples) = 1"
    by (simp add: check_models_Inr tuples_def)
  have "?l \<longleftrightarrow> ?file \<and> is_JObj models \<and> has_exactly models (map fst REQUIRED_QUANTIZATIONS) \<and>
      (\<exists>ts. check_models w [] [] (jitems models) = Inr ts \<and> length ts = 1)"
    by (rule load_model_config_steps)
  also have "\<dots> \<longleftrightarrow> ?file \<and> ?rest"
    unfolding ts compat has_exactly_iff keys
    by (rule iffI; elim conjE; intro conjI; (assumption | rule ne))
  finally show ?thesis .
qed

text \<open>C5: A configuration is accepted exactly when its file is UTF-8 text that parses to a mapping with
  a mapping \<open>models\<close> whose keys are exactly \<open>f16\<close>, \<open>q8_0\<close> and \<open>q4_k_m\<close>; every entry is a mapping
  with the eight required fields and the quantization of its key (in any case); no two logical
  identifiers are equal; and repository, base model, parameter count and revision are the same in
  all entries. The entries are what is returned.
\<close>

theorem model_config_accepted_iff:
  "load_model_config w fs p = Inr models \<longleftrightarrow>
     (\<exists>content raw. fs p = Some content \<and> utf8_valid content \<and>
        yaml_load w (newlines content) = Some raw \<and> is_JObj raw \<and> models = jget raw ''models'') \<and>
     is_JObj models \<and> set (jkeys models) = {''f16'', ''q8_0'', ''q4_k_m''} \<and>
     (\<forall>(key, item) \<in> set (jitems models). model_ok w key item) \<and>
     sorted_wrt (\<lambda>i j. \<not> py_eq i j) (logical_ids (jitems models)) \<and>
     (\<forall>(_, item) \<in> set (tl (jitems models)).
        list_all2 py_eq (compatibility_key (snd (hd (jitems models)))) (compatibility_key item))"
  by (rule load_model_config_Inr)

section \<open>Downloading a configuration\<close>

definition model_in_place :: "world \<Rightarrow> files \<Rightarrow> path \<Rightarrow> metadata \<Rightarrow> bool" where
  "model_in_place w fs p m \<longleftrightarrow>
     (\<exists>content. fs p = Some content \<and> content \<noteq> [] \<and>
        meta_get m ''byte_size'' = JInt (int (length content)) \<and>
        meta_get m ''sha256'' = JStr (sha256 w content)) \<and>
     fs (metadata_path p) = Some (metadata_text m)"

text \<open>File names none of which is another one's, or another one's metadata or partial file.\<close>

definition apart :: "string \<Rightarrow> string \<Rightarrow> bool" where
  "apart f g \<longleftrightarrow> f \<noteq> g \<and> f \<noteq> g @ ''.metadata.json'' \<and> f \<noteq> g @ ''.part'' \<and>
     g \<noteq> f @ ''.metadata.json'' \<and> g \<noteq> f @ ''.part''"

lemma download_model_in_place:
  "download_model w fs repository filename models_dir opts = (fs', Inr (p, m)) \<Longrightarrow> model_in_place w fs' p m"
  using download_model_Inr [of w fs repository filename models_dir opts fs' p m]
  by (auto simp: model_in_place_def meta_gets)

lemma suffixes_differ: "f @ ''.metadata.json'' \<noteq> g @ ''.part''"
proof
  assume "f @ ''.metadata.json'' = g @ ''.part''"
  then have "last (f @ ''.metadata.json'') = last (g @ ''.part'')" by simp
  then show False by simp
qed

lemma model_stays_in_place:
  assumes "download_model w fs repository filename models_dir opts = (fs', Inr (p, m))"
    and "apart g filename" "file_name_ok g" "model_in_place w fs (path_join models_dir g) m'"
  shows "model_in_place w fs' (path_join models_dir g) m'"
proof -
  let ?q = "path_join models_dir g"
  from download_model_Inr [OF assms(1)] have p: "p = path_join models_dir filename" "file_name_ok filename"
    and frame: "\<And>q. q \<notin> {p, metadata_path p, partial_path p} \<Longrightarrow> fs' q = fs q" by blast+
  have "?q \<notin> {p, metadata_path p, partial_path p}" "metadata_path ?q \<notin> {p, metadata_path p, partial_path p}"
    using assms(2) suffixes_differ [of g filename]
    unfolding p(1) sidecar_join [OF p(2)] sidecar_join [OF assms(3)]
    by (auto simp: path_join_ok [OF p(2)] path_join_ok [OF assms(3)] apart_def)
  with assms(4) frame show ?thesis by (simp add: model_in_place_def)
qed

definition item_name :: "world \<Rightarrow> json \<Rightarrow> string" where
  "item_name w item = py_str w (jget item ''source_filename'')"

lemma download_item_Inr:
  assumes "download_item w dir fs item = (fs', Inr (p, m))"
  obtains opts where "item_options w item = Inr opts"
    "download_model w fs (py_str w (jget item ''source_repository'')) (item_name w item) dir opts = (fs', Inr (p, m))"
    "p = path_join dir (item_name w item)" "file_name_ok (item_name w item)"
proof -
  from assms obtain opts where o: "item_options w item = Inr opts"
    and d: "download_model w fs (py_str w (jget item ''source_repository'')) (item_name w item) dir opts = (fs', Inr (p, m))"
    by (auto simp: download_item_def item_name_def split: sum.splits)
  from o d show thesis using download_model_Inr [OF d] that by blast
qed

lemma download_items_keep:
  assumes "download_items w dir fs items = (fs', Inr rs)"
    and "\<forall>item \<in> set items. apart g (item_name w item)" "file_name_ok g"
    and "model_in_place w fs (path_join dir g) m"
  shows "model_in_place w fs' (path_join dir g) m"
  using assms
proof (induction items arbitrary: fs rs)
  case (Cons item items)
  then obtain fs1 p m1 rs' where d: "download_item w dir fs item = (fs1, Inr (p, m1))"
    and rest: "download_items w dir fs1 items = (fs', Inr rs')"
    by (auto split: prod.splits sum.splits)
  from d obtain opts where
    "download_model w fs (py_str w (jget item ''source_repository'')) (item_name w item) dir opts = (fs1, Inr (p, m1))"
    by (rule download_item_Inr)
  from model_stays_in_place [OF this] Cons.prems have "model_in_place w fs1 (path_join dir g) m" by simp
  with Cons.IH [OF rest] Cons.prems show ?case by simp
qed simp

lemma download_items_in_place:
  assumes "download_items w dir fs items = (fs', Inr rs)"
    and "sorted_wrt apart (map (item_name w) items)"
  shows "map fst rs = map (\<lambda>item. path_join dir (item_name w item)) items \<and>
    (\<forall>(p, m) \<in> set rs. model_in_place w fs' p m)"
  using assms
proof (induction items arbitrary: fs rs)
  case (Cons item items)
  then obtain fs1 p m rs' where d: "download_item w dir fs item = (fs1, Inr (p, m))"
    and rest: "download_items w dir fs1 items = (fs', Inr rs')" and rs: "rs = (p, m) # rs'"
    by (auto split: prod.splits sum.splits)
  from d obtain opts where
    run: "download_model w fs (py_str w (jget item ''source_repository'')) (item_name w item) dir opts = (fs1, Inr (p, m))"
    and p: "p = path_join dir (item_name w item)" and ok: "file_name_ok (item_name w item)"
    by (rule download_item_Inr)
  have "model_in_place w fs' p m"
    using download_items_keep [OF rest _ ok] download_model_in_place [OF run] Cons.prems(2) p by simp
  with Cons.IH [OF rest] Cons.prems(2) rs p show ?case by simp
qed simp

text \<open>C36: When the download of a configuration returns, every model it names is in place at the end: one
  result per entry, in order, whose file is nonempty, has the size and digest of its metadata, and
  has that metadata beside it. No later entry has damaged an earlier one, provided no file name is
  another entry's name, metadata file or partial file.
\<close>

theorem config_download_in_place:
  assumes "load_model_config w fs config = Inr models"
    and "download_config w fs config models_dir = (fs', Inr rs)"
    and "sorted_wrt apart (map (item_name w) (map snd (jitems models)))"
  shows "map fst rs = map (\<lambda>item. path_join models_dir (item_name w item)) (map snd (jitems models)) \<and>
    (\<forall>(p, m) \<in> set rs. model_in_place w fs' p m)"
proof -
  from assms(1,2) have "download_items w models_dir fs (map snd (jitems models)) = (fs', Inr rs)"
    by (simp add: download_config_def)
  from download_items_in_place [OF this assms(3)] show ?thesis .
qed

section \<open>A sample configuration\<close>

text \<open>When a server has every named file, the download of a configuration into a directory that has
  none of them returns.\<close>

lemma download_item_succeeds:
  assumes "item_options w item = Inr opts"
    and "source_url (py_str w (jget item ''source_repository'')) (item_name w item) (revision opts) = Inr url"
    and "fs (path_join dir (item_name w item)) = None"
    and "fs (partial_path (path_join dir (item_name w item))) = None"
    and "serves w url body" "body \<noteq> []" "expectations_met w opts body"
  shows "\<exists>fs' m. download_item w dir fs item = (fs', Inr (path_join dir (item_name w item), m)) \<and>
    (\<forall>q. q \<notin> {path_join dir (item_name w item), metadata_path (path_join dir (item_name w item)),
       partial_path (path_join dir (item_name w item))} \<longrightarrow> fs' q = fs q)"
proof -
  from served_download_succeeds [OF assms(2-7)] obtain fs' m where
    d: "download_model w fs (py_str w (jget item ''source_repository'')) (item_name w item) dir opts =
      (fs', Inr (path_join dir (item_name w item), m))" by blast
  with assms(1) have "download_item w dir fs item = (fs', Inr (path_join dir (item_name w item), m))"
    by (simp add: download_item_def item_name_def)
  with download_model_Inr [OF d] show ?thesis by blast
qed

definition served_item :: "world \<Rightarrow> json \<Rightarrow> bool" where
  "served_item w item \<longleftrightarrow> (\<exists>opts url body. item_options w item = Inr opts \<and>
     source_url (py_str w (jget item ''source_repository'')) (item_name w item) (revision opts) = Inr url \<and>
     serves w url body \<and> body \<noteq> [] \<and> expectations_met w opts body)"

lemma apart_files:
  assumes "apart g f" "file_name_ok f" "file_name_ok g"
  shows "path_join d g \<notin> {path_join d f, metadata_path (path_join d f), partial_path (path_join d f)}"
    and "metadata_path (path_join d g) \<notin> {path_join d f, metadata_path (path_join d f), partial_path (path_join d f)}"
    and "partial_path (path_join d g) \<notin> {path_join d f, metadata_path (path_join d f), partial_path (path_join d f)}"
  using assms(1) suffixes_differ [of g f] suffixes_differ [of f g]
  unfolding sidecar_join [OF assms(2)] sidecar_join [OF assms(3)]
  by (auto simp: path_join_ok [OF assms(2)] path_join_ok [OF assms(3)] apart_def)

lemma download_items_succeed:
  assumes "\<forall>item \<in> set items. served_item w item"
    and "\<forall>item \<in> set items. fs (path_join dir (item_name w item)) = None \<and>
      fs (partial_path (path_join dir (item_name w item))) = None"
    and "sorted_wrt apart (map (item_name w) items)"
  shows "\<exists>fs' rs. download_items w dir fs items = (fs', Inr rs)"
  using assms
proof (induction items arbitrary: fs)
  case (Cons item items)
  let ?d = "path_join dir (item_name w item)"
  from Cons.prems(1) obtain opts url body where i: "item_options w item = Inr opts"
    "source_url (py_str w (jget item ''source_repository'')) (item_name w item) (revision opts) = Inr url"
    "serves w url body" "body \<noteq> []" "expectations_met w opts body"
    by (auto simp: served_item_def)
  from download_item_succeeds [OF i(1,2) _ _ i(3-5), of fs dir] Cons.prems(2)
  obtain fs1 m where d: "download_item w dir fs item = (fs1, Inr (?d, m))"
    and frame: "\<And>q. q \<notin> {?d, metadata_path ?d, partial_path ?d} \<Longrightarrow> fs1 q = fs q"
    by (metis list.set_intros(1))
  have ok: "file_name_ok (item_name w item)" using i(2) by (simp add: source_url_Inr)
  have "fs1 (path_join dir (item_name w j)) = None \<and> fs1 (partial_path (path_join dir (item_name w j))) = None"
    if j: "j \<in> set items" for j
  proof -
    from Cons.prems(1) j have "file_name_ok (item_name w j)"
      by (auto simp: served_item_def source_url_Inr)
    moreover from Cons.prems(3) j have "apart (item_name w j) (item_name w item)"
      by (auto simp: apart_def)
    ultimately show ?thesis
      using apart_files [OF _ ok] frame Cons.prems(2) j by (metis list.set_intros(2))
  qed
  with Cons.IH [of fs1] Cons.prems obtain fs' rs where "download_items w dir fs1 items = (fs', Inr rs)"
    by auto
  with d show ?case by simp
qed simp

definition sample_item :: "string \<Rightarrow> string \<Rightarrow> string \<Rightarrow> json" where
  "sample_item ident q f = JObj
    [(''logical_id'', JStr ident), (''quantization'', JStr q), (''source_repository'', JStr ''o/m''),
     (''source_filename'', JStr f), (''local_filename'', JStr f), (''base_model_name'', JStr ''m''),
     (''parameter_count'', JInt 494), (''source_revision'', JStr ''main'')]"

definition sample_models :: json where
  "sample_models = JObj
    [(''f16'', sample_item ''m-f16'' ''F16'' ''a.gguf''), (''q8_0'', sample_item ''m-q8'' ''Q8_0'' ''b.gguf''),
     (''q4_k_m'', sample_item ''m-q4'' ''q4_k_m'' ''c.gguf'')]"

definition config_world :: world where
  "config_world = sample_world\<lparr>yaml_load := \<lambda>_. Some (JObj [(''models'', sample_models)])\<rparr>"

definition config_files :: files where
  "config_files = [Path [] [''c.yaml''] \<mapsto> ''models''] "

lemma sample_item_gets:
  "jget (sample_item i q f) ''logical_id'' = JStr i" "jget (sample_item i q f) ''quantization'' = JStr q"
  "jget (sample_item i q f) ''source_repository'' = JStr ''o/m''"
  "jget (sample_item i q f) ''source_filename'' = JStr f"
  "jget (sample_item i q f) ''base_model_name'' = JStr ''m''"
  "jget (sample_item i q f) ''parameter_count'' = JInt 494"
  "jget (sample_item i q f) ''source_revision'' = JStr ''main''"
  "jget (sample_item i q f) ''sha256'' = JNull" "jget (sample_item i q f) ''byte_size'' = JNull"
  by (simp_all add: sample_item_def)

lemma sample_item_compatibility:
  "compatibility_key (sample_item i q f) = [JStr ''o/m'', JStr ''m'', JInt 494, JStr ''main'']"
  by (simp add: compatibility_key_def sample_item_gets)

lemma sample_item_ok:
  assumes "map_of REQUIRED_QUANTIZATIONS key = Some (upper q)"
  shows "model_ok w key (sample_item i q f)"
proof -
  have "is_JObj (sample_item i q f) \<and> (\<forall>g \<in> set MODEL_FIELDS. jhas (sample_item i q f) g)"
    by (simp add: sample_item_def MODEL_FIELDS_def)
  with assms show ?thesis
    by (simp add: model_ok_def sample_item_gets sample_item_compatibility py_str_def hashable_def)
qed

lemma sample_models_accepted:
  "load_model_config config_world config_files (Path [] [''c.yaml'']) = Inr sample_models"
proof -
  have "utf8_valid ''models''" by (rule utf8_valid_ascii) simp
  moreover have "model_ok config_world ''f16'' (sample_item ''m-f16'' ''F16'' ''a.gguf'')"
    "model_ok config_world ''q8_0'' (sample_item ''m-q8'' ''Q8_0'' ''b.gguf'')"
    "model_ok config_world ''q4_k_m'' (sample_item ''m-q4'' ''q4_k_m'' ''c.gguf'')"
    by (rule sample_item_ok, code_simp)+
  ultimately show ?thesis
    unfolding load_model_config_Inr
    by (simp add: config_files_def config_world_def sample_models_def logical_ids_def
        sample_item_gets sample_item_compatibility jkeys_def)
qed

lemma model_config_accepted_iff_witness:
  "load_model_config config_world config_files (Path [] [''c.yaml'']) = Inr sample_models \<and>
   sorted_wrt (\<lambda>i j. \<not> py_eq i j) (logical_ids (jitems sample_models)) \<and>
   (\<exists>raw. yaml_load config_world ''models'' = Some raw \<and> is_JObj raw)"
  using sample_models_accepted
    model_config_accepted_iff [of config_world config_files "Path [] [''c.yaml'']" sample_models]
  by (auto simp: config_world_def simp del: py_eq_JStr)

lemma sample_item_served:
  assumes "file_name_ok f"
  shows "served_item config_world (sample_item i q f)"
proof -
  obtain u where "source_url ''o/m'' f ''main'' = Inr u"
    using assms by (auto simp: source_url_Inr prefix_single)
  moreover have "serves config_world u sample_body" by (rule sample_serves) (simp add: config_world_def)
  moreover have "sample_body \<noteq> []" by (simp add: sample_body_def)
  ultimately show ?thesis
    by (auto simp: served_item_def item_options_def item_name_def sample_item_gets py_int_def py_str_def
        expectations_met_def)
qed

lemma sample_names:
  "map (item_name config_world) (map snd (jitems sample_models)) = [''a.gguf'', ''b.gguf'', ''c.gguf'']"
  by (simp add: sample_models_def item_name_def sample_item_gets py_str_def)

lemma config_download_in_place_witness:
  "\<exists>fs' rs. download_config config_world config_files (Path [] [''c.yaml'']) sample_dir = (fs', Inr rs) \<and>
     map fst rs = map (path_join sample_dir) [''a.gguf'', ''b.gguf'', ''c.gguf''] \<and>
     (\<forall>(p, m) \<in> set rs. model_in_place config_world fs' p m)"
proof -
  let ?items = "map snd (jitems sample_models)"
  have apart: "sorted_wrt apart (map (item_name config_world) ?items)"
    unfolding sample_names by (simp add: apart_def)
  have served: "\<forall>item \<in> set ?items. served_item config_world item"
    using sample_item_served by (simp add: sample_models_def file_name_ok_def)
  have "config_files (path_join sample_dir f) = None \<and> config_files (partial_path (path_join sample_dir f)) = None"
    if "file_name_ok f" for f
    unfolding sidecar_join [OF that] by (simp add: path_join_ok [OF that] config_files_def sample_dir_def)
  then have "\<forall>item \<in> set ?items. config_files (path_join sample_dir (item_name config_world item)) = None \<and>
      config_files (partial_path (path_join sample_dir (item_name config_world item))) = None"
    by (simp add: sample_models_def item_name_def sample_item_gets py_str_def file_name_ok_def)
  from download_items_succeed [OF served this apart] obtain fs' rs where
    "download_items config_world sample_dir config_files ?items = (fs', Inr rs)" by blast
  then have run: "download_config config_world config_files (Path [] [''c.yaml'']) sample_dir = (fs', Inr rs)"
    by (simp add: download_config_def sample_models_accepted)
  have "map (\<lambda>item. path_join sample_dir (item_name config_world item)) ?items =
      map (path_join sample_dir) (map (item_name config_world) ?items)" by simp
  with config_download_in_place [OF sample_models_accepted run apart] run sample_names
  show ?thesis by metis
qed

section \<open>The exit code\<close>

text \<open>Exit code 0 is a download that returned; a \<open>DownloadError\<close> is exit code 1 and prints nothing on
  standard output; there is no third code.\<close>

lemma download_main_code:
  "snd (download_main w fs repository filename config dir) = Inr (out, code) \<Longrightarrow>
     code = 0 \<or> code = 1 \<and> out = []"
  by (auto simp: download_main_def Let_def split: prod.splits sum.splits py_error.splits option.splits if_splits)

text \<open>A value that \<open>int\<close> rejects leaves the script as an exception that is no \<open>DownloadError\<close>, although the
  configuration was accepted: the check of the configuration does not look at the type of the
  parameter count.\<close>

lemma textual_count_escapes:
  assumes "load_model_config w fs c = Inr models" "jitems models = (k, item) # items"
    and "jget item ''parameter_count'' = JStr ''0.5B''"
  shows "download_main w fs None None (Some c) dir = (fs, Inl (ValueError ''invalid literal for int()''))"
proof -
  have "parse_int ''0.5B'' = None" by code_simp
  with assms show ?thesis
    by (simp add: download_main_def given_def download_config_def download_item_def item_options_def py_int_def)
qed

end
