(* ===== verification/Bench_Plan.thy ===== *)
theory Bench_Plan
  imports Py_Process
begin

text \<open>
  \<open>benchmarks/run_llama_bench.py\<close>, first part: the configuration of a benchmark matrix and the plan of
  invocations it stands for (\<open>load_config\<close>, \<open>cases\<close>, \<open>case_id\<close>, \<open>invocations\<close>, \<open>build_command\<close>).

  The YAML parser and \<open>pathlib\<close>'s resolution of a path against the directory of the configuration
  are arguments. A field of \<open>BenchmarkConfig\<close> that has the name of a field of \<open>Case\<close> is written with
  the suffix \<open>_axis\<close>.
\<close>

section \<open>Configurations\<close>

record bench_case =
  threads :: int
  prompt_tokens :: int
  generated_tokens :: int
  batch_size :: int
  context_size :: int
  ubatch_size :: int
  kv_key_type :: string
  kv_value_type :: string

record model_spec =
  logical_id :: string
  model_file :: path
  quantization :: string
  model_sha256 :: "string option"
  model_size :: "int option"

record bench_config =
  executable :: path
  models :: "model_spec list"
  threads_axis :: "int list"
  prompt_tokens_axis :: "int list"
  generated_tokens_axis :: "int list"
  batch_sizes :: "int list"
  context_sizes :: "int list"
  ubatch_sizes :: "int list"
  repetitions :: int
  warmup_runs :: int
  timeout_seconds :: json
  output_directory :: path
  mmap :: bool
  cpu_only :: bool
  smoke_fixture :: "path option"
  explicit_cases :: "bench_case list option"
  kv_cache_variants :: "(string \<times> string) list"
  measure_memory :: bool
  time_executable :: path

definition SUPPORTED_KV_CACHE_TYPES :: "string list" where
  "SUPPORTED_KV_CACHE_TYPES =
    [''f32'', ''f16'', ''bf16'', ''q8_0'', ''q4_0'', ''q4_1'', ''iq4_nl'', ''q5_0'', ''q5_1'']"

section \<open>Loading a configuration\<close>

definition REQUIRED_KEYS :: "string list" where
  "REQUIRED_KEYS =
    [''executable'', ''threads'', ''prompt_tokens'', ''generated_tokens'', ''batch_sizes'',
     ''context_sizes'', ''repetitions'', ''warmup_runs'', ''timeout_seconds'', ''output_directory'']"

definition OPTIONAL_KEYS :: "string list" where
  "OPTIONAL_KEYS =
    [''model'', ''models'', ''smoke_fixture'', ''mmap'', ''cpu_only'', ''explicit_cases'',
     ''ubatch_sizes'', ''kv_cache_variants'', ''measure_memory'', ''time_executable'']"

definition CASE_KEYS :: "string list" where
  "CASE_KEYS = [''threads'', ''prompt_tokens'', ''generated_tokens'', ''batch_size'',
     ''context_size'', ''ubatch_size'']"

definition MODEL_KEYS :: "string list" where
  "MODEL_KEYS = [''id'', ''path'', ''quantization'', ''sha256'', ''byte_size'']"

definition positive_int :: "json \<Rightarrow> bool" where
  "positive_int v \<longleftrightarrow> is_JInt v \<and> 0 < int_of v"

text \<open>\<open>_positive_list\<close>\<close>

definition positive_list :: "json \<Rightarrow> string \<Rightarrow> check" where
  "positive_list data key = (let v = jget data key in
     reject (\<not> is_JList v \<or> list_of v = [] \<or> \<not> list_all positive_int (list_of v))
       (ConfigError (key @ '' must be a non-empty list of positive integers'')))"

definition nonblank :: "json \<Rightarrow> bool" where
  "nonblank v \<longleftrightarrow> is_JStr v \<and> strip (str_of v) \<noteq> []"

definition path_value :: "json \<Rightarrow> string \<Rightarrow> check" where
  "path_value raw key = reject (\<not> nonblank (jget raw key))
     (ConfigError (key @ '' must be a non-empty path string''))"

text \<open>\<open>timeout <= 0\<close> for an \<open>int\<close> or a \<open>float\<close>\<close>

definition not_positive :: "json \<Rightarrow> bool" where
  "not_positive v = (case v of JInt i \<Rightarrow> i \<le> 0 | JFloat (Fin q) \<Rightarrow> q \<le> 0 | JFloat (Inf neg) \<Rightarrow> neg | _ \<Rightarrow> False)"

definition check_scalars :: "json \<Rightarrow> check" where
  "check_scalars raw = first_error
     [reject (\<not> is_JInt (jget raw ''repetitions'') \<or> int_of (jget raw ''repetitions'') < 1)
        (ConfigError ''repetitions must be an integer >= 1''),
      reject (\<not> is_JInt (jget raw ''warmup_runs'') \<or> int_of (jget raw ''warmup_runs'') < 0)
        (ConfigError ''warmup_runs must be an integer >= 0''),
      reject ((case jget raw ''timeout_seconds'' of JInt _ \<Rightarrow> False | JFloat _ \<Rightarrow> False | _ \<Rightarrow> True) \<or>
          not_positive (jget raw ''timeout_seconds''))
        (ConfigError ''timeout_seconds must be a positive number''),
      reject (jget raw ''smoke_fixture'' \<noteq> JNull \<and> \<not> nonblank (jget raw ''smoke_fixture''))
        (ConfigError ''smoke_fixture must be a non-empty path string''),
      first_error (map (\<lambda>key. reject (jhas raw key \<and> \<not> is_JBool (jget raw key))
        (ConfigError (key @ '' must be a boolean''))) [''mmap'', ''cpu_only'', ''measure_memory'']),
      if jhas raw ''ubatch_sizes'' then positive_list raw ''ubatch_sizes'' else None]"

definition check_case_entry :: "json \<Rightarrow> check" where
  "check_case_entry entry = first_error
     [reject (\<not> is_JObj entry \<or> \<not> has_exactly entry CASE_KEYS)
        (ConfigError ''explicit_cases must contain exactly the case fields''),
      reject (\<not> list_all (\<lambda>key. positive_int (jget entry key)) CASE_KEYS)
        (ConfigError ''explicit_cases values must be positive integers'')]"

definition check_explicit_cases :: "json \<Rightarrow> check" where
  "check_explicit_cases raw =
     (if \<not> jhas raw ''explicit_cases'' then None
      else (let entries = jget raw ''explicit_cases'' in first_error
        (reject (\<not> is_JList entries \<or> list_of entries = [])
           (ConfigError ''explicit_cases must be a non-empty list'') #
         map check_case_entry (list_of entries))))"

text \<open>The variants seen so far are pairs of texts, so \<open>pair in variants\<close> is plain membership.\<close>

definition variant_pair :: "json \<Rightarrow> string \<times> string" where
  "variant_pair v = (str_of (jget v ''key''), str_of (jget v ''value''))"

fun check_variants :: "(string \<times> string) list \<Rightarrow> json list \<Rightarrow> check" where
  "check_variants seen [] = None"
| "check_variants seen (v # vs) = first_error
     [reject (\<not> is_JObj v \<or> \<not> has_exactly v [''key'', ''value''])
        (ConfigError ''kv_cache_variants must contain exactly key and value''),
      reject (\<not> list_all (\<lambda>k. is_JStr (jget v k) \<and> str_of (jget v k) \<in> set SUPPORTED_KV_CACHE_TYPES)
          [''key'', ''value''])
        (ConfigError ''kv_cache_variants contains an unknown KV-cache type''),
      reject (variant_pair v \<in> set seen) (ConfigError ''duplicate KV-cache variant''),
      check_variants (variant_pair v # seen) vs]"

definition variants_of :: "json \<Rightarrow> json" where
  "variants_of raw = jget_default raw ''kv_cache_variants''
     (JList [JObj [(''key'', JStr ''f16''), (''value'', JStr ''f16'')]])"

definition is_hex :: "char \<Rightarrow> bool" where
  "is_hex c \<longleftrightarrow> is_digit c \<or> 97 \<le> ord c \<and> ord c \<le> 102 \<or> 65 \<le> ord c \<and> ord c \<le> 70"

definition check_model_entry :: "string list \<Rightarrow> json \<Rightarrow> check" where
  "check_model_entry ids entry = first_error
     [reject (\<not> is_JObj entry \<or> keys_missing entry [''id'', ''path'', ''quantization''] \<noteq> [] \<or>
         keys_outside entry MODEL_KEYS \<noteq> [])
        (ConfigError ''models requires id, path, and quantization''),
      reject (\<not> list_all (\<lambda>k. nonblank (jget entry k)) [''id'', ''path'', ''quantization''])
        (ConfigError ''models string fields must be non-empty''),
      reject (str_of (jget entry ''id'') \<in> set ids) (ConfigError ''duplicate model ID''),
      (let sha = jget entry ''sha256'' in
       reject (sha \<noteq> JNull \<and> \<not> (is_JStr sha \<and> length (str_of sha) = 64 \<and> list_all is_hex (str_of sha)))
        (ConfigError ''models sha256 must be 64 hexadecimal characters'')),
      (let size = jget entry ''byte_size'' in
       reject (size \<noteq> JNull \<and> \<not> positive_int size)
        (ConfigError ''models byte_size must be a positive integer''))]"

fun check_model_entries :: "string list \<Rightarrow> json list \<Rightarrow> check" where
  "check_model_entries ids [] = None"
| "check_model_entries ids (e # es) = first_error
     [check_model_entry ids e, check_model_entries (str_of (jget e ''id'') # ids) es]"

definition check_models_key :: "json \<Rightarrow> check" where
  "check_models_key raw =
     (if jhas raw ''models'' then (let entries = jget raw ''models'' in first_error
        [reject (\<not> is_JList entries \<or> list_of entries = []) (ConfigError ''models must be a non-empty list''),
         check_model_entries [] (list_of entries)])
      else path_value raw ''model'')"

definition check_bench_config :: "json \<Rightarrow> check" where
  "check_bench_config raw = first_error
     [reject (\<not> is_JObj raw) (ConfigError ''configuration root must be a mapping''),
      reject (keys_missing raw REQUIRED_KEYS \<noteq> []) (ConfigError ''missing required keys''),
      reject (keys_outside raw (REQUIRED_KEYS @ OPTIONAL_KEYS) \<noteq> []) (ConfigError ''unknown keys''),
      reject (jhas raw ''model'' = jhas raw ''models'')
        (ConfigError ''configuration must contain exactly one of model or models''),
      check_scalars raw,
      check_explicit_cases raw,
      reject (\<not> is_JList (variants_of raw) \<or> list_of (variants_of raw) = [])
        (ConfigError ''kv_cache_variants must be a non-empty list''),
      check_variants [] (list_of (variants_of raw)),
      reject (\<not> nonblank (jget_default raw ''time_executable'' (JStr ''/usr/bin/time'')))
        (ConfigError ''time_executable must be a non-empty path string''),
      check_models_key raw,
      path_value raw ''executable'',
      positive_list raw ''threads'', positive_list raw ''prompt_tokens'',
      positive_list raw ''generated_tokens'', positive_list raw ''batch_sizes'',
      positive_list raw ''context_sizes'',
      reject (case jget raw ''timeout_seconds'' of JInt i \<Rightarrow> fl_checked (of_int i) = None | _ \<Rightarrow> False)
        OverflowError,
      path_value raw ''output_directory'']"

section \<open>The configuration as a value\<close>

definition case_of_entry :: "json \<Rightarrow> bench_case" where
  "case_of_entry e = \<lparr>threads = int_of (jget e ''threads''), prompt_tokens = int_of (jget e ''prompt_tokens''),
     generated_tokens = int_of (jget e ''generated_tokens''), batch_size = int_of (jget e ''batch_size''),
     context_size = int_of (jget e ''context_size''), ubatch_size = int_of (jget e ''ubatch_size''),
     kv_key_type = ''f16'', kv_value_type = ''f16''\<rparr>"

definition opt_str :: "json \<Rightarrow> string option" where
  "opt_str v = (case v of JStr s \<Rightarrow> Some s | _ \<Rightarrow> None)"

definition model_of_entry :: "(string \<Rightarrow> path) \<Rightarrow> json \<Rightarrow> model_spec" where
  "model_of_entry resolve e = \<lparr>logical_id = str_of (jget e ''id''),
     model_file = resolve (str_of (jget e ''path'')),
     quantization = upper (str_of (jget e ''quantization'')),
     model_sha256 = map_option lower (opt_str (jget e ''sha256'')),
     model_size = opt_int (jget e ''byte_size'')\<rparr>"

text \<open>\<open>ModelSpec(path.stem, path, "UNKNOWN")\<close> for the single model of the older form\<close>

definition legacy_model :: "path \<Rightarrow> model_spec" where
  "legacy_model p = \<lparr>logical_id = name_stem (path_name p), model_file = p, quantization = ''UNKNOWN'',
     model_sha256 = None, model_size = None\<rparr>"

text \<open>
  \<open>resolve\<close> is \<open>expanduser\<close> and resolution against the directory of the file; \<open>smoke_path\<close> the same
  without \<open>expanduser\<close>, as the fixture is resolved.
\<close>

definition config_of ::
  "(string \<Rightarrow> path) \<Rightarrow> (string \<Rightarrow> path) \<Rightarrow> json \<Rightarrow> bench_config" where
  "config_of resolve smoke_path raw =
     \<lparr>executable = resolve (str_of (jget raw ''executable'')),
      models = (if jhas raw ''models'' then map (model_of_entry resolve) (list_of (jget raw ''models''))
        else [legacy_model (resolve (str_of (jget raw ''model'')))]),
      threads_axis = ints_of (jget raw ''threads''),
      prompt_tokens_axis = ints_of (jget raw ''prompt_tokens''),
      generated_tokens_axis = ints_of (jget raw ''generated_tokens''),
      batch_sizes = ints_of (jget raw ''batch_sizes''),
      context_sizes = ints_of (jget raw ''context_sizes''),
      ubatch_sizes = (if jhas raw ''ubatch_sizes'' then ints_of (jget raw ''ubatch_sizes'') else [512]),
      repetitions = int_of (jget raw ''repetitions''),
      warmup_runs = int_of (jget raw ''warmup_runs''),
      timeout_seconds = jget raw ''timeout_seconds'',
      output_directory = resolve (str_of (jget raw ''output_directory'')),
      mmap = bool_of (jget_default raw ''mmap'' (JBool True)),
      cpu_only = bool_of (jget_default raw ''cpu_only'' (JBool True)),
      smoke_fixture = map_option smoke_path (opt_str (jget raw ''smoke_fixture'')),
      explicit_cases = (if jhas raw ''explicit_cases''
        then Some (map case_of_entry (list_of (jget raw ''explicit_cases''))) else None),
      kv_cache_variants = map variant_pair (list_of (variants_of raw)),
      measure_memory = bool_of (jget_default raw ''measure_memory'' (JBool False)),
      time_executable = resolve (str_of (jget_default raw ''time_executable'' (JStr ''/usr/bin/time'')))\<rparr>"

definition load_config ::
  "(string \<Rightarrow> json option) \<Rightarrow> (string \<Rightarrow> path) \<Rightarrow> (string \<Rightarrow> path) \<Rightarrow> files \<Rightarrow> path \<Rightarrow> bench_config res" where
  "load_config yaml resolve smoke_path fs p = (case fs p of
       None \<Rightarrow> Inl (ConfigError ''cannot read configuration'')
     | Some content \<Rightarrow> rbind (read_text content) (\<lambda>t. case yaml t of
          None \<Rightarrow> Inl (ConfigError ''cannot read configuration'')
        | Some raw \<Rightarrow> checked (check_bench_config raw) (Inr (config_of resolve smoke_path raw))))"

section \<open>The plan\<close>

text \<open>\<open>list(dict.fromkeys(xs))\<close>: the first occurrences, in order\<close>

fun fromkeys :: "'a list \<Rightarrow> 'a list" where
  "fromkeys [] = []"
| "fromkeys (x # xs) = x # filter (\<lambda>y. y \<noteq> x) (fromkeys xs)"

definition base_cases :: "bench_config \<Rightarrow> bench_case list" where
  "base_cases config = (case explicit_cases config of
       Some cs \<Rightarrow> cs
     | None \<Rightarrow> [\<lparr>threads = t, prompt_tokens = p, generated_tokens = g, batch_size = b, context_size = c,
           ubatch_size = u, kv_key_type = ''f16'', kv_value_type = ''f16''\<rparr>.
         t \<leftarrow> threads_axis config, p \<leftarrow> prompt_tokens_axis config, g \<leftarrow> generated_tokens_axis config,
         b \<leftarrow> batch_sizes config, c \<leftarrow> context_sizes config, u \<leftarrow> ubatch_sizes config])"

definition all_cases :: "bench_config \<Rightarrow> bench_case list" where
  "all_cases config = [c\<lparr>kv_key_type := k, kv_value_type := v\<rparr>.
     c \<leftarrow> fromkeys (base_cases config), (k, v) \<leftarrow> kv_cache_variants config]"

definition cases_of :: "bench_config \<Rightarrow> bench_case list res" where
  "cases_of config = (let result = all_cases config in
     if list_ex (\<lambda>c. context_size c < prompt_tokens c + generated_tokens c) result
     then Inl (ConfigError ''context size is smaller than prompt + generated tokens'')
     else Inr result)"

definition build_command :: "bench_config \<Rightarrow> bench_case \<Rightarrow> model_spec \<Rightarrow> string list" where
  "build_command config c m =
     (let depth = context_size c - prompt_tokens c - generated_tokens c in
      [path_str (executable config), ''-m'', path_str (model_file m), ''-t'', str_int (threads c),
       ''-p'', str_int (prompt_tokens c), ''-n'', str_int (generated_tokens c),
       ''-b'', str_int (batch_size c), ''-ub'', str_int (ubatch_size c), ''-d'', str_int depth, ''-r'', ''1'',
       ''-o'', ''md'', ''-mmp'', if mmap config then ''1'' else ''0'',
       ''-ctk'', kv_key_type c, ''-ctv'', kv_value_type c] @
      (if cpu_only config then [''-ngl'', ''0'', ''-dev'', ''none''] else []))"

definition case_id :: "bench_case \<Rightarrow> string" where
  "case_id c = ''p'' @ str_int (prompt_tokens c) @ ''-n'' @ str_int (generated_tokens c) @
     ''-t'' @ str_int (threads c) @ ''-b'' @ str_int (batch_size c) @ ''-ub'' @ str_int (ubatch_size c) @
     ''-c'' @ str_int (context_size c) @ ''-kv-'' @ kv_key_type c @ ''-'' @ kv_value_type c"

record invocation =
  number :: nat
  total_invocations :: nat
  inv_case :: bench_case
  inv_case_id :: string
  invocation_id :: string
  warmup :: bool
  repetition :: int
  inv_model :: model_spec

definition phase_of :: "bool \<Rightarrow> string" where
  "phase_of w = (if w then ''warmup'' else ''measured'')"

definition id_of :: "model_spec \<times> bench_case \<times> bool \<times> int \<Rightarrow> string" where
  "id_of = (\<lambda>(m, c, w, r). logical_id m @ '':'' @ case_id c @ '':'' @ phase_of w @ '':'' @ str_int r)"

definition plan_specs :: "bench_config \<Rightarrow> bench_case list \<Rightarrow> (model_spec \<times> bench_case \<times> bool \<times> int) list" where
  "plan_specs config cs = [(m, c, w, r). m \<leftarrow> models config, c \<leftarrow> cs,
     (w, r) \<leftarrow> map (Pair True) [1..warmup_runs config] @ map (Pair False) [1..repetitions config]]"

definition invocations :: "bench_config \<Rightarrow> invocation list res" where
  "invocations config = rbind (cases_of config) (\<lambda>cs. let specs = plan_specs config cs in
     Inr (map (\<lambda>(n, m, c, w, r). \<lparr>number = n, total_invocations = length specs, inv_case = c,
          inv_case_id = case_id c, invocation_id = id_of (m, c, w, r), warmup = w, repetition = r,
          inv_model = m\<rparr>) (enumerate1 specs)))"

section \<open>What an accepted configuration is\<close>

definition variant_ok :: "json \<Rightarrow> bool" where
  "variant_ok v \<longleftrightarrow> is_JObj v \<and> has_exactly v [''key'', ''value''] \<and>
     list_all (\<lambda>k. is_JStr (jget v k) \<and> str_of (jget v k) \<in> set SUPPORTED_KV_CACHE_TYPES) [''key'', ''value'']"

interpretation variants: unique_scan "\<lambda>seen vs. check_variants seen vs = None" variant_ok variant_pair
  by unfold_locales (auto simp: variant_ok_def)

definition model_entry_ok :: "json \<Rightarrow> bool" where
  "model_entry_ok e \<longleftrightarrow> check_model_entry [] e = None"

interpretation entries: unique_scan "\<lambda>ids es. check_model_entries ids es = None" model_entry_ok
    "\<lambda>e. str_of (jget e ''id'')"
  by unfold_locales (auto simp: model_entry_ok_def check_model_entry_def)

text \<open>The dimensions of a case, and a configuration the planner can rely on.\<close>

definition dims :: "bench_case \<Rightarrow> int list" where
  "dims c = [threads c, prompt_tokens c, generated_tokens c, batch_size c, context_size c, ubatch_size c]"

definition base_ok :: "bench_case \<Rightarrow> bool" where
  "base_ok c \<longleftrightarrow> list_all (\<lambda>i. 0 < i) (dims c) \<and> kv_key_type c = ''f16'' \<and> kv_value_type c = ''f16''"

definition config_wf :: "bench_config \<Rightarrow> bool" where
  "config_wf config \<longleftrightarrow> models config \<noteq> [] \<and> distinct (map logical_id (models config)) \<and>
     base_cases config \<noteq> [] \<and> list_all base_ok (base_cases config) \<and>
     kv_cache_variants config \<noteq> [] \<and> distinct (kv_cache_variants config) \<and>
     (\<forall>(k, v) \<in> set (kv_cache_variants config).
        k \<in> set SUPPORTED_KV_CACHE_TYPES \<and> v \<in> set SUPPORTED_KV_CACHE_TYPES) \<and>
     1 \<le> repetitions config \<and> 0 \<le> warmup_runs config"

lemma positive_list_None:
  "positive_list raw key = None \<longleftrightarrow>
     (\<exists>is. jget raw key = JList (map JInt is) \<and> is \<noteq> [] \<and> list_all (\<lambda>i. 0 < i) is)"
proof
  assume "positive_list raw key = None"
  then obtain vs where vs: "jget raw key = JList vs" "vs \<noteq> []" "list_all positive_int vs"
    by (auto simp: positive_list_def Let_def elim: is_JListE)
  have "vs = map JInt (map int_of vs)"
    using vs(3) by (induction vs) (auto simp: positive_int_def elim: is_JIntE)
  moreover have "list_all (\<lambda>i. 0 < i) (map int_of vs)"
    using vs(3) by (simp add: list_all_iff positive_int_def)
  ultimately show "\<exists>is. jget raw key = JList (map JInt is) \<and> is \<noteq> [] \<and> list_all (\<lambda>i. 0 < i) is"
    using vs(1,2) by (metis list.map_disc_iff)
qed (auto simp: positive_list_def positive_int_def list_all_iff)

lemma ints_of_JInts [simp]: "ints_of (JList (map JInt is)) = is"
  by (simp add: ints_of_def comp_def)

lemma positive_list_ints:
  "positive_list raw key = None \<Longrightarrow> ints_of (jget raw key) \<noteq> [] \<and> list_all (\<lambda>i. 0 < i) (ints_of (jget raw key))"
  by (auto simp: positive_list_None)

lemma case_entry_ok:
  "check_case_entry e = None \<Longrightarrow> base_ok (case_of_entry e)"
  by (simp add: check_case_entry_def base_ok_def dims_def case_of_entry_def CASE_KEYS_def positive_int_def)

lemma product_base_ok:
  assumes "explicit_cases config = None"
    and "list_all (\<lambda>is. is \<noteq> [] \<and> list_all (\<lambda>i. 0 < i) is)
      [threads_axis config, prompt_tokens_axis config, generated_tokens_axis config,
       batch_sizes config, context_sizes config, ubatch_sizes config]"
  shows "base_cases config \<noteq> [] \<and> list_all base_ok (base_cases config)"
proof
  show "base_cases config \<noteq> []"
    using assms by (auto simp: base_cases_def neq_Nil_conv)
  show "list_all base_ok (base_cases config)"
    using assms by (auto simp: base_cases_def base_ok_def dims_def list_all_iff)
qed

text \<open>Whatever YAML it is given, \<open>load_config\<close> accepts only a configuration the planner can rely on:
  at least one model, with distinct identifiers; at least one case, all of whose dimensions are
  positive; at least one KV-cache variant, all distinct and of supported types; at least one
  measured repetition.
\<close>

lemma loaded_wf:
  assumes "load_config yaml resolve smoke_path fs p = Inr config"
  shows "config_wf config"
proof -
  from assms obtain raw where ok: "check_bench_config raw = None" and c: "config = config_of resolve smoke_path raw"
    by (auto simp: load_config_def split: option.splits)
  from ok have scal: "check_scalars raw = None" and ex: "check_explicit_cases raw = None"
    and var: "list_of (variants_of raw) \<noteq> []" "check_variants [] (list_of (variants_of raw)) = None"
    and mods: "check_models_key raw = None"
    and axes: "positive_list raw ''threads'' = None" "positive_list raw ''prompt_tokens'' = None"
      "positive_list raw ''generated_tokens'' = None" "positive_list raw ''batch_sizes'' = None"
      "positive_list raw ''context_sizes'' = None"
    by (simp_all add: check_bench_config_def)
  have models: "models config \<noteq> [] \<and> distinct (map logical_id (models config))"
  proof (cases "jhas raw ''models''")
    case True
    then have "list_of (jget raw ''models'') \<noteq> []" "check_model_entries [] (list_of (jget raw ''models'')) = None"
      using mods by (auto simp: check_models_key_def Let_def)
    with True show ?thesis
      unfolding entries.scan_fresh by (simp add: c config_of_def model_of_entry_def comp_def)
  qed (simp add: c config_of_def)
  have ub: "ubatch_sizes config \<noteq> [] \<and> list_all (\<lambda>i. 0 < i) (ubatch_sizes config)"
  proof (cases "jhas raw ''ubatch_sizes''")
    case True
    then have "positive_list raw ''ubatch_sizes'' = None" using scal by (simp add: check_scalars_def)
    with True show ?thesis using positive_list_ints by (simp add: c config_of_def)
  qed (simp add: c config_of_def)
  have base: "base_cases config \<noteq> [] \<and> list_all base_ok (base_cases config)"
  proof (cases "jhas raw ''explicit_cases''")
    case True
    then have "list_of (jget raw ''explicit_cases'') \<noteq> []"
      "\<forall>e \<in> set (list_of (jget raw ''explicit_cases'')). check_case_entry e = None"
      using ex by (auto simp: check_explicit_cases_def Let_def)
    with True show ?thesis
      using case_entry_ok by (simp add: base_cases_def c config_of_def list_all_iff)
  next
    case False
    then have "explicit_cases config = None" by (simp add: c config_of_def)
    then show ?thesis
      using axes [THEN positive_list_ints] ub by (intro product_base_ok) (simp_all add: c config_of_def)
  qed
  have vars: "kv_cache_variants config \<noteq> [] \<and> distinct (kv_cache_variants config) \<and>
      (\<forall>(k, v) \<in> set (kv_cache_variants config).
         k \<in> set SUPPORTED_KV_CACHE_TYPES \<and> v \<in> set SUPPORTED_KV_CACHE_TYPES)"
    using var unfolding variants.scan_fresh
    by (auto simp: c config_of_def variant_ok_def variant_pair_def)
  have "1 \<le> repetitions config" "0 \<le> warmup_runs config"
    using scal by (simp_all add: check_scalars_def c config_of_def)
  with models base vars show ?thesis by (simp add: config_wf_def)
qed

text \<open>A small configuration, and the value it stands for.\<close>

definition sample_raw :: json where
  "sample_raw = JObj
    [(''executable'', JStr ''x''), (''model'', JStr ''m''), (''threads'', JList [JInt 2]),
     (''prompt_tokens'', JList [JInt 8]), (''generated_tokens'', JList [JInt 4]),
     (''batch_sizes'', JList [JInt 32]), (''context_sizes'', JList [JInt 16]),
     (''repetitions'', JInt 2), (''warmup_runs'', JInt 1), (''timeout_seconds'', JFloat (Fin 60)),
     (''output_directory'', JStr ''o''), (''time_executable'', JStr ''t'')]"

definition sample_config :: bench_config where
  "sample_config = config_of path_of path_of sample_raw"

definition sample_path :: path where
  "sample_path = Path [] [''c.yaml'']"

lemma sample_strip: "strip ''x'' = ''x''" "strip ''m'' = ''m''" "strip ''o'' = ''o''" "strip ''t'' = ''t''"
  by code_simp+

lemma sample_checked: "check_bench_config sample_raw = None"
proof -
  have lists: "positive_list sample_raw k = None" if "jget sample_raw k = JList [JInt i]" "0 < i" for k i
    using that by (simp add: positive_list_def positive_int_def)
  have keys: "keys_missing sample_raw REQUIRED_KEYS = []"
    "keys_outside sample_raw (REQUIRED_KEYS @ OPTIONAL_KEYS) = []"
    by (simp_all add: sample_raw_def keys_missing_def keys_outside_def jkeys_def REQUIRED_KEYS_def OPTIONAL_KEYS_def)
  have gets: "jget sample_raw ''executable'' = JStr ''x''" "jget sample_raw ''model'' = JStr ''m''"
    "jget sample_raw ''threads'' = JList [JInt 2]" "jget sample_raw ''prompt_tokens'' = JList [JInt 8]"
    "jget sample_raw ''generated_tokens'' = JList [JInt 4]" "jget sample_raw ''batch_sizes'' = JList [JInt 32]"
    "jget sample_raw ''context_sizes'' = JList [JInt 16]" "jget sample_raw ''repetitions'' = JInt 2"
    "jget sample_raw ''warmup_runs'' = JInt 1" "jget sample_raw ''timeout_seconds'' = JFloat (Fin 60)"
    "jget sample_raw ''output_directory'' = JStr ''o''" "jget sample_raw ''smoke_fixture'' = JNull"
    by (simp_all add: sample_raw_def)
  have has: "jhas sample_raw ''model''" "\<not> jhas sample_raw ''models''" "\<not> jhas sample_raw ''mmap''"
    "\<not> jhas sample_raw ''cpu_only''" "\<not> jhas sample_raw ''measure_memory''" "\<not> jhas sample_raw ''ubatch_sizes''"
    "\<not> jhas sample_raw ''explicit_cases''" "is_JObj sample_raw"
    by (simp_all add: sample_raw_def)
  have vars: "variants_of sample_raw = JList [JObj [(''key'', JStr ''f16''), (''value'', JStr ''f16'')]]"
    "jget_default sample_raw ''time_executable'' (JStr ''/usr/bin/time'') = JStr ''t''"
    by (simp_all add: sample_raw_def variants_of_def jget_default_JObj)
  have "check_variants [] [JObj [(''key'', JStr ''f16''), (''value'', JStr ''f16'')]] = None"
    by (simp add: SUPPORTED_KV_CACHE_TYPES_def has_exactly_iff jkeys_def)
  moreover have "check_scalars sample_raw = None"
    by (simp add: check_scalars_def gets has not_positive_def)
  moreover have "check_explicit_cases sample_raw = None" by (simp add: check_explicit_cases_def has)
  moreover have "check_models_key sample_raw = None" "path_value sample_raw ''executable'' = None"
    "path_value sample_raw ''output_directory'' = None"
    by (simp_all add: check_models_key_def path_value_def nonblank_def gets has sample_strip)
  ultimately show ?thesis
    by (simp add: check_bench_config_def keys has vars gets lists nonblank_def sample_strip)
qed

lemma sample_loaded:
  "load_config (\<lambda>_. Some sample_raw) path_of path_of [sample_path \<mapsto> ''c''] sample_path = Inr sample_config"
proof -
  have "utf8_valid ''c''" by (rule utf8_valid_ascii) simp
  then have "read_text ''c'' = Inr (newlines ''c'')" by simp
  then show ?thesis by (simp add: load_config_def sample_checked sample_config_def del: read_text_Inr)
qed

section \<open>The plan\<close>

lemma set_fromkeys [simp]: "set (fromkeys xs) = set xs"
  by (induction xs) auto

lemma distinct_fromkeys [simp]: "distinct (fromkeys xs)"
  by (induction xs) auto

lemma all_cases_eq:
  "all_cases config = map (\<lambda>(c, k, v). c\<lparr>kv_key_type := k, kv_value_type := v\<rparr>)
     (List.product (fromkeys (base_cases config)) (kv_cache_variants config))"
  unfolding all_cases_def product_concat_map map_concat list.map_comp comp_def
  by (intro arg_cong [of _ _ concat] map_cong refl) (auto split: prod.split)

lemma distinct_all_cases:
  assumes "config_wf config"
  shows "distinct (all_cases config)"
proof -
  have inj: "inj_on (\<lambda>(c, k, v). c\<lparr>kv_key_type := k, kv_value_type := v\<rparr>)
      (set (base_cases config) \<times> set (kv_cache_variants config))"
  proof (rule inj_onI, clarify)
    fix c k v c' k' v'
    assume mem: "c \<in> set (base_cases config)" "c' \<in> set (base_cases config)"
      and eq: "c\<lparr>kv_key_type := k, kv_value_type := v\<rparr> = c'\<lparr>kv_key_type := k', kv_value_type := v'\<rparr>"
    from assms mem have "kv_key_type c = kv_key_type c'" "kv_value_type c = kv_value_type c'"
      by (auto simp: config_wf_def list_all_iff base_ok_def)
    with eq show "c = c' \<and> (k, v) = (k', v')" by (cases c; cases c') simp
  qed
  moreover have "distinct (kv_cache_variants config)" using assms by (simp add: config_wf_def)
  ultimately show ?thesis
    by (simp add: all_cases_eq distinct_map distinct_product)
qed

definition case_ok :: "bench_case \<Rightarrow> bool" where
  "case_ok c \<longleftrightarrow> list_all (\<lambda>i. 0 < i) (dims c) \<and> kv_key_type c \<in> set SUPPORTED_KV_CACHE_TYPES \<and>
     kv_value_type c \<in> set SUPPORTED_KV_CACHE_TYPES"

lemma all_cases_ok: "config_wf config \<Longrightarrow> c \<in> set (all_cases config) \<Longrightarrow> case_ok c"
  by (auto simp: all_cases_def config_wf_def case_ok_def list_all_iff base_ok_def dims_def)

lemma cases_of_Inr:
  "cases_of config = Inr cs \<longleftrightarrow>
     cs = all_cases config \<and> (\<forall>c \<in> set cs. prompt_tokens c + generated_tokens c \<le> context_size c)"
  by (force simp: cases_of_def Let_def list_ex_iff not_less)

subsection \<open>Identifiers\<close>

lemma str_int_digits: "0 \<le> i \<Longrightarrow> \<forall>c \<in> set (str_int i). is_digit c"
  using str_nat_digits by (simp add: str_int_def)

lemma digits_without: "\<forall>c \<in> set s. is_digit c \<Longrightarrow> \<not> is_digit x \<Longrightarrow> x \<notin> set s"
  by auto

lemma kv_types_clean:
  "k \<in> set SUPPORTED_KV_CACHE_TYPES \<Longrightarrow> CHR ''-'' \<notin> set k \<and> CHR '':'' \<notin> set k"
  by (auto simp: SUPPORTED_KV_CACHE_TYPES_def)

text \<open>The parts of a case identifier, between its dashes.\<close>

lemma split_case_id:
  assumes "case_ok c"
  shows "split_on (CHR ''-'') (case_id c) =
    [''p'' @ str_int (prompt_tokens c), ''n'' @ str_int (generated_tokens c), ''t'' @ str_int (threads c),
     ''b'' @ str_int (batch_size c), ''ub'' @ str_int (ubatch_size c), ''c'' @ str_int (context_size c),
     ''kv'', kv_key_type c, kv_value_type c]"
proof -
  from assms have pos: "0 \<le> prompt_tokens c" "0 \<le> generated_tokens c" "0 \<le> threads c" "0 \<le> batch_size c"
    "0 \<le> ubatch_size c" "0 \<le> context_size c"
    by (auto simp: case_ok_def dims_def)
  have nodash: "CHR ''-'' \<notin> set (str_int i)" if "0 \<le> i" for i
    using str_int_digits [OF that] by (rule digits_without) (simp add: is_digit_def)
  have kv: "CHR ''-'' \<notin> set (kv_key_type c)" "CHR ''-'' \<notin> set (kv_value_type c)"
    using assms kv_types_clean by (auto simp: case_ok_def)
  let ?ws = "[''p'' @ str_int (prompt_tokens c), ''n'' @ str_int (generated_tokens c), ''t'' @ str_int (threads c),
     ''b'' @ str_int (batch_size c), ''ub'' @ str_int (ubatch_size c), ''c'' @ str_int (context_size c),
     ''kv'', kv_key_type c, kv_value_type c]"
  have "case_id c = join_with (CHR ''-'') ?ws" by (simp add: case_id_def)
  moreover have "\<forall>w \<in> set ?ws. CHR ''-'' \<notin> set w" using nodash pos kv by simp
  ultimately show ?thesis by (simp only: split_join list.distinct not_False_eq_True)
qed

lemma case_id_inj:
  assumes "case_ok c" "case_ok c'" "case_id c = case_id c'"
  shows "c = c'"
proof -
  have "split_on (CHR ''-'') (case_id c) = split_on (CHR ''-'') (case_id c')" using assms(3) by simp
  then show ?thesis
    unfolding split_case_id [OF assms(1)] split_case_id [OF assms(2)] by (cases c; cases c') simp
qed

lemma case_id_no_colon:
  assumes "case_ok c"
  shows "CHR '':'' \<notin> set (case_id c)"
proof -
  have "CHR '':'' \<notin> set (str_int i)" if "0 \<le> i" for i
    using str_int_digits [OF that] by (rule digits_without) (simp add: is_digit_def)
  then show ?thesis
    using assms kv_types_clean by (auto simp: case_id_def case_ok_def dims_def)
qed

text \<open>
  The identifier of an invocation determines its case, phase, repetition and the identifier of its
  model, colons in the latter included: it is read from the right.
\<close>

lemma id_of_inj:
  assumes "id_of (m, c, w, r) = id_of (m', c', w', r')" "case_ok c" "case_ok c'" "0 < r" "0 < r'"
  shows "logical_id m = logical_id m' \<and> c = c' \<and> w = w' \<and> r = r'"
proof -
  have colon: "CHR '':'' \<notin> set (rev (str_int i))" if "0 < i" for i :: int
    using str_int_digits [of i] that digits_without [of "str_int i" "CHR '':''"]
    by (simp add: is_digit_def)
  have phase: "CHR '':'' \<notin> set (rev (phase_of b))" for b by (simp add: phase_of_def)
  have rev: "rev (id_of (m, c, w, r)) = rev (str_int r) @ CHR '':'' # rev (phase_of w) @ CHR '':'' #
      rev (case_id c) @ CHR '':'' # rev (logical_id m)" for m c w r
    by (simp add: id_of_def)
  from assms(1) have "rev (id_of (m, c, w, r)) = rev (id_of (m', c', w', r'))" by simp
  then have eq: "rev (str_int r) @ CHR '':'' # rev (phase_of w) @ CHR '':'' # rev (case_id c) @ CHR '':'' #
      rev (logical_id m) = rev (str_int r') @ CHR '':'' # rev (phase_of w') @ CHR '':'' # rev (case_id c') @
      CHR '':'' # rev (logical_id m')" by (simp only: rev)
  note s1 = same_split [OF eq colon [OF assms(4)] colon [OF assms(5)]]
  note s2 = same_split [OF conjunct2 [OF s1] phase phase]
  note s3 = same_split [OF conjunct2 [OF s2]]
  have "rev (case_id c) = rev (case_id c') \<and> rev (logical_id m) = rev (logical_id m')"
    using s3 case_id_no_colon [OF assms(2)] case_id_no_colon [OF assms(3)] by simp
  then have "c = c'" "logical_id m = logical_id m'" using case_id_inj [OF assms(2,3)] by auto
  moreover have "w = w'" using s2 by (auto simp: phase_of_def split: if_splits)
  moreover have "r = r'" using s1 by simp
  ultimately show ?thesis by simp
qed

subsection \<open>Invocations\<close>

definition phases_of :: "bench_config \<Rightarrow> (bool \<times> int) list" where
  "phases_of config = map (Pair True) [1..warmup_runs config] @ map (Pair False) [1..repetitions config]"

lemma plan_specs_eq: "plan_specs config cs = List.product (models config) (List.product cs (phases_of config))"
  by (simp add: plan_specs_def phases_of_def product_concat_map map_concat comp_def)

lemma distinct_phases: "distinct (phases_of config)"
  by (auto simp: phases_of_def distinct_map inj_on_def)

lemma phases_positive: "(w, r) \<in> set (phases_of config) \<Longrightarrow> 0 < r"
  by (auto simp: phases_of_def)

lemma invocations_Inr:
  "invocations config = Inr plan \<longleftrightarrow>
     (\<forall>c \<in> set (all_cases config). prompt_tokens c + generated_tokens c \<le> context_size c) \<and>
     plan = map (\<lambda>(n, m, c, w, r). \<lparr>number = n, total_invocations = length (plan_specs config (all_cases config)),
       inv_case = c, inv_case_id = case_id c, invocation_id = id_of (m, c, w, r), warmup = w, repetition = r,
       inv_model = m\<rparr>) (enumerate1 (plan_specs config (all_cases config)))"
  by (auto simp: invocations_def cases_of_Inr Let_def)

lemma plan_ids:
  assumes "invocations config = Inr plan"
  shows "map invocation_id plan = map id_of (plan_specs config (all_cases config))"
proof -
  have "map invocation_id plan = map (\<lambda>p. id_of (snd p)) (enumerate1 (plan_specs config (all_cases config)))"
    using assms by (simp add: invocations_Inr comp_def case_prod_beta)
  then show ?thesis by (simp only: map_enumerate1)
qed

lemma plan_ids_distinct:
  assumes "config_wf config" "invocations config = Inr plan"
  shows "distinct (map invocation_id plan)"
proof -
  let ?specs = "plan_specs config (all_cases config)"
  have dm: "distinct (models config)" using assms(1) by (auto simp: config_wf_def distinct_map)
  have "distinct ?specs"
    by (simp add: plan_specs_eq distinct_product dm distinct_all_cases [OF assms(1)] distinct_phases)
  moreover have "inj_on id_of (set ?specs)"
  proof (rule inj_onI)
    fix x y assume mem: "x \<in> set ?specs" "y \<in> set ?specs" and eq: "id_of x = id_of y"
    obtain m c w r m' c' w' r' where xy: "x = (m, c, w, r)" "y = (m', c', w', r')" by (metis prod.exhaust)
    from mem xy have in': "m \<in> set (models config)" "c \<in> set (all_cases config)" "(w, r) \<in> set (phases_of config)"
      "m' \<in> set (models config)" "c' \<in> set (all_cases config)" "(w', r') \<in> set (phases_of config)"
      by (auto simp: plan_specs_eq)
    have "logical_id m = logical_id m' \<and> c = c' \<and> w = w' \<and> r = r'"
      using id_of_inj [of m c w r m' c' w' r'] eq xy in' all_cases_ok [OF assms(1)] phases_positive by blast
    moreover have "m = m'" if "logical_id m = logical_id m'"
      using that in'(1,4) assms(1) by (auto simp: config_wf_def distinct_map inj_on_def)
    ultimately show "x = y" using xy by simp
  qed
  ultimately show ?thesis by (simp add: plan_ids [OF assms(2)] distinct_map)
qed

text \<open>C25: The plan of an accepted configuration has one invocation for every model, case and warm-up
  or measured repetition, numbered from 1, and no two share an identifier: so a record can be
  traced to exactly one invocation, which resuming relies on. Every case fits its context, so the
  depth on the command line is never negative.
\<close>

theorem plan_complete_and_unique:
  assumes "load_config yaml resolve smoke_path fs p = Inr config" and "invocations config = Inr plan"
  shows "distinct (map invocation_id plan) \<and> map number plan = [1..<length plan + 1] \<and>
    int (length plan) = int (length (models config)) * int (length (all_cases config)) *
      (warmup_runs config + repetitions config) \<and>
    (\<forall>i \<in> set plan. inv_case i \<in> set (all_cases config) \<and> inv_model i \<in> set (models config) \<and>
       0 \<le> context_size (inv_case i) - prompt_tokens (inv_case i) - generated_tokens (inv_case i))"
proof -
  let ?specs = "plan_specs config (all_cases config)"
  have wf: "config_wf config" by (rule loaded_wf [OF assms(1)])
  note plan = conjunct2 [OF assms(2) [unfolded invocations_Inr]]
  have nums: "map number plan = map fst (enumerate1 ?specs)"
    unfolding plan by (simp add: comp_def case_prod_beta)
  have len: "length plan = length ?specs" unfolding plan by simp
  have "int (length (phases_of config)) = warmup_runs config + repetitions config"
    using wf by (simp add: phases_of_def config_wf_def)
  then have cnt: "int (length plan) = int (length (models config)) * int (length (all_cases config)) *
      (warmup_runs config + repetitions config)"
    by (simp add: len plan_specs_eq mult.assoc)
  have each: "inv_case i \<in> set (all_cases config) \<and> inv_model i \<in> set (models config)" if "i \<in> set plan" for i
    using that unfolding plan by (auto dest!: set_enumerate1D simp: plan_specs_eq)
  have fits: "\<forall>c \<in> set (all_cases config). prompt_tokens c + generated_tokens c \<le> context_size c"
    using assms(2) by (simp add: invocations_Inr)
  have "map number plan = [1..<length plan + 1]" unfolding nums len by simp
  with plan_ids_distinct [OF wf assms(2)] cnt each fits show ?thesis by fastforce
qed

lemma sample_invocations: "\<exists>plan. invocations sample_config = Inr plan"
proof -
  have "explicit_cases sample_config = None" "prompt_tokens_axis sample_config = [8]"
    "generated_tokens_axis sample_config = [4]" "context_sizes sample_config = [16]"
    by (simp_all add: sample_config_def config_of_def sample_raw_def ints_of_def)
  then have "prompt_tokens c = 8 \<and> generated_tokens c = 4 \<and> context_size c = 16"
    if "c \<in> set (all_cases sample_config)" for c
    using that by (auto simp: all_cases_def base_cases_def)
  then show ?thesis by (auto simp: invocations_Inr)
qed

lemma plan_complete_and_unique_witness:
  "\<exists>plan. invocations sample_config = Inr plan \<and> distinct (map invocation_id plan)"
  using sample_invocations plan_complete_and_unique [OF sample_loaded] by blast

end
