(* ===== verification/Bench_Parse.thy ===== *)
theory Bench_Parse
  imports Py_Process "HOL-Library.AList"
begin

text \<open>
  \<open>benchmarks/run_llama_bench.py\<close>: the readers of a program's output (\<open>parse_llama_bench\<close>,
  \<open>parse_kv_cache_bytes\<close>, \<open>parse_time_verbose\<close>), with what they use of Python: \<open>str.splitlines\<close>,
  \<open>float\<close> of a text, and regular expressions, which are written out as scanners.

  Digits are the ASCII digits: \<open>\d\<close>, \<open>int\<close> and \<open>float\<close> of Python also accept the decimal digits of
  other scripts. Python's limit of 4300 digits for \<open>int\<close> is not modelled.
\<close>

section \<open>Lines\<close>

text \<open>\<open>s.splitlines()\<close>: the line ends of \<open>str\<close> by their UTF-8 bytes, the pair \<open>CR LF\<close> first.\<close>

definition LINE_ENDS :: "string list" where
  "LINE_ENDS = [CHR 0x0D, CHR 0x0A] # map (\<lambda>c. [c])
       [CHR 0x0A, CHR 0x0B, CHR 0x0C, CHR 0x0D, CHR 0x1C, CHR 0x1D, CHR 0x1E] @
     [[CHR 0xC2, CHR 0x85], [CHR 0xE2, CHR 0x80, CHR 0xA8], [CHR 0xE2, CHR 0x80, CHR 0xA9]]"

text \<open>\<open>line\<close> is the part of the current line that has been read.\<close>

fun lines_from :: "string \<Rightarrow> string \<Rightarrow> string list" where
  "lines_from line [] = (if line = [] then [] else [line])"
| "lines_from line (c # cs) = (case find (\<lambda>e. prefix e (c # cs)) LINE_ENDS of
       None \<Rightarrow> lines_from (line @ [c]) cs
     | Some e \<Rightarrow> line # lines_from [] (drop (length e - 1) cs))"

definition splitlines :: "string \<Rightarrow> string list" where
  "splitlines s = lines_from [] s"

section \<open>Floats\<close>

text \<open>A rational number as the nearest float; beyond the largest float it is infinite.\<close>

definition float_of_rat :: "rat \<Rightarrow> pyfloat" where
  "float_of_rat x = (case fl_checked x of Some y \<Rightarrow> Fin y | None \<Rightarrow> Inf (x < 0))"

text \<open>The text up to the first \<open>c\<close>, and the text after it if there is one.\<close>

fun cut_at :: "char \<Rightarrow> string \<Rightarrow> string \<times> string option" where
  "cut_at c [] = ([], None)"
| "cut_at c (x # xs) = (if x = c then ([], Some xs) else (case cut_at c xs of (a, b) \<Rightarrow> (x # a, b)))"

definition sign_of :: "string \<Rightarrow> bool \<times> string" where
  "sign_of s = (case s of [] \<Rightarrow> (False, [])
     | c # cs \<Rightarrow> if c = CHR ''-'' then (True, cs) else if c = CHR ''+'' then (False, cs) else (False, s))"

text \<open>The exponent of ten, 0 when there is none.\<close>

definition exponent_of :: "string option \<Rightarrow> int option" where
  "exponent_of e = (case e of None \<Rightarrow> Some 0
     | Some t \<Rightarrow> (case sign_of t of (neg, u) \<Rightarrow>
         map_option (\<lambda>ds. if neg then - int (digits_val ds) else int (digits_val ds)) (digit_groups False u)))"

text \<open>The digits before and after the point: one of the two parts may be empty.\<close>

definition mantissa_of :: "string \<Rightarrow> (string \<times> string) option" where
  "mantissa_of m = (case cut_at (CHR ''.'') m of
       (a, None) \<Rightarrow> map_option (\<lambda>ds. (ds, [])) (digit_groups False a)
     | (a, Some b) \<Rightarrow>
        if a = [] then map_option (\<lambda>ds. ([], ds)) (digit_groups False b)
        else (case digit_groups False a of None \<Rightarrow> None
          | Some ds \<Rightarrow> if b = [] then Some (ds, []) else map_option (Pair ds) (digit_groups False b)))"

definition ten_power :: "int \<Rightarrow> rat" where
  "ten_power e = (if 0 \<le> e then 10 ^ nat e else 1 / 10 ^ nat (- e))"

text \<open>\<open>float(s)\<close>; \<open>None\<close> is the \<open>ValueError\<close>.\<close>

definition parse_float :: "string \<Rightarrow> pyfloat option" where
  "parse_float s = (case sign_of (map lower_char (strip s)) of (neg, u) \<Rightarrow>
     if u = ''inf'' \<or> u = ''infinity'' then Some (Inf neg)
     else if u = ''nan'' then Some NaN
     else (case cut_at (CHR ''e'') u of (m, e) \<Rightarrow>
       (case (mantissa_of m, exponent_of e) of
          (Some (a, b), Some k) \<Rightarrow>
            let x = of_nat (digits_val (a @ b)) * ten_power (k - int (length b))
            in Some (float_of_rat (if neg then - x else x))
        | _ \<Rightarrow> None)))"

section \<open>Memory numbers\<close>

text \<open>The longest prefix without white space (\<open>[^\s]+\<close>) and the rest.\<close>

fun word_rest :: "string \<Rightarrow> string \<times> string" where
  "word_rest [] = ([], [])"
| "word_rest (c # cs) = (if \<exists>w \<in> set WHITESPACE. prefix w (c # cs) then ([], c # cs)
     else (case word_rest cs of (a, b) \<Rightarrow> (c # a, b)))"

text \<open>The texts that start where \<open>^\<close> matches: the whole text, and what follows a newline.\<close>

fun after_newlines :: "string \<Rightarrow> string list" where
  "after_newlines [] = []"
| "after_newlines (c # cs) = (if c = CHR 0x0A then cs # after_newlines cs else after_newlines cs)"

definition RSS_LABEL :: string where
  "RSS_LABEL = ''Maximum resident set size (kbytes):''"

text \<open>
  A match of the expression at one place. The white space before the label and before the number is
  taken whole, since neither starts with white space; the number is the whole word, since \<open>\s*$\<close>
  must follow it.
\<close>

definition rss_at :: "string \<Rightarrow> string option" where
  "rss_at t = (let u = strip_front WHITESPACE t in
     if \<not> prefix RSS_LABEL u then None
     else (case word_rest (strip_front WHITESPACE (drop (length RSS_LABEL) u)) of (w, rest) \<Rightarrow>
       if w \<noteq> [] \<and> strip_front WHITESPACE (takeWhile ((\<noteq>) (CHR 0x0A)) rest) = [] then Some w else None))"

definition parse_time_verbose :: "string \<Rightarrow> int option" where
  "parse_time_verbose err = (case List.map_filter rss_at (err # after_newlines err) of
       [] \<Rightarrow> None
     | w # _ \<Rightarrow> (case parse_int w of None \<Rightarrow> None | Some n \<Rightarrow> if 0 \<le> n then Some n else None))"

definition KV_LABEL :: string where
  "KV_LABEL = ''KV buffer size''"

definition UNITS :: "(string \<times> int) list" where
  "UNITS = [(''KiB'', 1024), (''MiB'', 1024 ^ 2), (''GiB'', 1024 ^ 3)]"

text \<open>\<open>[0-9]+(?:\.[0-9]+)?\<close>: the longest match, and the rest.\<close>

definition number_rest :: "string \<Rightarrow> string \<times> string" where
  "number_rest t = (let a = takeWhile is_digit t; r = dropWhile is_digit t in
     case r of c # r' \<Rightarrow>
         if a \<noteq> [] \<and> c = CHR ''.'' \<and> takeWhile is_digit r' \<noteq> []
         then (a @ c # takeWhile is_digit r', dropWhile is_digit r') else (a, r)
       | [] \<Rightarrow> (a, r))"

definition kv_at :: "string \<Rightarrow> (string \<times> int) option" where
  "kv_at t = (if \<not> prefix KV_LABEL t then None
     else (case strip_front WHITESPACE (drop (length KV_LABEL) t) of
         [] \<Rightarrow> None
       | c # t1 \<Rightarrow> if c \<noteq> CHR ''='' then None
           else (case number_rest (strip_front WHITESPACE t1) of (num, r) \<Rightarrow>
             if num = [] then None
             else (case find (\<lambda>(u, _). prefix u (strip_front WHITESPACE r)) UNITS of
                 None \<Rightarrow> None
               | Some (_, k) \<Rightarrow> Some (num, k)))))"

text \<open>\<open>round(float(number) * k)\<close>; \<open>None\<close> stands for the exceptions that skip the line.\<close>

definition rounded_bytes :: "string \<times> int \<Rightarrow> int option" where
  "rounded_bytes nk = (case parse_float (fst nk) of
       Some (Fin x) \<Rightarrow> map_option round_half_even (fl_checked (x * of_int (snd nk)))
     | _ \<Rightarrow> None)"

text \<open>
  \<open>re.findall\<close>: the matches at all places in order. No two of them overlap, since the label cannot
  start inside a match.
\<close>

definition parse_kv_cache_bytes :: "string \<Rightarrow> int option" where
  "parse_kv_cache_bytes s =
     (let ns = List.map_filter rounded_bytes (List.map_filter kv_at (suffixes s)) in
      if ns = [] then None else Some (sum_list ns))"

section \<open>The result table\<close>

definition strip_bars :: "string \<Rightarrow> string" where
  "strip_bars s = rev (dropWhile ((=) (CHR 0x7C)) (rev (dropWhile ((=) (CHR 0x7C)) s)))"

definition cells_of :: "string \<Rightarrow> string list" where
  "cells_of line = map strip (split_on (CHR 0x7C) (strip_bars (strip line)))"

text \<open>\<open>re.fullmatch(":?-+:?", cell)\<close>\<close>

definition is_rule :: "string \<Rightarrow> bool" where
  "is_rule cell = (let s = (case cell of c # cs \<Rightarrow> if c = CHR '':'' then cs else cell | [] \<Rightarrow> []);
       r = dropWhile ((=) (CHR ''-'')) s in r \<noteq> s \<and> (r = [] \<or> r = '':''))"

text \<open>A row is a dictionary: of two equal headers the later cell counts.\<close>

type_synonym table_row = "string \<rightharpoonup> string"

fun table_from :: "string list option \<Rightarrow> string list \<Rightarrow> table_row list" where
  "table_from headers [] = []"
| "table_from headers (l # ls) =
     (if \<not> prefix [CHR 0x7C] (strip l) then table_from headers ls
      else (let cells = cells_of l in
        case headers of
          None \<Rightarrow> table_from (if ''model'' \<in> set cells \<and> ''test'' \<in> set cells then Some cells else None) ls
        | Some hs \<Rightarrow>
            if length cells = length hs \<and> \<not> list_all is_rule cells
            then map_of (rev (zip hs cells)) # table_from headers ls
            else table_from headers ls))"

text \<open>\<open>row.get(k, "")\<close>\<close>

definition cell :: "table_row \<Rightarrow> string \<Rightarrow> string" where
  "cell row k = (case row k of Some v \<Rightarrow> v | None \<Rightarrow> [])"

text \<open>\<open>re.fullmatch("(pp|tg)(\d+)(?: @ d\d+)?", test)\<close>: whether it is \<open>pp\<close>, and the number\<close>

definition match_test :: "string \<Rightarrow> (bool \<times> int) option" where
  "match_test t = (let pp = prefix ''pp'' t; ds = takeWhile is_digit (drop 2 t); r = dropWhile is_digit (drop 2 t) in
     if (pp \<or> prefix ''tg'' t) \<and> ds \<noteq> [] \<and>
       (r = [] \<or> prefix '' @ d'' r \<and> drop 4 r \<noteq> [] \<and> list_all is_digit (drop 4 r))
     then Some (pp, int (digits_val ds)) else None)"

record bench_row =
  row_model :: string
  row_size :: "string option"
  row_backend :: string
  row_threads :: int
  row_prompt :: "int option"
  row_generated :: "int option"
  row_pp_rate :: "pyfloat option"
  row_tg_rate :: "pyfloat option"
  row_tests :: string

type_synonym row_key = "string \<times> string \<times> string \<times> string"

definition key_of :: "table_row \<Rightarrow> row_key" where
  "key_of row = (cell row ''model'', cell row ''backend'', cell row ''threads'', cell row ''size'')"

definition fresh_row :: "row_key \<Rightarrow> int \<Rightarrow> bench_row" where
  "fresh_row k t = (case k of (m, b, _, sz) \<Rightarrow>
     \<lparr>row_model = m, row_size = (if sz = [] then None else Some sz), row_backend = b, row_threads = t,
      row_prompt = None, row_generated = None, row_pp_rate = None, row_tg_rate = None, row_tests = []\<rparr>)"

definition note_test :: "bool \<Rightarrow> int \<Rightarrow> pyfloat \<Rightarrow> string \<Rightarrow> bench_row \<Rightarrow> bench_row" where
  "note_test pp n rate test item =
     (let item' = (if pp then item\<lparr>row_prompt := Some n, row_pp_rate := Some rate\<rparr>
                   else item\<lparr>row_generated := Some n, row_tg_rate := Some rate\<rparr>)
      in item'\<lparr>row_tests := (if row_tests item = [] then test else row_tests item @ CHR ''+'' # test)\<rparr>)"

text \<open>\<open>s.split("\<plusminus>", 1)[0]\<close>: the sign is the bytes \<open>C2 B1\<close>\<close>

fun before_spread :: "string \<Rightarrow> string" where
  "before_spread [] = []"
| "before_spread (c # cs) = (if prefix [CHR 0xC2, CHR 0xB1] (c # cs) then [] else c # before_spread cs)"

text \<open>The loop over the table. \<open>setdefault\<close> builds its default in every round, so the threads are read in every round.\<close>

fun combine :: "table_row list \<Rightarrow> (row_key \<times> bench_row) list \<Rightarrow> (row_key \<times> bench_row) list res" where
  "combine [] d = Inr d"
| "combine (row # rows) d = (case match_test (cell row ''test'') of
       None \<Rightarrow> combine rows d
     | Some (pp, n) \<Rightarrow> (case parse_int (cell row ''threads'') of
           None \<Rightarrow> Inl (ValueError ''invalid literal for int() with base 10'')
         | Some t \<Rightarrow> (let k = key_of row;
               item = (case map_of d k of Some it \<Rightarrow> it | None \<Rightarrow> fresh_row k t) in
             case parse_float (strip (before_spread (cell row ''t/s''))) of
               None \<Rightarrow> Inl (ValueError (''invalid throughput in test '' @ cell row ''test''))
             | Some rate \<Rightarrow> combine rows (AList.update k (note_test pp n rate (cell row ''test'') item) d))))"

definition parse_llama_bench :: "string \<Rightarrow> bench_row list res" where
  "parse_llama_bench out = (let table = table_from None (splitlines out) in
     if table = [] then Inl (ValueError ''no llama-bench result table found'')
     else rbind (combine table []) (\<lambda>d.
       if d = [] then Inl (ValueError ''result table contains no ppN or tgN tests'')
       else Inr (map snd d)))"

definition row_json :: "bench_row \<Rightarrow> json" where
  "row_json r = JObj
    [(''model_name'', JStr (row_model r)), (''model_size'', jopt JStr (row_size r)),
     (''backend'', JStr (row_backend r)), (''thread_count'', JInt (row_threads r)),
     (''prompt_tokens'', jopt JInt (row_prompt r)), (''generated_tokens'', jopt JInt (row_generated r)),
     (''prompt_tokens_per_second'', jopt JFloat (row_pp_rate r)),
     (''generation_tokens_per_second'', jopt JFloat (row_tg_rate r)),
     (''test_identifier'', JStr (row_tests r))]"


section \<open>Plain text\<close>

text \<open>The bytes of printable ASCII and of the sign \<open>\<plusminus>\<close>: of white space and line ends only the space is among them.\<close>

definition plain :: "char \<Rightarrow> bool" where
  "plain c \<longleftrightarrow> 0x20 \<le> ord c \<and> ord c < 0x7F \<or> c = CHR 0xC2 \<or> c = CHR 0xB1"

lemma plain_whitespace: "w \<in> set WHITESPACE \<Longrightarrow> list_all plain w \<Longrightarrow> w = '' ''"
proof -
  have "list_all (\<lambda>w. list_all plain w \<longrightarrow> w = '' '') WHITESPACE" by code_simp
  then show "w \<in> set WHITESPACE \<Longrightarrow> list_all plain w \<Longrightarrow> w = '' ''" by (simp add: list_all_iff)
qed

lemma space_whitespace: "'' '' \<in> set WHITESPACE"
  by code_simp

lemma strip_front_plain:
  assumes "\<And>w. w \<in> set ws \<Longrightarrow> list_all plain w \<Longrightarrow> w = '' ''" "'' '' \<in> set ws"
  shows "list_all plain s \<Longrightarrow> strip_front ws s = dropWhile ((=) CHR '' '') s"
proof (induction s)
  case (Cons c cs)
  have only: "w = '' ''" if "w \<in> set ws" "prefix w (c # cs)" for w
    using assms(1) [OF that(1)] that(2) Cons.prems by (metis list_all_append prefixE)
  show ?case
  proof (cases "c = CHR '' ''")
    case True
    have "find (\<lambda>w. prefix w (c # cs)) ws \<noteq> None"
      using assms(2) True by (auto simp: find_None_iff)
    then obtain w where w: "find (\<lambda>w. prefix w (c # cs)) ws = Some w" by blast
    then have "w \<in> set ws" "prefix w (c # cs)" by (metis find_Some_iff nth_mem)+
    then have "w = '' ''" by (rule only)
    with w True Cons show ?thesis by simp
  next
    case False
    then have "find (\<lambda>w. prefix w (c # cs)) ws = None"
      using only by (fastforce simp: find_None_iff)
    with False show ?thesis by auto
  qed
qed simp

lemma strip_plain:
  assumes "list_all plain s"
  shows "strip s = rev (dropWhile ((=) CHR '' '') (rev (dropWhile ((=) CHR '' '') s)))"
proof -
  have "list_all plain (rev (dropWhile ((=) CHR '' '') s))"
    using assms by (auto simp: list_all_iff dest: set_dropWhileD)
  moreover have "\<And>w. w \<in> set (map rev WHITESPACE) \<Longrightarrow> list_all plain w \<Longrightarrow> w = '' ''"
    using plain_whitespace by (fastforce simp: list_all_iff)
  moreover have "'' '' \<in> set (map rev WHITESPACE)" using space_whitespace by (force simp: image_iff)
  ultimately show ?thesis
    using assms strip_front_plain [of "map rev WHITESPACE"] strip_front_plain [OF plain_whitespace space_whitespace]
    by (simp only: strip_def)
qed

text \<open>A text that neither starts nor ends with a space.\<close>

definition trimmed :: "string \<Rightarrow> bool" where
  "trimmed s \<longleftrightarrow> s = [] \<or> hd s \<noteq> CHR '' '' \<and> last s \<noteq> CHR '' ''"

lemma strip_padded:
  assumes "list_all plain s" "trimmed s"
  shows "strip s = s" and "strip (s @ '' '') = s" and "strip (CHR '' '' # s @ '' '') = s"
proof -
  have sp: "plain CHR '' ''" by (simp add: plain_def)
  have front: "dropWhile ((=) CHR '' '') (s @ t) = s @ t" if "s \<noteq> []" for t
    using assms(2) that by (cases s) (auto simp: trimmed_def)
  have ends: "dropWhile ((=) CHR '' '') (rev s) = rev s"
    using assms(2) by (cases s rule: rev_cases) (auto simp: trimmed_def)
  show "strip s = s" and "strip (s @ '' '') = s" and "strip (CHR '' '' # s @ '' '') = s"
    using assms(1) sp front [of "[]"] front [of "'' ''"] ends by (cases "s = []"; simp add: strip_plain)+
qed

lemma no_line_end:
  assumes "plain c" "e \<in> set LINE_ENDS" "cs = [] \<or> hd cs = CHR 0x0A \<or> plain (hd cs)"
  shows "\<not> prefix e (c # cs)"
  using assms by (cases cs) (auto simp: LINE_ENDS_def plain_def)

lemma lines_from_plain:
  "list_all plain l \<Longrightarrow> lines_from cur (l @ CHR 0x0A # rest) = (cur @ l) # lines_from [] rest"
proof (induction l arbitrary: cur)
  case Nil
  have "find (\<lambda>e. prefix e (CHR 0x0A # rest)) LINE_ENDS = Some [CHR 0x0A]" by (simp add: LINE_ENDS_def)
  then show ?case by simp
next
  case (Cons c cs)
  have "hd (cs @ CHR 0x0A # rest) = CHR 0x0A \<or> plain (hd (cs @ CHR 0x0A # rest))"
    using Cons.prems by (cases cs) auto
  then have "find (\<lambda>e. prefix e (c # cs @ CHR 0x0A # rest)) LINE_ENDS = None"
    using no_line_end [of c _ "cs @ CHR 0x0A # rest"] Cons.prems by (auto simp: find_None_iff)
  with Cons show ?case by simp
qed

definition print_lines :: "string list \<Rightarrow> string" where
  "print_lines ls = concat (map (\<lambda>l. l @ [CHR 0x0A]) ls)"

lemma splitlines_print: "\<forall>l \<in> set ls. list_all plain l \<Longrightarrow> splitlines (print_lines ls) = ls"
  by (induction ls) (simp_all add: splitlines_def print_lines_def lines_from_plain)


section \<open>Printed tables\<close>

text \<open>A line of a Markdown table, as \<open>llama-bench\<close> prints it.\<close>

definition table_line :: "string list \<Rightarrow> string" where
  "table_line cells = CHR 0x7C # concat (map (\<lambda>c. CHR '' '' # c @ '' |'') cells)"

definition cell_ok :: "string \<Rightarrow> bool" where
  "cell_ok c \<longleftrightarrow> list_all plain c \<and> trimmed c \<and> CHR 0x7C \<notin> set c"

lemma table_line_join:
  "cells \<noteq> [] \<Longrightarrow> table_line cells = CHR 0x7C # join_with (CHR 0x7C) (map (\<lambda>c. CHR '' '' # c @ '' '') cells) @ [CHR 0x7C]"
proof (induction cells rule: list_nonempty_induct)
  case (cons x xs)
  then show ?case by (cases xs) (auto simp: table_line_def)
qed (simp add: table_line_def)

lemma plain_table_line: "\<forall>c \<in> set cells. cell_ok c \<Longrightarrow> list_all plain (table_line cells)"
  by (auto simp: table_line_def cell_ok_def list_all_iff plain_def)

lemma table_line_ends:
  assumes "cells \<noteq> []"
  obtains b where "table_line cells = CHR 0x7C # b @ [CHR 0x7C]" "b \<noteq> []" "hd b = CHR '' ''" "last b = CHR '' ''"
    "b = join_with (CHR 0x7C) (map (\<lambda>c. CHR '' '' # c @ '' '') cells)"
proof
  let ?b = "join_with (CHR 0x7C) (map (\<lambda>c. CHR '' '' # c @ '' '') cells)"
  show "table_line cells = CHR 0x7C # ?b @ [CHR 0x7C]" by (rule table_line_join [OF assms])
  from assms have "?b \<noteq> [] \<and> hd ?b = CHR '' '' \<and> last ?b = CHR '' ''"
  proof (induction cells rule: list_nonempty_induct)
    case (cons x xs)
    then show ?case by (cases xs) auto
  qed simp
  then show "?b \<noteq> []" "hd ?b = CHR '' ''" "last ?b = CHR '' ''" by auto
qed simp

lemma strip_table_line:
  assumes "cells \<noteq> []" "\<forall>c \<in> set cells. cell_ok c"
  shows "strip (table_line cells) = table_line cells"
proof (rule strip_padded(1) [OF plain_table_line [OF assms(2)]])
  obtain b where "table_line cells = CHR 0x7C # b @ [CHR 0x7C]" using table_line_ends [OF assms(1)] .
  then show "trimmed (table_line cells)" by (simp add: trimmed_def)
qed

lemma cells_of_table_line:
  assumes "cells \<noteq> []" "\<forall>c \<in> set cells. cell_ok c"
  shows "cells_of (table_line cells) = cells"
proof -
  obtain b where b: "table_line cells = CHR 0x7C # b @ [CHR 0x7C]" "b \<noteq> []" "hd b = CHR '' ''" "last b = CHR '' ''"
    "b = join_with (CHR 0x7C) (map (\<lambda>c. CHR '' '' # c @ '' '') cells)" using table_line_ends [OF assms(1)] .
  obtain u where u: "b = CHR '' '' # u" using b(2,3) by (cases b) auto
  obtain w where w: "b = w @ '' ''" using b(2,4) by (metis append_butlast_last_id)
  have "dropWhile ((=) (CHR 0x7C)) (rev (b @ [CHR 0x7C])) = rev b" by (simp add: w)
  then have "strip_bars (table_line cells) = b" by (simp add: strip_bars_def b(1) u)
  moreover have "split_on (CHR 0x7C) b = map (\<lambda>c. CHR '' '' # c @ '' '') cells"
    unfolding b(5) using assms by (intro split_join) (auto simp: cell_ok_def)
  moreover have "map strip (map (\<lambda>c. CHR '' '' # c @ '' '') cells) = cells"
    using assms(2) by (simp add: cell_ok_def strip_padded(3) map_idI)
  ultimately show ?thesis by (simp add: cells_of_def strip_table_line [OF assms])
qed

lemma table_line_bar:
  "cells \<noteq> [] \<Longrightarrow> \<forall>c \<in> set cells. cell_ok c \<Longrightarrow> prefix [CHR 0x7C] (strip (table_line cells))"
  by (simp add: strip_table_line) (simp add: table_line_def)

text \<open>Lines that do not start with a bar are no part of the table.\<close>

definition no_table :: "string list \<Rightarrow> bool" where
  "no_table ls \<longleftrightarrow> (\<forall>l \<in> set ls. list_all plain l \<and> \<not> prefix [CHR 0x7C] (strip l))"

lemma table_from_skip: "no_table ls \<Longrightarrow> table_from h (ls @ rest) = table_from h rest"
  by (induction ls) (simp_all add: no_table_def)

lemma table_from_rows:
  assumes "hs \<noteq> []" "\<forall>cs \<in> set rows. length cs = length hs \<and> (\<forall>c \<in> set cs. cell_ok c) \<and> \<not> list_all is_rule cs"
  shows "table_from (Some hs) (map table_line rows @ rest) =
    map (\<lambda>cs. map_of (rev (zip hs cs))) rows @ table_from (Some hs) rest"
  using assms(2)
proof (induction rows)
  case (Cons cs rows)
  then have "cs \<noteq> []" using assms(1) by auto
  with Cons show ?case by (simp add: table_line_bar cells_of_table_line)
qed simp

lemma table_from_print:
  assumes pre: "no_table pre" and post: "no_table post"
    and hs: "hs \<noteq> []" "\<forall>c \<in> set hs. cell_ok c" "''model'' \<in> set hs" "''test'' \<in> set hs"
    and rows: "\<forall>cs \<in> set rows. length cs = length hs \<and> (\<forall>c \<in> set cs. cell_ok c) \<and> \<not> list_all is_rule cs"
  shows "table_from None (pre @ table_line hs # table_line (map (\<lambda>_. ''---:'') hs) # map table_line rows @ post) =
    map (\<lambda>cs. map_of (rev (zip hs cs))) rows"
proof -
  have rule: "cell_ok ''---:''" "is_rule ''---:''" by code_simp+
  have line: "\<forall>c \<in> set (map (\<lambda>_. ''---:'') hs). cell_ok c" using rule by simp
  have "table_from (Some hs) (post @ []) = []" unfolding table_from_skip [OF post] by simp
  with table_from_rows [OF hs(1) rows, of post]
  have "table_from (Some hs) (map table_line rows @ post) = map (\<lambda>cs. map_of (rev (zip hs cs))) rows" by simp
  then show ?thesis
    using hs line rule table_line_bar [OF hs(1,2)] cells_of_table_line [OF hs(1,2)]
      table_line_bar [OF _ line] cells_of_table_line [OF _ line]
    by (simp add: table_from_skip [OF pre] Let_def list_all_iff)
qed


section \<open>Printed numbers\<close>

lemma plain_digit: "is_digit c \<Longrightarrow> plain c"
  by (simp add: is_digit_def plain_def)

lemma plain_dot: "plain CHR ''.''"
  by code_simp

lemma digit_is_not:
  assumes "is_digit c"
  shows "c \<noteq> CHR '' ''" "c \<noteq> CHR 0x7C" "c \<noteq> CHR ''-''" "c \<noteq> CHR ''+''" "c \<noteq> CHR ''.''" "c \<noteq> CHR ''e''"
    "c \<noteq> CHR ''i''" "c \<noteq> CHR ''n''" "c \<noteq> CHR 0xC2" "lower_char c = c"
  using assms by (auto simp: is_digit_def lower_char_def)

lemma cut_at_clean: "c \<notin> set s \<Longrightarrow> cut_at c s = (s, None)"
  by (induction s) auto

lemma cut_at_append: "c \<notin> set s \<Longrightarrow> cut_at c (s @ c # t) = (s, Some t)"
  by (induction s) auto

text \<open>A decimal number with digits on both sides of the point is read as the nearest float.\<close>

lemma parse_float_decimal:
  assumes a: "a \<noteq> []" "\<forall>c \<in> set a. is_digit c" and b: "b \<noteq> []" "\<forall>c \<in> set b. is_digit c"
  shows "parse_float (a @ CHR ''.'' # b) = Some (float_of_rat (of_nat (digits_val (a @ b)) / 10 ^ length b))"
proof -
  let ?s = "a @ CHR ''.'' # b"
  obtain c cs where ac: "a = c # cs" using a(1) by (cases a) auto
  have c: "is_digit c" using a(2) ac by simp
  have "list_all plain ?s" using a b plain_digit plain_dot by (auto simp: list_all_iff)
  moreover have "trimmed ?s"
    using ac digit_is_not(1) [OF c] digit_is_not(1) [of "last b"] b by (auto simp: trimmed_def)
  ultimately have st: "strip ?s = ?s" by (rule strip_padded)
  have "map lower_char a = a" "map lower_char b = b"
    using a b digit_is_not(10) by (auto intro!: map_idI)
  moreover have "lower_char (CHR ''.'') = CHR ''.''" by code_simp
  ultimately have low: "map lower_char (strip ?s) = ?s" by (simp add: st)
  have sg: "sign_of ?s = (False, ?s)" using digit_is_not(3,4) [OF c] by (simp add: sign_of_def ac)
  have words: "?s \<noteq> ''inf'' \<and> ?s \<noteq> ''infinity'' \<and> ?s \<noteq> ''nan''"
    using digit_is_not(7,8) [OF c] by (simp add: ac)
  have "CHR ''e'' \<notin> set ?s" using a b digit_is_not(6) by auto
  then have e: "cut_at (CHR ''e'') ?s = (?s, None)" by (rule cut_at_clean)
  have "cut_at (CHR ''.'') ?s = (a, Some b)" using a digit_is_not(5) by (intro cut_at_append) auto
  moreover have "digit_groups False a = Some a" "digit_groups False b = Some b"
    using a b by (simp_all add: digit_groups_digits)
  ultimately have m: "mantissa_of ?s = Some (a, b)" using a(1) b(1) by (simp add: mantissa_of_def)
  have t: "ten_power (0 - int (length b)) = 1 / 10 ^ length b" using b(1) by (simp add: ten_power_def)
  from words show ?thesis
    unfolding parse_float_def low sg prod.case e m exponent_of_def option.case t Let_def if_False by simp
qed

definition two_digits :: "nat \<Rightarrow> string" where
  "two_digits n = [digit (n div 10), digit (n mod 10)]"

lemma two_digits: "n < 100 \<Longrightarrow> \<forall>c \<in> set (two_digits n). is_digit c"
  by (simp add: two_digits_def)

lemma digits_val_two: "n < 100 \<Longrightarrow> digits_val (s @ two_digits n) = 100 * digits_val s + n"
  using digits_val_snoc [of "s @ [digit (n div 10)]" "digit (n mod 10)"]
  by (simp add: two_digits_def)

text \<open>A number of hundredths with its two places, \<open>"%.2f"\<close>.\<close>

definition hundredths :: "nat \<Rightarrow> string" where
  "hundredths h = str_nat (h div 100) @ CHR ''.'' # two_digits (h mod 100)"

lemma parse_hundredths: "parse_float (hundredths h) = Some (float_of_rat (of_nat h / 100))"
proof -
  have "parse_float (hundredths h) = Some (float_of_rat (of_nat (digits_val (str_nat (h div 100) @ two_digits (h mod 100))) / 100))"
    unfolding hundredths_def
    using parse_float_decimal [of "str_nat (h div 100)" "two_digits (h mod 100)"] str_nat_digits two_digits
    by (simp add: two_digits_def)
  then show ?thesis by (simp add: digits_val_two del: of_nat_add of_nat_mult)
qed

lemma hundredths_ok: "list_all plain (hundredths h)" "trimmed (hundredths h)" "CHR 0x7C \<notin> set (hundredths h)"
  "CHR 0xC2 \<notin> set (hundredths h)"
proof -
  have all: "\<forall>c \<in> set (hundredths h). is_digit c \<or> c = CHR ''.''"
    using str_nat_digits [of "h div 100"] two_digits [of "h mod 100"] by (auto simp: hundredths_def)
  then show "list_all plain (hundredths h)" using plain_digit plain_dot by (auto simp: list_all_iff)
  have no: "c \<notin> set (hundredths h)" if "\<not> is_digit c" "c \<noteq> CHR ''.''" for c using all that by blast
  show "CHR 0x7C \<notin> set (hundredths h)" "CHR 0xC2 \<notin> set (hundredths h)" by (rule no; simp add: is_digit_def)+
  have "CHR '' '' \<notin> set (hundredths h)" by (rule no; simp add: is_digit_def)
  moreover have "hundredths h \<noteq> []" by (simp add: hundredths_def)
  ultimately have "hd (hundredths h) \<noteq> CHR '' ''" "last (hundredths h) \<noteq> CHR '' ''"
    by (metis hd_in_set, metis last_in_set)
  then show "trimmed (hundredths h)" by (simp add: trimmed_def)
qed

lemma before_spread_append: "CHR 0xC2 \<notin> set s \<Longrightarrow> before_spread (s @ CHR 0xC2 # CHR 0xB1 # t) = s"
  by (induction s) auto


section \<open>The table llama-bench prints\<close>

text \<open>One measurement: the columns the parser reads, the further columns, and the spread after the rate.\<close>

record measurement =
  ms_model :: string
  ms_size :: string
  ms_backend :: string
  ms_threads :: nat
  ms_further :: "string list"
  ms_prefill :: bool
  ms_tokens :: nat
  ms_depth :: "nat option"
  ms_rate :: nat \<comment> \<open>hundredths of a token per second\<close>
  ms_spread :: string

definition test_text :: "measurement \<Rightarrow> string" where
  "test_text e = (if ms_prefill e then ''pp'' else ''tg'') @ str_nat (ms_tokens e) @
     (case ms_depth e of None \<Rightarrow> [] | Some d \<Rightarrow> '' @ d'' @ str_nat d)"

definition rate_text :: "measurement \<Rightarrow> string" where
  "rate_text e = hundredths (ms_rate e) @ CHR '' '' # CHR 0xC2 # CHR 0xB1 # CHR '' '' # ms_spread e"

definition table_head :: "string list \<Rightarrow> string list" where
  "table_head further = [''model'', ''size''] @ further @ [''backend'', ''threads'', ''test'', ''t/s'']"

definition table_cells :: "measurement \<Rightarrow> string list" where
  "table_cells e = [ms_model e, ms_size e] @ ms_further e @
     [ms_backend e, str_nat (ms_threads e), test_text e, rate_text e]"

definition print_bench :: "string list \<Rightarrow> string list \<Rightarrow> string list \<Rightarrow> measurement list \<Rightarrow> string" where
  "print_bench lead trail further es = print_lines (lead @
     table_line (table_head further) # table_line (map (\<lambda>_. ''---:'') (table_head further)) #
     map table_line (map table_cells es) @ trail)"

text \<open>What can be printed: cells without bars, and further columns that are none of the parser's.\<close>

definition printable_table :: "string list \<Rightarrow> measurement list \<Rightarrow> bool" where
  "printable_table further es \<longleftrightarrow> list_all cell_ok further \<and>
     list_all (\<lambda>h. h \<notin> set [''model'', ''size'', ''backend'', ''threads'', ''test'', ''t/s'']) further \<and>
     list_all (\<lambda>e. length (ms_further e) = length further \<and> list_all cell_ok (ms_further e) \<and>
       cell_ok (ms_model e) \<and> cell_ok (ms_size e) \<and> cell_ok (ms_backend e) \<and> cell_ok (ms_spread e) \<and>
       ms_spread e \<noteq> []) es"

text \<open>
  What the reader should make of it: one row for every combination of model, backend, threads and
  size, in the order of their first measurement, with the last prefill and the last decode
  measurement of the combination.
\<close>

definition ms_key :: "measurement \<Rightarrow> row_key" where
  "ms_key e = (ms_model e, ms_backend e, str_nat (ms_threads e), ms_size e)"

definition last_of :: "bool \<Rightarrow> (measurement \<Rightarrow> 'a) \<Rightarrow> measurement list \<Rightarrow> 'a option" where
  "last_of pp f g = (let es = filter (\<lambda>e. ms_prefill e = pp) g in if es = [] then None else Some (f (last es)))"

definition ms_float :: "measurement \<Rightarrow> pyfloat" where
  "ms_float e = float_of_rat (of_nat (ms_rate e) / 100)"

definition group_row :: "measurement list \<Rightarrow> bench_row" where
  "group_row g = \<lparr>row_model = ms_model (hd g), row_size = (if ms_size (hd g) = [] then None else Some (ms_size (hd g))),
     row_backend = ms_backend (hd g), row_threads = int (ms_threads (hd g)),
     row_prompt = last_of True (\<lambda>e. int (ms_tokens e)) g, row_generated = last_of False (\<lambda>e. int (ms_tokens e)) g,
     row_pp_rate = last_of True ms_float g, row_tg_rate = last_of False ms_float g,
     row_tests = join_with (CHR ''+'') (map test_text g)\<rparr>"

definition group_of :: "row_key \<Rightarrow> measurement list \<Rightarrow> measurement list" where
  "group_of k es = filter (\<lambda>e. ms_key e = k) es"

definition in_first_order :: "'a list \<Rightarrow> 'a list" where
  "in_first_order xs = rev (remdups (rev xs))"

subsection \<open>Cells\<close>

lemma digits_cell: "\<forall>c \<in> set s. is_digit c \<Longrightarrow> cell_ok s"
  using plain_digit digit_is_not(1,2)
  by (cases "s = []") (auto simp: cell_ok_def list_all_iff trimmed_def dest: hd_in_set last_in_set)

lemma test_text_cell: "cell_ok (test_text e)"
proof -
  have p: "list_all plain ''pp''" "list_all plain ''tg''" "list_all plain '' @ d''" by code_simp+
  have d: "list_all plain (str_nat n)" "CHR 0x7C \<notin> set (str_nat n)" "last (str_nat n) \<noteq> CHR '' ''" for n
    using digits_cell [OF str_nat_digits [of n]] str_nat_not_Nil [of n] by (auto simp: cell_ok_def trimmed_def)
  show ?thesis using p d by (auto simp: test_text_def cell_ok_def trimmed_def split: option.splits)
qed

lemma rate_text_cell: "cell_ok (ms_spread e) \<Longrightarrow> ms_spread e \<noteq> [] \<Longrightarrow> cell_ok (rate_text e)"
proof -
  have p: "plain CHR '' ''" "plain (CHR 0xC2)" "plain (CHR 0xB1)" by (simp_all add: plain_def)
  have "hundredths (ms_rate e) \<noteq> []" by (simp add: hundredths_def)
  with p show "cell_ok (ms_spread e) \<Longrightarrow> ms_spread e \<noteq> [] \<Longrightarrow> cell_ok (rate_text e)"
    using hundredths_ok [of "ms_rate e"] by (auto simp: rate_text_def cell_ok_def trimmed_def)
qed

lemma match_test_text: "match_test (test_text e) = Some (ms_prefill e, int (ms_tokens e))"
proof -
  obtain r where r: "test_text e = (if ms_prefill e then ''pp'' else ''tg'') @ str_nat (ms_tokens e) @ r"
    and r': "r = [] \<or> (\<exists>d. r = '' @ d'' @ str_nat d)"
    by (cases "ms_depth e") (auto simp: test_text_def)
  have stop: "r = [] \<or> \<not> is_digit (hd r)" using r' by (auto simp: is_digit_def)
  have ds: "takeWhile is_digit (str_nat n @ r) = str_nat n" "dropWhile is_digit (str_nat n @ r) = r" for n
    using str_nat_digits [of n] stop by (cases r; simp add: takeWhile_append dropWhile_append)+
  have tail: "r = [] \<or> prefix '' @ d'' r \<and> drop 4 r \<noteq> [] \<and> list_all is_digit (drop 4 r)"
    using r' str_nat_digits by (auto simp: list_all_iff)
  from tail show ?thesis by (cases "ms_prefill e") (simp_all add: match_test_def r ds Let_def)
qed

lemma not_rule_cells: "\<not> list_all is_rule (table_cells e)"
proof -
  obtain c cs where c: "str_nat (ms_threads e) = c # cs" by (cases "str_nat (ms_threads e)") auto
  then have "is_digit c" using str_nat_digits [of "ms_threads e"] by simp
  then have "c \<noteq> CHR '':''" "c \<noteq> CHR ''-''" by (auto simp: is_digit_def)
  then have "\<not> is_rule (str_nat (ms_threads e))" by (simp add: is_rule_def c)
  then show ?thesis by (simp add: table_cells_def)
qed

lemma map_of_rev_zip_middle:
  assumes "length xs = length ys" "distinct [a, b, c, d, e, f]" "set xs \<inter> {a, b, c, d, e, f} = {}"
  shows "map_of (rev (zip ([a, b] @ xs @ [c, d, e, f]) ([u, v] @ ys @ [w, x, y, z]))) k =
    (if k = a then Some u else if k = b then Some v else if k = c then Some w else if k = d then Some x
     else if k = e then Some y else if k = f then Some z else map_of (rev (zip xs ys)) k)"
proof -
  have "map_of (rev (zip xs ys)) h = None" if "h \<in> {a, b, c, d, e, f}" for h
    using assms(1,3) that by (auto simp: map_of_eq_None_iff dest!: set_zip_leftD)
  then show ?thesis using assms(1,2) by (auto simp: map_add_def split: option.splits)
qed


definition row_of :: "string list \<Rightarrow> measurement \<Rightarrow> table_row" where
  "row_of further e = map_of (rev (zip (table_head further) (table_cells e)))"

lemma cell_row_of:
  assumes "printable_table further es" "e \<in> set es"
  shows "cell (row_of further e) ''model'' = ms_model e" "cell (row_of further e) ''size'' = ms_size e"
    "cell (row_of further e) ''backend'' = ms_backend e" "cell (row_of further e) ''threads'' = str_nat (ms_threads e)"
    "cell (row_of further e) ''test'' = test_text e" "cell (row_of further e) ''t/s'' = rate_text e"
proof -
  have "length further = length (ms_further e)"
    "set further \<inter> {''model'', ''size'', ''backend'', ''threads'', ''test'', ''t/s''} = {}"
    using assms by (auto simp: printable_table_def list_all_iff)
  note at = map_of_rev_zip_middle [OF this(1) _ this(2)]
  show "cell (row_of further e) ''model'' = ms_model e" "cell (row_of further e) ''size'' = ms_size e"
    "cell (row_of further e) ''backend'' = ms_backend e" "cell (row_of further e) ''threads'' = str_nat (ms_threads e)"
    "cell (row_of further e) ''test'' = test_text e" "cell (row_of further e) ''t/s'' = rate_text e"
    unfolding row_of_def table_head_def table_cells_def cell_def by (subst at; simp)+
qed

lemma printable_cells:
  assumes "printable_table further es"
  shows "\<forall>cs \<in> set (map table_cells es). length cs = length (table_head further) \<and>
      (\<forall>c \<in> set cs. cell_ok c) \<and> \<not> list_all is_rule cs"
    and "\<forall>c \<in> set (table_head further). cell_ok c"
proof -
  have "cell_ok ''model'' \<and> cell_ok ''size'' \<and> cell_ok ''backend'' \<and> cell_ok ''threads'' \<and> cell_ok ''test'' \<and>
    cell_ok ''t/s''" by code_simp
  then show "\<forall>c \<in> set (table_head further). cell_ok c"
    using assms by (auto simp: table_head_def printable_table_def list_all_iff)
  show "\<forall>cs \<in> set (map table_cells es). length cs = length (table_head further) \<and>
      (\<forall>c \<in> set cs. cell_ok c) \<and> \<not> list_all is_rule cs"
    using assms not_rule_cells test_text_cell rate_text_cell digits_cell [OF str_nat_digits]
    by (fastforce simp: printable_table_def list_all_iff table_cells_def table_head_def)
qed

text \<open>The table the parser builds from the printed text.\<close>

lemma table_of_print:
  assumes "printable_table further es" "no_table lead" "no_table trail"
  shows "table_from None (splitlines (print_bench lead trail further es)) = map (row_of further) es"
proof -
  note rows = printable_cells [OF assms(1)]
  let ?rule = "map (\<lambda>_. ''---:'') (table_head further)"
  let ?ls = "lead @ table_line (table_head further) # table_line ?rule # map table_line (map table_cells es) @ trail"
  have "cell_ok ''---:''" by code_simp
  then have rule: "\<forall>c \<in> set ?rule. cell_ok c" by simp
  have "\<forall>l \<in> set ?ls. list_all plain l"
    using assms(2,3) rows plain_table_line [OF rows(2)] plain_table_line [OF rule] plain_table_line
    by (auto simp: no_table_def)
  then have "splitlines (print_bench lead trail further es) = ?ls"
    unfolding print_bench_def by (rule splitlines_print)
  moreover have "table_head further \<noteq> []" "''model'' \<in> set (table_head further)" "''test'' \<in> set (table_head further)"
    by (simp_all add: table_head_def)
  ultimately show ?thesis
    using table_from_print [OF assms(2,3) _ rows(2) _ _ rows(1)] by (simp add: row_of_def comp_def)
qed

subsection \<open>Combining the rows\<close>

definition step_row :: "(row_key \<times> bench_row) list \<Rightarrow> measurement \<Rightarrow> (row_key \<times> bench_row) list" where
  "step_row d e = AList.update (ms_key e)
     (note_test (ms_prefill e) (int (ms_tokens e)) (ms_float e) (test_text e)
       (case map_of d (ms_key e) of Some it \<Rightarrow> it | None \<Rightarrow> fresh_row (ms_key e) (int (ms_threads e)))) d"

lemma combine_rows:
  assumes "printable_table further es"
  shows "combine (map (row_of further) es) d = Inr (foldl step_row d es)"
proof -
  have rate: "parse_float (strip (before_spread (rate_text e))) = Some (ms_float e)" for e
  proof -
    have "before_spread (rate_text e) = hundredths (ms_rate e) @ '' ''"
      using before_spread_append [of "hundredths (ms_rate e) @ '' ''"] hundredths_ok
      by (simp add: rate_text_def)
    then show ?thesis
      using hundredths_ok by (simp add: strip_padded(2) parse_hundredths ms_float_def)
  qed
  have "combine (map (row_of further) us) d = Inr (foldl step_row d us)" if "set us \<subseteq> set es" for us
    using that
  proof (induction us arbitrary: d)
    case (Cons e us)
    then have e: "e \<in> set es" by simp
    note c = cell_row_of [OF assms e]
    have "key_of (row_of further e) = ms_key e" by (simp add: key_of_def ms_key_def c)
    then show ?case
      using Cons by (simp add: c match_test_text parse_int_str_nat rate step_row_def Let_def)
  qed simp
  then show ?thesis by simp
qed

lemma update_map:
  "distinct ks \<Longrightarrow> AList.update k v (map (\<lambda>j. (j, f j)) ks) =
     (if k \<in> set ks then map (\<lambda>j. (j, if j = k then v else f j)) ks else map (\<lambda>j. (j, f j)) ks @ [(k, v)])"
  by (induction ks) auto

lemma in_first_order_snoc:
  "in_first_order (xs @ [x]) = (if x \<in> set xs then in_first_order xs else in_first_order xs @ [x])"
proof (cases "x \<in> set xs")
  case True
  have "remdups (x # rev xs) = remdups (rev xs)" using True by simp
  then show ?thesis using True by (simp add: in_first_order_def)
qed (simp add: in_first_order_def)

lemma in_first_order [simp]: "distinct (in_first_order xs)" "set (in_first_order xs) = set xs"
  by (simp_all add: in_first_order_def)

lemma join_with_snoc: "ws \<noteq> [] \<Longrightarrow> join_with c (ws @ [w]) = join_with c ws @ c # w"
  by (induction c ws rule: join_with.induct) auto

lemma test_text_not_Nil [simp]: "test_text e \<noteq> []"
  by (simp add: test_text_def)

lemma last_of_snoc [simp]: "last_of pp f (g @ [e]) = (if ms_prefill e = pp then Some (f e) else last_of pp f g)"
  by (simp add: last_of_def)

lemma note_test_group:
  assumes "g \<noteq> []" "ms_key e = ms_key (hd g)"
  shows "note_test (ms_prefill e) (int (ms_tokens e)) (ms_float e) (test_text e) (group_row g) = group_row (g @ [e])"
proof -
  obtain x xs where g: "g = x # xs" using assms(1) by (cases g) auto
  have "join_with (CHR ''+'') (map test_text g) \<noteq> []" by (cases xs) (simp_all add: g)
  then show ?thesis
    using assms by (simp add: note_test_def group_row_def Let_def join_with_snoc)
qed

lemma note_test_single:
  "note_test (ms_prefill e) (int (ms_tokens e)) (ms_float e) (test_text e) (fresh_row (ms_key e) (int (ms_threads e))) =
     group_row [e]"
  by (simp add: note_test_def fresh_row_def ms_key_def group_row_def last_of_def)

lemma fold_step_row:
  "foldl step_row [] es = map (\<lambda>k. (k, group_row (group_of k es))) (in_first_order (map ms_key es))"
proof (induction es rule: rev_induct)
  case Nil
  then show ?case by (simp add: in_first_order_def)
next
  case (snoc e es)
  let ?k = "ms_key e" and ?ks = "in_first_order (map ms_key es)"
  let ?d = "map (\<lambda>k. (k, group_row (group_of k es))) ?ks"
  have other: "group_of j (es @ [e]) = group_of j es" if "j \<noteq> ?k" for j using that by (simp add: group_of_def)
  have own: "group_of ?k (es @ [e]) = group_of ?k es @ [e]" by (simp add: group_of_def)
  have look: "map_of ?d ?k = (if ?k \<in> set ?ks then Some (group_row (group_of ?k es)) else None)"
    by (simp add: map_of_map_restrict restrict_map_def)
  show ?case
  proof (cases "?k \<in> set ?ks")
    case True
    then have ne: "group_of ?k es \<noteq> []" by (auto simp: group_of_def filter_empty_conv)
    then have "ms_key (hd (group_of ?k es)) = ?k"
      using hd_in_set [OF ne] by (simp add: group_of_def)
    with ne have "step_row ?d e = AList.update ?k (group_row (group_of ?k (es @ [e]))) ?d"
      using True by (simp add: step_row_def look own note_test_group)
    also have "\<dots> = map (\<lambda>k. (k, group_row (group_of k (es @ [e])))) ?ks"
      using True by (subst update_map) (auto simp: other)
    finally show ?thesis using True snoc by (simp add: in_first_order_snoc)
  next
    case False
    then have "group_of ?k es = []" by (simp add: group_of_def filter_empty_conv) (metis imageI)
    then have "step_row ?d e = AList.update ?k (group_row (group_of ?k (es @ [e]))) ?d"
      using False by (simp add: step_row_def look own note_test_single)
    also have "\<dots> = ?d @ [(?k, group_row (group_of ?k (es @ [e])))]"
      using False by (subst update_map) simp_all
    also have "\<dots> = map (\<lambda>k. (k, group_row (group_of k (es @ [e])))) (?ks @ [?k])"
    proof -
      have "\<forall>k \<in> set ?ks. group_of k (es @ [e]) = group_of k es" using False other by metis
      then show ?thesis by simp
    qed
    finally show ?thesis using False snoc by (simp add: in_first_order_snoc)
  qed
qed

lemma printed_table_parses:
  assumes "printable_table further es" "no_table lead" "no_table trail" "es \<noteq> []"
  shows "parse_llama_bench (print_bench lead trail further es) =
    Inr (map (\<lambda>k. group_row (group_of k es)) (in_first_order (map ms_key es)))"
proof -
  obtain e where "e \<in> set es" using assms(4) by fastforce
  then have "in_first_order (map ms_key es) \<noteq> []"
    by (metis in_first_order(2) image_eqI list.set_map empty_iff list.set(1))
  then show ?thesis
    using assms(4) by (simp add: parse_llama_bench_def Let_def table_of_print [OF assms(1,2,3)]
        combine_rows [OF assms(1)] fold_step_row comp_def)
qed


definition sample_prefill :: measurement where
  "sample_prefill = \<lparr>ms_model = ''qwen2'', ms_size = ''1 GiB'', ms_backend = ''CPU'', ms_threads = 4,
     ms_further = [''3 B''], ms_prefill = True, ms_tokens = 128, ms_depth = Some 16, ms_rate = 12345,
     ms_spread = ''0.10''\<rparr>"

definition sample_decode :: measurement where
  "sample_decode = sample_prefill\<lparr>ms_prefill := False, ms_tokens := 32, ms_rate := 150\<rparr>"

lemma sample_printable:
  "printable_table [''params''] [sample_prefill, sample_decode]" "no_table [''ggml: start'']" "no_table [[], ''build: 1'']"
  by (simp_all add: printable_table_def cell_ok_def trimmed_def plain_def sample_prefill_def sample_decode_def
      no_table_def strip_plain)

lemma sample_digits: "str_nat 128 = ''128''" "str_nat 32 = ''32''" "str_nat 16 = ''16''"
  by code_simp+


end
