(* ===== verification/Bench_Records.thy ===== *)
theory Bench_Records
  imports Bench_Plan Bench_Parse
begin

text \<open>
  \<open>benchmarks/run_llama_bench.py\<close>, third part: the outcome of one invocation (\<open>execute\<close>), the record it gets, the
  record file that is read back (\<open>read_jsonl\<close>, \<open>_latest\<close>, \<open>_successful\<close>), and the rows of the CSV file that
  are made from the records (\<open>normalized_records\<close>).

  What the operating system does during one invocation is a \<open>turn\<close>: the elapsed time before and
  after, the time stamps, how the child ended and how long it took. An interrupt between two
  invocations is not modelled. The content of the fixture is \<open>None\<close> when the file does not exist.
\<close>

section \<open>One invocation\<close>

text \<open>
  A child that finished, that was killed at its timeout, that could not be started (with the text of the
  \<open>OSError\<close>), or during which the user stopped the program. The two streams are bytes.
\<close>

datatype child =
    Finished string string int
  | Killed string string
  | Unstarted string
  | Stopped

record run_result =
  out_text :: string
  err_text :: string
  exit_code :: "int option"
  run_seconds :: pyfloat
  timed_out :: bool

datatype run_end = Ended (result_of: run_result) | Interrupt | Raised py_error

text \<open>\<open>execute\<close>; a stream that is no UTF-8 raises in \<open>communicate\<close>, which no handler catches.\<close>

definition execute :: "child \<Rightarrow> pyfloat \<Rightarrow> run_end" where
  "execute c seconds = (case c of
       Finished out err code \<Rightarrow> (case read_streams out err of
           Inl e \<Rightarrow> Raised e
         | Inr (o', e') \<Rightarrow> Ended \<lparr>out_text = o', err_text = e', exit_code = Some code, run_seconds = seconds,
             timed_out = False\<rparr>)
     | Killed out err \<Rightarrow> (case read_streams out err of
           Inl e \<Rightarrow> Raised e
         | Inr (o', e') \<Rightarrow> Ended \<lparr>out_text = o', err_text = e', exit_code = None, run_seconds = seconds,
             timed_out = True\<rparr>)
     | Unstarted msg \<Rightarrow> Ended \<lparr>out_text = [], err_text = msg, exit_code = None, run_seconds = seconds,
         timed_out = False\<rparr>
     | Stopped \<Rightarrow> Interrupt)"

record turn =
  elapsed_before :: pyfloat
  started_at :: string
  completed_at :: string
  child_end :: child
  child_seconds :: pyfloat
  elapsed_after :: pyfloat

record run_options =
  resume :: bool
  retry_failures :: bool
  force_resume :: bool
  allow_partial_analysis :: bool
  write_csv :: bool
  max_total_seconds :: "pyfloat option"

text \<open>\<open>environment\<close> is what \<open>environment_metadata\<close> finds out about the machine.\<close>

record bench_context =
  config :: bench_config
  options :: run_options
  environment :: json
  new_run_id :: string
  smoke :: bool
  fixture :: "string option"
  turn_of :: "invocation \<Rightarrow> turn"

text \<open>In smoke mode the fixture stands for a run that succeeds at once.\<close>

definition outcome_of :: "bench_context \<Rightarrow> invocation \<Rightarrow> run_end" where
  "outcome_of ctx i = (if smoke ctx
     then (case read_text (the (fixture ctx)) of
         Inl e \<Rightarrow> Raised e
       | Inr t \<Rightarrow> Ended \<lparr>out_text = t, err_text = [], exit_code = Some 0, run_seconds = Fin 0, timed_out = False\<rparr>)
     else execute (child_end (turn_of ctx i)) (child_seconds (turn_of ctx i)))"

section \<open>Records\<close>

text \<open>\<open>asdict(case)\<close>\<close>

definition case_json :: "bench_case \<Rightarrow> json" where
  "case_json c = JObj
    [(''threads'', JInt (threads c)), (''prompt_tokens'', JInt (prompt_tokens c)),
     (''generated_tokens'', JInt (generated_tokens c)), (''batch_size'', JInt (batch_size c)),
     (''context_size'', JInt (context_size c)), (''ubatch_size'', JInt (ubatch_size c)),
     (''kv_key_type'', JStr (kv_key_type c)), (''kv_value_type'', JStr (kv_value_type c))]"

definition executed_command :: "bench_config \<Rightarrow> string list \<Rightarrow> string list" where
  "executed_command cfg cmd = (if measure_memory cfg then path_str (time_executable cfg) # ''-v'' # cmd else cmd)"

text \<open>The message of a \<open>ValueError\<close>, the only exception of the table's parser.\<close>

definition message_of :: "py_error \<Rightarrow> string" where
  "message_of e = (case e of ValueError m \<Rightarrow> m | _ \<Rightarrow> [])"

text \<open>The status, the parsed rows and the parse error.\<close>

definition judge :: "run_result \<Rightarrow> string \<times> bench_row list \<times> string option" where
  "judge r =
     (if timed_out r then (''timed_out'', [], None)
      else if exit_code r \<noteq> Some 0 then (''failed'', [], None)
      else (case parse_llama_bench (out_text r) of
          Inl e \<Rightarrow> (''parse_error'', [], Some (message_of e))
        | Inr rows \<Rightarrow> (''success'', rows, None)))"

definition record_of :: "bench_context \<Rightarrow> string \<Rightarrow> invocation \<Rightarrow> run_result \<Rightarrow> json" where
  "record_of ctx rid i r =
     (let cfg = config ctx; t = turn_of ctx i; m = inv_model i;
          cmd = build_command cfg (inv_case i) m; (status, rows, parse_error) = judge r
      in JObj
       ([(''run_id'', JStr rid), (''case_id'', JStr (inv_case_id i)),
         (''invocation_id'', JStr (invocation_id i)), (''phase'', JStr (phase_of (warmup i))),
         (''model_logical_id'', JStr (logical_id m)), (''model_filename'', JStr (path_name (model_file m))),
         (''quantization'', JStr (quantization m)), (''model_sha256'', jopt JStr (model_sha256 m)),
         (''model_file_size'', jopt JInt (model_size m)), (''repetition'', JInt (repetition i)),
         (''warmup'', JBool (warmup i)), (''started_at'', JStr (started_at t)),
         (''completed_at'', JStr (completed_at t)), (''status'', JStr status),
         (''environment'', environment ctx), (''command'', JList (map JStr cmd)),
         (''executed_command'', JList (map JStr (executed_command cfg cmd))),
         (''peak_rss_kib'', if measure_memory cfg then jopt JInt (parse_time_verbose (err_text r)) else JNull),
         (''reported_kv_cache_bytes'', jopt JInt (parse_kv_cache_bytes (out_text r @ CHR 0x0A # err_text r))),
         (''memory_measurement_source'', if measure_memory cfg then JStr ''GNU time -v'' else JNull),
         (''mmap_enabled'', JBool (mmap cfg)), (''case'', case_json (inv_case i)),
         (''stdout'', JStr (out_text r)), (''stderr'', JStr (err_text r)),
         (''return_code'', jopt JInt (exit_code r)), (''elapsed_seconds'', JFloat (run_seconds r)),
         (''timed_out'', JBool (timed_out r)), (''parsed_results'', JList (map row_json rows))] @
        (case parse_error of Some (c # cs) \<Rightarrow> [(''parse_error'', JStr (c # cs))] | _ \<Rightarrow> [])))"

definition record_id :: "json \<Rightarrow> string" where
  "record_id r = str_of (jget r ''invocation_id'')"

text \<open>\<open>_latest\<close>: a dictionary in order of first insertion, the last record of an identifier wins.\<close>

definition latest_of :: "json list \<Rightarrow> (string \<times> json) list" where
  "latest_of rs = foldl (\<lambda>d r. al_put (record_id r) r d) [] rs"

definition successful :: "json \<Rightarrow> bool" where
  "successful r \<longleftrightarrow> jget r ''status'' = JStr ''success''"

text \<open>\<open>read_jsonl\<close>\<close>

fun read_jsonl :: "json option list \<Rightarrow> json list res" where
  "read_jsonl [] = Inr []"
| "read_jsonl (None # ls) = Inl (ConfigError ''invalid JSONL line'')"
| "read_jsonl (Some v # ls) =
     (if \<not> is_JObj v \<or> \<not> is_JStr (jget v ''invocation_id'')
      then Inl (ConfigError ''invalid JSONL record'')
      else rbind (read_jsonl ls) (\<lambda>rs. Inr (v # rs)))"

section \<open>The rows of the CSV file\<close>

text \<open>\<open>v[k]\<close> for a \<open>str\<close> \<open>k\<close>, and \<open>iter(v)\<close>; the characters of a \<open>str\<close> are here its bytes.\<close>

definition subscript :: "json \<Rightarrow> string \<Rightarrow> json res" where
  "subscript v k = (case v of
       JObj kvs \<Rightarrow> (case map_of kvs k of Some w \<Rightarrow> Inr w | None \<Rightarrow> Inl (KeyError k))
     | _ \<Rightarrow> Inl (TypeError ''not subscriptable by a string''))"

definition iterate :: "json \<Rightarrow> json list res" where
  "iterate v = (case v of
       JList vs \<Rightarrow> Inr vs
     | JObj kvs \<Rightarrow> Inr (map (JStr \<circ> fst) kvs)
     | JStr s \<Rightarrow> Inr (map (\<lambda>c. JStr [c]) s)
     | _ \<Rightarrow> Inl (TypeError ''not iterable''))"

text \<open>One row: the parsed row, overlaid with what the record and its case say.\<close>

definition normal_row :: "json \<Rightarrow> json \<Rightarrow> json \<Rightarrow> json res" where
  "normal_row r c row =
     (if \<not> is_JObj row then Inl (TypeError ''not a mapping'')
      else rbind (subscript r ''started_at'') (\<lambda>started.
        rbind (subscript c ''batch_size'') (\<lambda>batch.
        rbind (subscript c ''ubatch_size'') (\<lambda>ubatch.
        rbind (subscript c ''context_size'') (\<lambda>ctx_size.
        rbind (subscript r ''repetition'') (\<lambda>rep.
        rbind (subscript r ''elapsed_seconds'') (\<lambda>elapsed.
          Inr (foldl (\<lambda>d (k, v). jset d k v) row
            [(''timestamp_utc'', started), (''model_logical_id'', jget r ''model_logical_id''),
             (''model_filename'', jget r ''model_filename''), (''quantization'', jget r ''quantization''),
             (''model_sha256'', jget r ''model_sha256''), (''model_file_size'', jget r ''model_file_size''),
             (''invocation_id'', jget r ''invocation_id''), (''batch_size'', batch), (''ubatch_size'', ubatch),
             (''context_size'', ctx_size), (''kv_key_type'', jget_default c ''kv_key_type'' (JStr ''f16'')),
             (''kv_value_type'', jget_default c ''kv_value_type'' (JStr ''f16'')),
             (''peak_rss_kib'', jget r ''peak_rss_kib''),
             (''reported_kv_cache_bytes'', jget r ''reported_kv_cache_bytes''),
             (''memory_measurement_source'', jget r ''memory_measurement_source''),
             (''mmap_enabled'', jget r ''mmap_enabled''), (''repetition'', rep),
             (''elapsed_seconds'', elapsed)]))))))))"

definition record_rows :: "json \<Rightarrow> json list res" where
  "record_rows r =
     (if truthy (jget r ''warmup'') \<or> \<not> successful r then Inr []
      else rbind (subscript r ''case'') (\<lambda>c.
        rbind (iterate (jget_default r ''parsed_results'' (JList []))) (\<lambda>rows. rmap (normal_row r c) rows)))"

definition normalized_records :: "json list \<Rightarrow> json list res" where
  "normalized_records rs = rbind (rmap record_rows (map snd (latest_of rs))) (\<lambda>rows. Inr (concat rows))"

section \<open>Dictionaries of records\<close>

lemma record_id_of [simp]: "record_id (record_of ctx rid i r) = invocation_id i"
  by (simp add: record_id_def record_of_def Let_def split: prod.split)

lemma record_of_line [simp]:
  "is_JObj (record_of ctx rid i r)" "is_JStr (jget (record_of ctx rid i r) ''invocation_id'')"
  by (simp_all add: record_of_def Let_def split: prod.split)

lemma distinct_al_put: "distinct (map fst d) \<Longrightarrow> distinct (map fst (al_put k v d))"
proof (induction d)
  case (Cons p d)
  then show ?case
    using fst_al_put [of k v d] by (cases p) (auto simp del: set_map simp: image_image)
qed simp

lemma latest_of_snoc [simp]: "latest_of (rs @ [r]) = al_put (record_id r) r (latest_of rs)"
  by (simp add: latest_of_def)

lemma latest_of_Nil [simp]: "latest_of [] = []"
  by (simp add: latest_of_def)

lemma keys_latest_of: "set (map fst (latest_of rs)) = set (map record_id rs)"
proof (induction rs rule: rev_induct)
  case (snoc r rs)
  then show ?case using fst_al_put [of "record_id r" r "latest_of rs"] by simp
qed simp

lemma distinct_latest_of: "distinct (map fst (latest_of rs))"
  by (induction rs rule: rev_induct) (auto intro: distinct_al_put)

lemma length_latest_of: "length (latest_of rs) = card (set (map record_id rs))"
  using distinct_card [OF distinct_latest_of [of rs]] keys_latest_of [of rs] by simp

lemma map_of_latest_None: "map_of (latest_of rs) k = None \<longleftrightarrow> k \<notin> set (map record_id rs)"
  by (simp only: map_of_eq_None_iff set_map [symmetric] keys_latest_of)

lemma al_put_new: "k \<notin> set (map fst d) \<Longrightarrow> al_put k v d = d @ [(k, v)]"
  by (induction d) auto

text \<open>Records of different invocations are all latest.\<close>

lemma latest_of_distinct: "distinct (map record_id rs) \<Longrightarrow> map snd (latest_of rs) = rs"
proof (induction rs rule: rev_induct)
  case (snoc r rs)
  then have "record_id r \<notin> set (map fst (latest_of rs))" by (simp only: keys_latest_of) simp
  with snoc show ?case by (simp add: al_put_new)
qed simp

section \<open>Rows of the program's own records\<close>

text \<open>The row of a measurement in the CSV file.\<close>

definition csv_row :: "bench_context \<Rightarrow> invocation \<Rightarrow> run_result \<Rightarrow> bench_row \<Rightarrow> json" where
  "csv_row ctx i r row = JObj (jitems (row_json row) @
     [(''timestamp_utc'', JStr (started_at (turn_of ctx i))), (''model_logical_id'', JStr (logical_id (inv_model i))),
      (''model_filename'', JStr (path_name (model_file (inv_model i)))),
      (''quantization'', JStr (quantization (inv_model i))),
      (''model_sha256'', jopt JStr (model_sha256 (inv_model i))),
      (''model_file_size'', jopt JInt (model_size (inv_model i))),
      (''invocation_id'', JStr (invocation_id i)), (''batch_size'', JInt (batch_size (inv_case i))),
      (''ubatch_size'', JInt (ubatch_size (inv_case i))), (''context_size'', JInt (context_size (inv_case i))),
      (''kv_key_type'', JStr (kv_key_type (inv_case i))), (''kv_value_type'', JStr (kv_value_type (inv_case i))),
      (''peak_rss_kib'', if measure_memory (config ctx) then jopt JInt (parse_time_verbose (err_text r)) else JNull),
      (''reported_kv_cache_bytes'', jopt JInt (parse_kv_cache_bytes (out_text r @ CHR 0x0A # err_text r))),
      (''memory_measurement_source'', if measure_memory (config ctx) then JStr ''GNU time -v'' else JNull),
      (''mmap_enabled'', JBool (mmap (config ctx))), (''repetition'', JInt (repetition i)),
      (''elapsed_seconds'', JFloat (run_seconds r))])"

text \<open>Overlaying new keys appends them.\<close>

lemma overlay_new:
  "distinct (map fst kvs) \<Longrightarrow> set (map fst row) \<inter> set (map fst kvs) = {} \<Longrightarrow>
     foldl (\<lambda>d (k, v). jset d k v) (JObj row) kvs = JObj (row @ kvs)"
proof (induction kvs arbitrary: row)
  case (Cons p kvs)
  obtain k v where p: "p = (k, v)" by fastforce
  have "jset (JObj row) k v = JObj (row @ [(k, v)])"
    using Cons.prems by (simp add: p jset_def al_put_new)
  moreover have "foldl (\<lambda>d (k, v). jset d k v) (JObj (row @ [(k, v)])) kvs = JObj ((row @ [(k, v)]) @ kvs)"
    using Cons.prems by (intro Cons.IH) (auto simp: p)
  ultimately show ?case by (simp add: p)
qed simp

lemma record_fields:
  "subscript (record_of ctx rid i r) ''started_at'' = Inr (JStr (started_at (turn_of ctx i)))"
  "subscript (record_of ctx rid i r) ''repetition'' = Inr (JInt (repetition i))"
  "subscript (record_of ctx rid i r) ''elapsed_seconds'' = Inr (JFloat (run_seconds r))"
  "subscript (record_of ctx rid i r) ''case'' = Inr (case_json (inv_case i))"
  "jget (record_of ctx rid i r) ''warmup'' = JBool (warmup i)"
  "jget (record_of ctx rid i r) ''status'' = JStr (fst (judge r))"
  "jget (record_of ctx rid i r) ''model_logical_id'' = JStr (logical_id (inv_model i))"
  "jget (record_of ctx rid i r) ''model_filename'' = JStr (path_name (model_file (inv_model i)))"
  "jget (record_of ctx rid i r) ''quantization'' = JStr (quantization (inv_model i))"
  "jget (record_of ctx rid i r) ''model_sha256'' = jopt JStr (model_sha256 (inv_model i))"
  "jget (record_of ctx rid i r) ''model_file_size'' = jopt JInt (model_size (inv_model i))"
  "jget (record_of ctx rid i r) ''invocation_id'' = JStr (invocation_id i)"
  "jget (record_of ctx rid i r) ''mmap_enabled'' = JBool (mmap (config ctx))"
  "jget (record_of ctx rid i r) ''peak_rss_kib'' =
     (if measure_memory (config ctx) then jopt JInt (parse_time_verbose (err_text r)) else JNull)"
  "jget (record_of ctx rid i r) ''reported_kv_cache_bytes'' =
     jopt JInt (parse_kv_cache_bytes (out_text r @ CHR 0x0A # err_text r))"
  "jget (record_of ctx rid i r) ''memory_measurement_source'' =
     (if measure_memory (config ctx) then JStr ''GNU time -v'' else JNull)"
  "jget_default (record_of ctx rid i r) ''parsed_results'' (JList []) = JList (map row_json (fst (snd (judge r))))"
  by (simp_all add: record_of_def Let_def subscript_def jget_default_JObj split_beta)

lemma case_fields:
  "subscript (case_json c) ''batch_size'' = Inr (JInt (batch_size c))"
  "subscript (case_json c) ''ubatch_size'' = Inr (JInt (ubatch_size c))"
  "subscript (case_json c) ''context_size'' = Inr (JInt (context_size c))"
  "jget_default (case_json c) ''kv_key_type'' d = JStr (kv_key_type c)"
  "jget_default (case_json c) ''kv_value_type'' d = JStr (kv_value_type c)"
  by (simp_all add: case_json_def subscript_def jget_default_JObj)

lemma normal_row_own:
  "normal_row (record_of ctx rid i r) (case_json (inv_case i)) (row_json row) = Inr (csv_row ctx i r row)"
  unfolding normal_row_def record_fields case_fields rbind_Inr row_json_def csv_row_def jitems_JObj
  by (subst overlay_new) simp_all

lemma record_rows_own:
  "record_rows (record_of ctx rid i r) = Inr (if warmup i then [] else map (csv_row ctx i r) (fst (snd (judge r))))"
proof -
  have rej: "fst (judge r) \<noteq> ''success'' \<Longrightarrow> fst (snd (judge r)) = []"
    by (auto simp: judge_def split: if_splits sum.splits)
  have "rmap (normal_row (record_of ctx rid i r) (case_json (inv_case i))) (map row_json rows) =
      Inr (map (csv_row ctx i r) rows)" for rows
    by (induction rows) (simp_all add: normal_row_own)
  then show ?thesis using rej by (simp add: record_rows_def record_fields successful_def iterate_def)
qed

end
