(* ===== verification/Bench_Run.thy ===== *)
theory Bench_Run
  imports Bench_Records
begin

text \<open>
  \<open>benchmarks/run_llama_bench.py\<close>, last part: the durable run of a plan (\<open>run\<close>) and \<open>main\<close>. Every finished
  invocation appends one record to \<open>run.jsonl\<close>; a later run with \<open>--resume\<close> reads the records and
  goes on with the invocations that have none.

  The output directory is a record: the lines of \<open>run.jsonl\<close> as the values they parse to (\<open>None\<close> is a
  line that is no JSON), the last written summary, and the CSV file: whether it is marked incomplete,
  and its rows as the dictionaries the writer gets.
\<close>

section \<open>The loop over the plan\<close>

record run_summary =
  summary_run_id :: string
  config_fingerprint :: string
  planned_invocations :: nat
  completed_invocations :: nat
  successful_invocations :: nat
  failed_invocations :: nat
  timed_out_invocations :: nat
  last_completed_case :: "string option"
  total_elapsed :: pyfloat
  run_status :: string
  budget :: "pyfloat option"

record run_state =
  existing :: "json list"
  latest :: "(string \<times> json) list"
  summary :: run_summary

datatype loop_end = PlanDone | OutOfTime | Interrupted | Crashed py_error

definition with_counts :: "(string \<times> json) list \<Rightarrow> run_summary \<Rightarrow> run_summary" where
  "with_counts d s =
     (let ok = length (filter (\<lambda>(_, r). successful r) d) in
      s\<lparr>completed_invocations := length d, successful_invocations := ok,
        failed_invocations := length d - ok,
        timed_out_invocations := length (filter (\<lambda>(_, r). jget r ''status'' = JStr ''timed_out'') d)\<rparr>)"

fun float_ge :: "pyfloat \<Rightarrow> pyfloat \<Rightarrow> bool" where
  "float_ge (Fin a) (Fin b) \<longleftrightarrow> b \<le> a"
| "float_ge (Inf neg) (Inf neg') \<longleftrightarrow> \<not> neg \<or> neg'"
| "float_ge (Fin a) (Inf neg) \<longleftrightarrow> neg"
| "float_ge (Inf neg) (Fin b) \<longleftrightarrow> \<not> neg"
| "float_ge _ _ \<longleftrightarrow> False"

text \<open>An invocation is skipped when it has a record, unless failures are to be retried and it is one.\<close>

definition skipped :: "run_options \<Rightarrow> (string \<times> json) list \<Rightarrow> invocation \<Rightarrow> bool" where
  "skipped opts d i = (case map_of d (invocation_id i) of
       None \<Rightarrow> False
     | Some r \<Rightarrow> \<not> retry_failures opts \<or> successful r)"

definition out_of_time :: "bench_context \<Rightarrow> invocation \<Rightarrow> bool" where
  "out_of_time ctx i = (case max_total_seconds (options ctx) of
       None \<Rightarrow> False
     | Some m \<Rightarrow> float_ge (elapsed_before (turn_of ctx i)) m)"

definition note_record :: "bench_context \<Rightarrow> invocation \<Rightarrow> json \<Rightarrow> run_state \<Rightarrow> run_state" where
  "note_record ctx i r st =
     (let d = al_put (invocation_id i) r (latest st) in
      \<lparr>existing = existing st @ [r], latest = d,
       summary = (with_counts d (summary st))\<lparr>last_completed_case := Some (inv_case_id i),
         total_elapsed := elapsed_after (turn_of ctx i)\<rparr>\<rparr>)"

fun run_loop :: "bench_context \<Rightarrow> run_state \<Rightarrow> invocation list \<Rightarrow> run_state \<times> loop_end" where
  "run_loop ctx st [] = (st, PlanDone)"
| "run_loop ctx st (i # is) =
     (if skipped (options ctx) (latest st) i then run_loop ctx st is
      else if out_of_time ctx i
      then (st\<lparr>summary := (summary st)\<lparr>run_status := ''failed''\<rparr>\<rparr>, OutOfTime)
      else (case outcome_of ctx i of
          Interrupt \<Rightarrow> (st, Interrupted)
        | Raised e \<Rightarrow> (st, Crashed e)
        | Ended r \<Rightarrow> run_loop ctx (note_record ctx i (record_of ctx (summary_run_id (summary st)) i r) st) is))"

section \<open>The run\<close>

record run_dir =
  raw_lines :: "json option list option"
  summary_file :: "run_summary option"
  csv_file :: "(bool \<times> json list) option"

text \<open>\<open>verify_models\<close>; \<open>digest\<close> is the SHA-256 of a content.\<close>

definition verify_models :: "(string \<Rightarrow> string) \<Rightarrow> files \<Rightarrow> bench_config \<Rightarrow> check" where
  "verify_models digest fs cfg = first_error (map (\<lambda>m.
     if model_sha256 m = None \<and> model_size m = None then None
     else (case fs (model_file m) of
         None \<Rightarrow> Some (ConfigError ''model file does not exist'')
       | Some content \<Rightarrow> first_error
          [reject (model_size m \<noteq> None \<and> model_size m \<noteq> Some (int (length content)))
             (ConfigError ''model file size mismatch''),
           reject (model_sha256 m \<noteq> None \<and> model_sha256 m \<noteq> Some (digest content))
             (ConfigError ''model checksum mismatch'')])) (models cfg))"

definition old_elapsed :: "run_summary option \<Rightarrow> pyfloat" where
  "old_elapsed s = (case s of None \<Rightarrow> Fin 0 | Some prev \<Rightarrow> total_elapsed prev)"

text \<open>The checks before the loop, and the state it starts in.\<close>

definition start_run ::
  "string \<Rightarrow> bench_context \<Rightarrow> run_dir \<Rightarrow> invocation list \<Rightarrow> run_state res" where
  "start_run fingerprint ctx dir plan =
     (let opts = options ctx;
          old = (if resume opts then summary_file dir else None) in
      rbind (if resume opts then read_jsonl (case raw_lines dir of None \<Rightarrow> [] | Some ls \<Rightarrow> ls) else Inr [])
        (\<lambda>records. checked (first_error
          [reject (resume opts \<and> summary_file dir = None) (ConfigError ''resume requires run-summary.json''),
           reject (resume opts \<and> map_option config_fingerprint old \<noteq> Some fingerprint \<and> \<not> force_resume opts)
             (ConfigError ''configuration is incompatible with existing run''),
           reject (\<not> resume opts \<and> (raw_lines dir \<noteq> None \<or> summary_file dir \<noteq> None))
             (ConfigError ''output directory already contains a run'')])
          (Inr \<lparr>existing = records, latest = latest_of records,
             summary = with_counts (latest_of records)
               \<lparr>summary_run_id = (case map_option summary_run_id old of
                    Some (c # cs) \<Rightarrow> c # cs | _ \<Rightarrow> new_run_id ctx),
                config_fingerprint = fingerprint,
                planned_invocations = length plan, completed_invocations = 0, successful_invocations = 0,
                failed_invocations = 0, timed_out_invocations = 0,
                last_completed_case = (case old of None \<Rightarrow> None | Some prev \<Rightarrow> last_completed_case prev),
                total_elapsed = old_elapsed old, run_status = ''running'',
                budget = max_total_seconds opts\<rparr>\<rparr>)))"

definition plan_complete :: "invocation list \<Rightarrow> (string \<times> json) list \<Rightarrow> bool" where
  "plan_complete plan d \<longleftrightarrow> (\<forall>i \<in> set plan. \<not> warmup i \<longrightarrow> invocation_id i \<in> set (map fst d))"

definition final_status :: "loop_end \<Rightarrow> bool \<Rightarrow> string \<Rightarrow> string" where
  "final_status e whole status =
     (if e = Interrupted then ''interrupted'' else if whole then ''completed'' else status)"

text \<open>The \<open>finally\<close> block. \<open>seconds\<close> is the elapsed time it reads.\<close>

definition leave_run ::
  "pyfloat \<Rightarrow> run_dir \<Rightarrow> invocation list \<Rightarrow> run_state \<Rightarrow> run_state \<Rightarrow> loop_end \<Rightarrow> run_dir" where
  "leave_run seconds dir plan st0 st e =
     dir\<lparr>raw_lines := Some ((case raw_lines dir of None \<Rightarrow> [] | Some ls \<Rightarrow> ls) @
           map Some (drop (length (existing st0)) (existing st))),
         summary_file := Some ((summary st)\<lparr>total_elapsed := seconds,
           run_status := final_status e (plan_complete plan (latest st)) (run_status (summary st))\<rparr>)\<rparr>"

text \<open>After it: an exception goes on; otherwise the CSV file is written, or an old one deleted.\<close>

definition finish_run ::
  "bench_context \<Rightarrow> pyfloat \<Rightarrow> run_dir \<Rightarrow> invocation list \<Rightarrow> run_state \<Rightarrow> run_state \<Rightarrow> loop_end \<Rightarrow>
     run_dir \<times> loop_end res" where
  "finish_run ctx seconds dir plan st0 st e =
     (let dir' = leave_run seconds dir plan st0 st e; whole = plan_complete plan (latest st); opts = options ctx in
      case (case e of Crashed x \<Rightarrow> Inl x | _ \<Rightarrow> normalized_records (existing st)) of
        Inl x \<Rightarrow> (dir', Inl x)
      | Inr rows \<Rightarrow>
          (dir'\<lparr>csv_file := if whole \<or> write_csv opts \<or> allow_partial_analysis opts then Some (\<not> whole, rows) else None\<rparr>,
           Inr e))"

definition run ::
  "(string \<Rightarrow> string) \<Rightarrow> files \<Rightarrow> string \<Rightarrow> pyfloat \<Rightarrow> bench_context \<Rightarrow> run_dir \<Rightarrow> run_dir \<times> loop_end res" where
  "run digest fs fingerprint seconds ctx dir =
     (case checked (first_error
        [verify_models digest fs (config ctx),
         reject (smoke ctx \<and> (smoke_fixture (config ctx) = None \<or> fixture ctx = None))
           (ConfigError ''smoke mode requires an existing smoke_fixture'')])
        (rbind (invocations (config ctx)) (\<lambda>plan. rbind (start_run fingerprint ctx dir plan) (\<lambda>st. Inr (plan, st)))) of
      Inl e \<Rightarrow> (dir, Inl e)
    | Inr (plan, st) \<Rightarrow> (let (st', e) = run_loop ctx st plan in finish_run ctx seconds dir plan st st' e))"

text \<open>\<open>main\<close>: the exit code, or the exception that ends the program. \<open>argparse\<close> exits with 2.\<close>

definition bench_main ::
  "(string \<Rightarrow> json option) \<Rightarrow> (string \<Rightarrow> path) \<Rightarrow> (string \<Rightarrow> path) \<Rightarrow> (string \<Rightarrow> string) \<Rightarrow>
     (bench_config \<Rightarrow> string) \<Rightarrow> files \<Rightarrow> pyfloat \<Rightarrow> bench_context \<Rightarrow> path \<Rightarrow> run_dir \<Rightarrow> run_dir \<times> int res" where
  "bench_main yaml resolve smoke_path digest fingerprint fs seconds ctx p dir =
     (case load_config yaml resolve smoke_path fs p of
       Inl (ConfigError m) \<Rightarrow> (dir, Inr 2)
     | Inl e \<Rightarrow> (dir, Inl e)
     | Inr cfg \<Rightarrow> (let opts = options ctx in
         if retry_failures opts \<and> \<not> resume opts then (dir, Inr 2)
         else if (case max_total_seconds opts of None \<Rightarrow> False | Some m \<Rightarrow> float_ge (Fin 0) m) then (dir, Inr 2)
         else (case run digest fs (fingerprint cfg) seconds (ctx\<lparr>config := cfg\<rparr>) dir of
             (dir', Inl (ConfigError m)) \<Rightarrow> (dir', Inr 2)
           | (dir', Inl e) \<Rightarrow> (dir', Inl e)
           | (dir', Inr e) \<Rightarrow> (dir', Inr (if e = Interrupted then 130 else 0)))))"

section \<open>The loop\<close>

text \<open>
  What the loop keeps: the dictionary is that of the records, and the counters of the summary are
  those of the dictionary.
\<close>

definition run_inv :: "run_state \<Rightarrow> bool" where
  "run_inv st \<longleftrightarrow> latest st = latest_of (existing st) \<and> with_counts (latest st) (summary st) = summary st"

lemma run_inv_note: "run_inv st \<Longrightarrow> run_inv (note_record ctx i (record_of ctx rid i r) st)"
  by (simp add: run_inv_def note_record_def with_counts_def Let_def)

lemma run_inv_status:
  "run_inv st \<Longrightarrow> run_inv (st\<lparr>summary := (summary st)\<lparr>run_status := x\<rparr>\<rparr>)"
  by (cases "summary st") (simp add: run_inv_def with_counts_def Let_def)

lemma run_loop_inv: "run_inv st \<Longrightarrow> run_loop ctx st is = (st', e) \<Longrightarrow> run_inv st'"
proof (induction ctx st "is" rule: run_loop.induct)
  case (2 ctx st i "is")
  show ?case
  proof (cases "skipped (options ctx) (latest st) i")
    case True
    with 2 show ?thesis by simp
  next
    case False
    note ns = False
    show ?thesis
    proof (cases "out_of_time ctx i")
      case True
      with 2(4,3) ns show ?thesis by (auto intro: run_inv_status)
    next
      case False
      with 2(2) [OF ns False] 2(3,4) ns show ?thesis
        by (auto intro: run_inv_note split: run_end.splits)
    qed
  qed
qed simp

text \<open>The invocations that are still to be made, and the record one of them gets.\<close>

definition todo :: "run_options \<Rightarrow> (string \<times> json) list \<Rightarrow> invocation list \<Rightarrow> invocation list" where
  "todo opts d is = filter (\<lambda>i. \<not> skipped opts d i) is"

definition made :: "bench_context \<Rightarrow> string \<Rightarrow> invocation \<Rightarrow> json" where
  "made ctx rid i = record_of ctx rid i (result_of (outcome_of ctx i))"

lemma record_id_made [simp]: "record_id (made ctx rid i) = invocation_id i"
  by (simp add: made_def)

lemma todo_al_put:
  assumes "k \<notin> set (map invocation_id is)"
  shows "todo opts (al_put k r d) is = todo opts d is"
  unfolding todo_def
proof (rule filter_cong [OF refl])
  fix i assume "i \<in> set is"
  with assms have "invocation_id i \<noteq> k" by auto
  then show "(\<not> skipped opts (al_put k r d) i) = (\<not> skipped opts d i)"
    by (simp add: skipped_def map_of_al_put)
qed

text \<open>
  The loop makes an initial part of what is to be made, in the order of the plan, and all of it
  when it ends by itself.
\<close>

lemma run_loop_todo:
  assumes "run_loop ctx st is = (st', e)" "distinct (map invocation_id is)"
  shows "\<exists>n. existing st' = existing st @ map (made ctx (summary_run_id (summary st))) (take n (todo (options ctx) (latest st) is)) \<and>
    (e = PlanDone \<longrightarrow> n = length (todo (options ctx) (latest st) is))"
  using assms
proof (induction ctx st "is" rule: run_loop.induct)
  case (1 ctx st)
  then show ?case by (simp add: todo_def)
next
  case (2 ctx st i "is")
  show ?case
  proof (cases "skipped (options ctx) (latest st) i")
    case True
    with 2 show ?thesis by (simp add: todo_def)
  next
    case ns: False
    then have td: "todo (options ctx) (latest st) (i # is) = i # todo (options ctx) (latest st) is"
      by (simp add: todo_def)
    show ?thesis
    proof (cases "out_of_time ctx i \<or> (\<forall>r. outcome_of ctx i \<noteq> Ended r)")
      case True
      with 2(3) ns have "existing st' = existing st" "e \<noteq> PlanDone"
        by (auto split: if_splits run_end.splits)
      then show ?thesis by (intro exI [of _ 0]) simp
    next
      case False
      then obtain r where o: "\<not> out_of_time ctx i" "outcome_of ctx i = Ended r" by auto
      let ?st = "note_record ctx i (record_of ctx (summary_run_id (summary st)) i r) st"
      from 2(3) ns o have rest: "run_loop ctx ?st is = (st', e)" by simp
      have rid: "summary_run_id (summary ?st) = summary_run_id (summary st)"
        by (simp add: note_record_def with_counts_def Let_def)
      from 2(2) [OF ns o(1) o(2) rest] 2(4) obtain n where
        n: "existing st' = existing ?st @ map (made ctx (summary_run_id (summary st))) (take n (todo (options ctx) (latest ?st) is))"
        "e = PlanDone \<longrightarrow> n = length (todo (options ctx) (latest ?st) is)" unfolding rid by auto
      have "todo (options ctx) (latest ?st) is = todo (options ctx) (latest st) is"
        using 2(4) by (simp add: note_record_def Let_def todo_al_put)
      with n o td have "existing st' = existing st @ map (made ctx (summary_run_id (summary st))) (take (Suc n) (todo (options ctx) (latest st) (i # is)))"
        "e = PlanDone \<longrightarrow> Suc n = length (todo (options ctx) (latest st) (i # is))"
        by (simp_all add: note_record_def Let_def made_def)
      then show ?thesis by blast
    qed
  qed
qed

lemma run_loop_status:
  "run_loop ctx st is = (st', e) \<Longrightarrow>
     run_status (summary st') = (if e = OutOfTime then ''failed'' else run_status (summary st))"
proof (induction ctx st "is" rule: run_loop.induct)
  case (2 ctx st i "is")
  then show ?case
    by (auto simp: note_record_def with_counts_def Let_def split: if_splits run_end.splits)
qed simp

lemma run_loop_planned:
  "run_loop ctx st is = (st', e) \<Longrightarrow> planned_invocations (summary st') = planned_invocations (summary st) \<and>
     config_fingerprint (summary st') = config_fingerprint (summary st)"
proof (induction ctx st "is" rule: run_loop.induct)
  case (2 ctx st i "is")
  then show ?case
    by (auto simp: note_record_def with_counts_def Let_def split: if_splits run_end.splits)
qed simp

text \<open>A loop that ends by itself leaves no invocation without a record.\<close>

lemma run_loop_records:
  assumes "run_loop ctx st is = (st', PlanDone)" "distinct (map invocation_id is)"
    and "latest st = latest_of (existing st)" "i \<in> set is"
  shows "invocation_id i \<in> set (map record_id (existing st'))"
proof -
  have ex: "existing st' = existing st @ map (made ctx (summary_run_id (summary st))) (todo (options ctx) (latest st) is)"
    using run_loop_todo [OF assms(1,2)] by auto
  show ?thesis
  proof (cases "map_of (latest st) (invocation_id i)")
    case None
    with assms(4) have "i \<in> set (todo (options ctx) (latest st) is)" by (simp add: todo_def skipped_def)
    then have "record_id (made ctx (summary_run_id (summary st)) i) \<in> set (map record_id (existing st'))" using ex by simp
    then show ?thesis by simp
  next
    case (Some r)
    then have "invocation_id i \<in> set (map record_id (existing st))"
      using map_of_latest_None [of "existing st" "invocation_id i"] assms(3) by auto
    then show ?thesis using ex by simp
  qed
qed

section \<open>A run\<close>

lemma start_run_Inr:
  assumes "start_run fp ctx dir plan = Inr st"
  shows "run_inv st \<and> run_status (summary st) = ''running'' \<and>
    planned_invocations (summary st) = length plan \<and> config_fingerprint (summary st) = fp \<and>
    (if resume (options ctx)
     then read_jsonl (case raw_lines dir of None \<Rightarrow> [] | Some ls \<Rightarrow> ls) = Inr (existing st)
     else existing st = [] \<and> raw_lines dir = None)"
  using assms
  by (auto simp: start_run_def Let_def run_inv_def with_counts_def split: if_splits)

lemma start_run_inv: "start_run fp ctx dir plan = Inr st \<Longrightarrow> run_inv st"
  using start_run_Inr by blast

lemma read_jsonl_Inr: "read_jsonl ls = Inr rs \<Longrightarrow> ls = map Some rs"
  by (induction ls arbitrary: rs rule: read_jsonl.induct) (auto split: if_splits)

lemma read_jsonl_made: "read_jsonl (map Some (map (made ctx rid) is)) = Inr (map (made ctx rid) is)"
  by (induction "is") (simp_all add: made_def)

text \<open>A run that changed the directory, or returned, has gone through the loop.\<close>

lemma run_started:
  assumes "run digest fs fp seconds ctx dir = (dir', r)" "dir' \<noteq> dir \<or> (\<exists>e. r = Inr e)"
  obtains plan st st' e where "invocations (config ctx) = Inr plan" "start_run fp ctx dir plan = Inr st"
    "run_loop ctx st plan = (st', e)" "finish_run ctx seconds dir plan st st' e = (dir', r)"
  using assms by (auto simp: run_def split: sum.splits prod.splits)

lemma finish_run_files:
  assumes "finish_run ctx seconds dir plan st st' e = (dir', r)"
  shows "raw_lines dir' = raw_lines (leave_run seconds dir plan st st' e)"
    and "summary_file dir' = summary_file (leave_run seconds dir plan st st' e)"
  using assms by (auto simp: finish_run_def Let_def split: sum.splits)

lemma finish_run_Inr:
  assumes "finish_run ctx seconds dir plan st st' e = (dir', Inr e')"
  shows "e' = e \<and> (\<forall>x. e \<noteq> Crashed x) \<and> (\<exists>rows. normalized_records (existing st') = Inr rows \<and>
    csv_file dir' = (if plan_complete plan (latest st') \<or> write_csv (options ctx) \<or> allow_partial_analysis (options ctx)
      then Some (\<not> plan_complete plan (latest st'), rows) else None))"
  using assms by (auto simp: finish_run_def Let_def split: sum.splits loop_end.splits)

text \<open>The lines of the file after a run are the records in memory.\<close>

lemma run_lines:
  assumes "start_run fp ctx dir plan = Inr st" "run_loop ctx st plan = (st', e)"
    "distinct (map invocation_id plan)"
  shows "raw_lines (leave_run seconds dir plan st st' e) = Some (map Some (existing st'))"
proof -
  obtain n where "existing st' = existing st @ map (made ctx (summary_run_id (summary st))) (take n (todo (options ctx) (latest st) plan))"
    using run_loop_todo [OF assms(2,3)] by blast
  moreover have "(case raw_lines dir of None \<Rightarrow> [] | Some ls \<Rightarrow> ls) = map Some (existing st)"
    using start_run_Inr [OF assms(1)] read_jsonl_Inr by (auto split: if_splits)
  ultimately show ?thesis by (simp add: leave_run_def)
qed

lemma todo_case:
  "i \<in> set (todo opts d plan) \<Longrightarrow> case map_of d (invocation_id i) of
     None \<Rightarrow> True | Some q \<Rightarrow> retry_failures opts \<and> \<not> successful q"
  by (auto simp: todo_def skipped_def split: option.splits)

lemma distinct_taken:
  "distinct (map f xs) \<Longrightarrow> distinct (map f (take n (filter P xs)))"
  by (simp add: distinct_map_filter flip: take_map) 

text \<open>C26: A run that got past its checks, however it ended (an exception included), only appends to \<open>run.jsonl\<close>: the lines that were there stay, and the new records are of
  different invocations of the plan, none of which had a record before, or, with
  \<open>--retry-failures\<close>, none whose latest record was a success. So nothing that succeeded is run again.
\<close>

theorem run_repeats_nothing:
  assumes "config_wf (config ctx)" and "run digest fs fp seconds ctx dir = (dir', r)" and "dir' \<noteq> dir"
  shows "\<exists>old new. (resume (options ctx) \<longrightarrow> read_jsonl (case raw_lines dir of None \<Rightarrow> [] | Some ls \<Rightarrow> ls) = Inr old) \<and>
    (\<not> resume (options ctx) \<longrightarrow> old = [] \<and> raw_lines dir = None) \<and>
    raw_lines dir' = Some (map Some (old @ new)) \<and> distinct (map record_id new) \<and>
    (\<forall>r \<in> set new. case map_of (latest_of old) (record_id r) of
       None \<Rightarrow> True | Some q \<Rightarrow> retry_failures (options ctx) \<and> \<not> successful q)"
proof -
  from run_started [OF assms(2)] assms(3) obtain plan st st' e where p: "invocations (config ctx) = Inr plan"
    and s: "start_run fp ctx dir plan = Inr st" and l: "run_loop ctx st plan = (st', e)"
    and d: "finish_run ctx seconds dir plan st st' e = (dir', r)" by blast
  note ids = plan_ids_distinct [OF assms(1) p]
  let ?todo = "todo (options ctx) (latest st) plan"
  obtain n where ex: "existing st' = existing st @ map (made ctx (summary_run_id (summary st))) (take n ?todo)"
    using run_loop_todo [OF l ids] by blast
  have lat: "latest st = latest_of (existing st)" using start_run_Inr [OF s] by (simp add: run_inv_def)
  have "distinct (map record_id (map (made ctx (summary_run_id (summary st))) (take n ?todo)))"
    using distinct_taken [OF ids] by (simp add: comp_def todo_def)
  moreover have "\<forall>r \<in> set (map (made ctx (summary_run_id (summary st))) (take n ?todo)). case map_of (latest_of (existing st)) (record_id r) of
       None \<Rightarrow> True | Some q \<Rightarrow> retry_failures (options ctx) \<and> \<not> successful q"
    using todo_case [of _ "options ctx" "latest st" plan] lat by (auto dest!: in_set_takeD)
  moreover have "raw_lines dir' = Some (map Some (existing st @ map (made ctx (summary_run_id (summary st))) (take n ?todo)))"
    using run_lines [OF s l ids] finish_run_files(1) [OF d] ex by simp
  moreover have "(resume (options ctx) \<longrightarrow>
        read_jsonl (case raw_lines dir of None \<Rightarrow> [] | Some ls \<Rightarrow> ls) = Inr (existing st)) \<and>
      (\<not> resume (options ctx) \<longrightarrow> existing st = [] \<and> raw_lines dir = None)"
    using start_run_Inr [OF s] by (simp split: if_splits)
  ultimately show ?thesis by blast
qed

text \<open>C27: A run that was stopped after any number of invocations (by an interrupt, by its time limit, or by
  an exception) and then resumed to its end has made exactly the invocations of the plan: the records of the two
  runs together are one per invocation, in the order of the plan, and the summary says completed.
\<close>

theorem resumed_run_completes_plan:
  assumes "config_wf (config ctx)"
    and "run digest fs fp s1 ctx \<lparr>raw_lines = None, summary_file = None, csv_file = csv\<rparr> = (dir1, r1)"
    and "raw_lines dir1 \<noteq> None"
    and "run digest fs fp s2 ctx' dir1 = (dir2, Inr PlanDone)"
    and "config ctx' = config ctx" and "\<not> resume (options ctx)"
    and "resume (options ctx')" and "\<not> retry_failures (options ctx')"
  shows "\<exists>plan rs s. invocations (config ctx) = Inr plan \<and> raw_lines dir2 = Some (map Some rs) \<and>
    map record_id rs = map invocation_id plan \<and> summary_file dir2 = Some s \<and> run_status s = ''completed''"
proof -
  have "dir1 \<noteq> \<lparr>raw_lines = None, summary_file = None, csv_file = csv\<rparr>" using assms(3) by auto
  with run_started [OF assms(2)] obtain plan st st' e1 where p: "invocations (config ctx) = Inr plan"
    and s: "start_run fp ctx \<lparr>raw_lines = None, summary_file = None, csv_file = csv\<rparr> plan = Inr st"
    and l: "run_loop ctx st plan = (st', e1)"
    and d: "finish_run ctx s1 \<lparr>raw_lines = None, summary_file = None, csv_file = csv\<rparr> plan st st' e1 = (dir1, r1)"
    by blast
  from run_started [OF assms(4)] p assms(5) obtain su su' where
    s': "start_run fp ctx' dir1 plan = Inr su" and l': "run_loop ctx' su plan = (su', PlanDone)"
    and d': "finish_run ctx' s2 dir1 plan su su' PlanDone = (dir2, Inr PlanDone)"
    using finish_run_Inr by (metis sum.inject(2))
  note ids = plan_ids_distinct [OF assms(1) p]
  have e0: "existing st = []" "latest st = []"
    using start_run_Inr [OF s] assms(6) by (simp_all add: run_inv_def)
  have all: "todo (options ctx) [] plan = plan" by (simp add: todo_def skipped_def)
  obtain n where ex: "existing st' = map (made ctx (summary_run_id (summary st))) (take n plan)"
    using run_loop_todo [OF l ids] e0 all by auto
  have lines: "raw_lines dir1 = Some (map Some (map (made ctx (summary_run_id (summary st))) (take n plan)))"
    using run_lines [OF s l ids] finish_run_files(1) [OF d] ex by simp
  have su: "existing su = map (made ctx (summary_run_id (summary st))) (take n plan)"
    using start_run_Inr [OF s'] assms(7) lines read_jsonl_made by (metis option.simps(5) sum.inject(2))
  have lat: "latest su = latest_of (map (made ctx (summary_run_id (summary st))) (take n plan))"
    using start_run_Inr [OF s'] su by (simp add: run_inv_def)
  have "skipped (options ctx') (latest su) i \<longleftrightarrow> invocation_id i \<in> set (map invocation_id (take n plan))" for i
  proof -
    have "map record_id (map (made ctx (summary_run_id (summary st))) (take n plan)) = map invocation_id (take n plan)" by simp
    then have "map_of (latest su) (invocation_id i) = None \<longleftrightarrow> invocation_id i \<notin> set (map invocation_id (take n plan))"
      using map_of_latest_None [of "map (made ctx (summary_run_id (summary st))) (take n plan)" "invocation_id i"] lat by (simp only:)
    then show ?thesis
      using assms(8) by (cases "map_of (latest su) (invocation_id i)") (simp_all add: skipped_def)
  qed
  then have "todo (options ctx') (latest su) plan =
      filter (\<lambda>i. invocation_id i \<notin> set (map invocation_id (take n plan))) (take n plan @ drop n plan)"
    by (simp add: todo_def)
  also have "\<dots> = drop n plan"
  proof -
    have "set (map invocation_id (take n plan)) \<inter> set (map invocation_id (drop n plan)) = {}"
      using ids by (metis append_take_drop_id distinct_append map_append)
    then show ?thesis unfolding filter_append by (auto simp: filter_empty_conv intro: filter_True)
  qed
  finally have td: "todo (options ctx') (latest su) plan = drop n plan" .
  obtain k where k: "existing su' = existing su @ map (made ctx' (summary_run_id (summary su))) (take k (drop n plan))"
    "k = length (drop n plan)"
    using run_loop_todo [OF l' ids] td by auto
  let ?rs = "map (made ctx (summary_run_id (summary st))) (take n plan) @ map (made ctx' (summary_run_id (summary su))) (drop n plan)"
  have rs: "existing su' = ?rs" using k su by simp
  have "map record_id ?rs = map invocation_id (take n plan @ drop n plan)"
    by (simp only: map_append list.map_comp comp_def record_id_made)
  then have rids: "map record_id ?rs = map invocation_id plan" by simp
  have "latest su' = latest_of ?rs"
    using run_loop_inv [OF start_run_inv [OF s'] l'] unfolding run_inv_def rs by blast
  then have "plan_complete plan (latest su')"
    unfolding plan_complete_def by (simp only: keys_latest_of rids) simp
  then have "\<exists>s. summary_file dir2 = Some s \<and> run_status s = ''completed''"
    using finish_run_files(2) [OF d'] by (simp add: leave_run_def final_status_def)
  moreover have "raw_lines dir2 = Some (map Some ?rs)"
    using run_lines [OF s' l' ids] finish_run_files(1) [OF d'] rs by simp
  ultimately show ?thesis using p rids by blast
qed


section \<open>Runs that end\<close>

text \<open>The loop over two parts of a plan.\<close>

lemma run_loop_append:
  "run_loop ctx st xs = (st', PlanDone) \<Longrightarrow> run_loop ctx st (xs @ ys) = run_loop ctx st' ys"
proof (induction ctx st xs rule: run_loop.induct)
  case (2 ctx st i "is")
  then show ?case by (auto split: if_splits run_end.splits)
qed simp

text \<open>Without a time limit, an interrupt or an exception the loop ends by itself.\<close>

lemma run_loop_ends:
  assumes "max_total_seconds (options ctx) = None" "\<forall>i \<in> set is. \<exists>r. outcome_of ctx i = Ended r"
  shows "\<exists>st'. run_loop ctx st is = (st', PlanDone)"
  using assms
proof (induction ctx st "is" rule: run_loop.induct)
  case (2 ctx st i "is")
  then obtain r where o: "outcome_of ctx i = Ended r" by auto
  have t: "\<not> out_of_time ctx i" using 2(3) by (simp add: out_of_time_def)
  show ?case
    using 2(1) 2(2) [OF _ t o] 2(3,4) o t by (cases "skipped (options ctx) (latest st) i") auto
qed simp

lemma run_starts:
  assumes "verify_models digest fs (config ctx) = None"
    and "smoke ctx \<longrightarrow> smoke_fixture (config ctx) \<noteq> None \<and> fixture ctx \<noteq> None"
    and "invocations (config ctx) = Inr plan" "start_run fp ctx dir plan = Inr st"
    and "run_loop ctx st plan = (st', e)"
  shows "run digest fs fp seconds ctx dir = finish_run ctx seconds dir plan st st' e"
  using assms by (auto simp: run_def reject_def)

text \<open>A fresh run starts with no records.\<close>

lemma start_fresh:
  assumes "\<not> resume (options ctx)" "raw_lines dir = None" "summary_file dir = None"
  obtains st where "start_run fp ctx dir plan = Inr st" "existing st = []" "latest st = []"
    "summary_run_id (summary st) = new_run_id ctx" "run_status (summary st) = ''running''" "run_inv st"
proof -
  obtain st where s: "start_run fp ctx dir plan = Inr st"
    using assms by (auto simp: start_run_def Let_def)
  with assms(1) have "summary_run_id (summary st) = new_run_id ctx"
    by (auto simp: start_run_def Let_def with_counts_def split: if_splits)
  moreover have "run_inv st" "run_status (summary st) = ''running''" "existing st = []"
    using start_run_Inr [OF s] assms(1) by simp_all
  moreover from this have "latest st = []" by (simp add: run_inv_def)
  ultimately show thesis using that s by blast
qed

lemma fresh_loop:
  assumes "max_total_seconds (options ctx) = None" "\<forall>i \<in> set is. \<exists>r. outcome_of ctx i = Ended r"
    and "distinct (map invocation_id is)" "latest st = []" "existing st = []"
  shows "\<exists>st'. run_loop ctx st is = (st', PlanDone) \<and> existing st' = map (made ctx (summary_run_id (summary st))) is"
proof -
  from run_loop_ends [OF assms(1,2)] obtain st' where l: "run_loop ctx st is = (st', PlanDone)" by blast
  moreover have "todo (options ctx) [] is = is" by (simp add: todo_def skipped_def)
  ultimately show ?thesis using run_loop_todo [OF l assms(3)] assms(4,5) by auto
qed

text \<open>A run that has started can be resumed under the same configuration.\<close>

lemma resume_starts:
  assumes "config_wf (config ctx)" "run digest fs fp seconds ctx dir = (dir', Inr e)"
    and "\<not> resume (options ctx)" "resume (options ctx')" "invocations (config ctx) = Inr plan"
  shows "\<exists>st. start_run fp ctx' dir' plan = Inr st"
proof -
  from run_started [OF assms(2)] assms(5) obtain st st' e' where s: "start_run fp ctx dir plan = Inr st"
    and l: "run_loop ctx st plan = (st', e')" and d: "finish_run ctx seconds dir plan st st' e' = (dir', Inr e)"
    by (metis sum.inject(2))
  note ids = plan_ids_distinct [OF assms(1,5)]
  obtain n where "existing st' = existing st @ map (made ctx (summary_run_id (summary st))) (take n (todo (options ctx) (latest st) plan))"
    using run_loop_todo [OF l ids] by blast
  then have "raw_lines dir' = Some (map Some (map (made ctx (summary_run_id (summary st))) (take n (todo (options ctx) (latest st) plan))))"
    using run_lines [OF s l ids] finish_run_files(1) [OF d] start_run_Inr [OF s] assms(3) by simp
  moreover have "map_option config_fingerprint (summary_file dir') = Some fp" "summary_file dir' \<noteq> None"
    using finish_run_files(2) [OF d] run_loop_planned [OF l] start_run_Inr [OF s] by (simp_all add: leave_run_def)
  ultimately show ?thesis
    using assms(4) read_jsonl_made by (auto simp: start_run_def Let_def)
qed

section \<open>Results\<close>

text \<open>The rows of records that are all of different invocations.\<close>

lemma normalized_made:
  assumes "distinct (map invocation_id is)"
  shows "normalized_records (map (made ctx rid) is) = Inr (concat (map (\<lambda>i. if warmup i then []
    else map (csv_row ctx i (result_of (outcome_of ctx i))) (fst (snd (judge (result_of (outcome_of ctx i)))))) is))"
proof -
  have "map record_id (map (made ctx rid) is) = map invocation_id is" by simp
  then have "map snd (latest_of (map (made ctx rid) is)) = map (made ctx rid) is"
    using assms by (metis latest_of_distinct)
  moreover have "rmap record_rows (map (made ctx rid) is) = Inr (map (\<lambda>i. if warmup i then []
      else map (csv_row ctx i (result_of (outcome_of ctx i))) (fst (snd (judge (result_of (outcome_of ctx i)))))) is)"
    by (induction "is") (simp_all add: made_def record_rows_own)
  ultimately show ?thesis by (simp add: normalized_records_def)
qed

lemma concat_map_filter: "concat (map (\<lambda>x. if P x then [] else f x) xs) = concat (map f (filter (\<lambda>x. \<not> P x) xs))"
  by (induction xs) auto

text \<open>C29: A fresh run in which every child succeeds ends by itself with exit status completed, and its CSV
  file has, for every measured invocation in the order of the plan and for every row of the table that
  the invocation printed, exactly one row: the parsed row with the data of the invocation. Warm-up
  runs are recorded and counted, but have no row.
\<close>

theorem complete_run_reports_every_measurement:
  assumes "config_wf (config ctx)" and "invocations (config ctx) = Inr plan"
    and "verify_models digest fs (config ctx) = None"
    and "smoke ctx \<longrightarrow> smoke_fixture (config ctx) \<noteq> None \<and> fixture ctx \<noteq> None"
    and "\<not> resume (options ctx)" and "max_total_seconds (options ctx) = None"
    and "raw_lines dir = None" and "summary_file dir = None"
    and "\<forall>i \<in> set plan. outcome_of ctx i = Ended (res i) \<and> judge (res i) = (''success'', rows i, None)"
  shows "\<exists>dir' s. run digest fs fp seconds ctx dir = (dir', Inr PlanDone) \<and>
    csv_file dir' = Some (False, concat (map (\<lambda>i. map (csv_row ctx i (res i)) (rows i))
      (filter (\<lambda>i. \<not> warmup i) plan))) \<and>
    summary_file dir' = Some s \<and> run_status s = ''completed'' \<and>
    successful_invocations s = length plan \<and> failed_invocations s = 0"
proof -
  note ids = plan_ids_distinct [OF assms(1,2)]
  obtain st where s: "start_run fp ctx dir plan = Inr st" and fresh: "existing st = []" "latest st = []"
    and inv: "run_inv st" using start_fresh [OF assms(5,7,8)] by metis
  have ends: "\<forall>i \<in> set plan. \<exists>r. outcome_of ctx i = Ended r" using assms(9) by blast
  obtain st' where l: "run_loop ctx st plan = (st', PlanDone)"
    and ex: "existing st' = map (made ctx (summary_run_id (summary st))) plan"
    using fresh_loop [OF assms(6) ends ids fresh(2,1)] by blast
  let ?rs = "existing st'" and ?d = "latest st'" and ?s = "summary st'"
  have lat: "?d = latest_of ?rs" and cnt: "with_counts ?d ?s = ?s"
    using run_loop_inv [OF inv l] unfolding run_inv_def by blast+
  have keys: "map record_id ?rs = map invocation_id plan" using ex by simp
  have whole: "plan_complete plan ?d" unfolding plan_complete_def lat keys_latest_of keys by simp
  have recs: "map snd ?d = ?rs" unfolding lat by (rule latest_of_distinct) (simp only: keys ids)
  then have len: "length ?d = length plan" using ex by (metis length_map)
  have "\<forall>r \<in> set ?rs. successful r"
    using assms(9) ex by (auto simp: successful_def made_def record_fields)
  then have "\<forall>(k, r) \<in> set ?d. successful r" using recs by (metis (no_types, lifting) case_prodI2 in_set_zip snd_conv zip_map_fst_snd list.set_map image_eqI)
  then have "filter (\<lambda>(_, r). successful r) ?d = ?d" by (intro filter_True) auto
  then have counts: "successful_invocations ?s = length plan" "failed_invocations ?s = 0"
    by (subst cnt [symmetric], simp add: with_counts_def Let_def len)+
  have "normalized_records ?rs = Inr (concat (map (\<lambda>i. map (csv_row ctx i (res i)) (rows i)) (filter (\<lambda>i. \<not> warmup i) plan)))"
    using assms(9) unfolding ex normalized_made [OF ids] concat_map_filter
    by (intro arg_cong [where f = "\<lambda>x. Inr (concat x)"] map_cong) auto
  then have "\<exists>dir'. finish_run ctx seconds dir plan st st' PlanDone = (dir', Inr PlanDone) \<and>
      csv_file dir' = Some (False, concat (map (\<lambda>i. map (csv_row ctx i (res i)) (rows i)) (filter (\<lambda>i. \<not> warmup i) plan))) \<and>
      summary_file dir' = Some (?s\<lparr>total_elapsed := seconds, run_status := ''completed''\<rparr>)"
    using whole by (simp add: finish_run_def leave_run_def final_status_def)
  with counts show ?thesis unfolding run_starts [OF assms(3,4,2) s l] by fastforce
qed

text \<open>C32: When the output of an invocation cannot be decoded, the exception ends the program in the middle of
  the plan. The records of the invocations before it are kept and the CSV file is left as it was,
  but the summary stays at running, although nothing runs any more.
\<close>

theorem crash_keeps_records:
  assumes "config_wf (config ctx)" and "invocations (config ctx) = Inr (made_before @ i # rest)"
    and "verify_models digest fs (config ctx) = None" and "\<not> smoke ctx"
    and "\<not> resume (options ctx)" and "max_total_seconds (options ctx) = None"
    and "raw_lines dir = None" and "summary_file dir = None"
    and "\<forall>j \<in> set made_before. \<exists>r. outcome_of ctx j = Ended r"
    and "child_end (turn_of ctx i) = Finished out err code" and "\<not> (utf8_valid out \<and> utf8_valid err)"
    and "\<exists>j \<in> set (i # rest). \<not> warmup j"
  shows "\<exists>dir' s. run digest fs fp seconds ctx dir = (dir', Inl UnicodeDecodeError) \<and>
    raw_lines dir' = Some (map (\<lambda>j. Some (record_of ctx (new_run_id ctx) j (result_of (outcome_of ctx j)))) made_before) \<and>
    csv_file dir' = csv_file dir \<and> summary_file dir' = Some s \<and> run_status s = ''running''"
proof -
  let ?plan = "made_before @ i # rest"
  note ids = plan_ids_distinct [OF assms(1,2)]
  obtain st where s: "start_run fp ctx dir ?plan = Inr st" and fresh: "existing st = []" "latest st = []"
    and rid: "summary_run_id (summary st) = new_run_id ctx" and run: "run_status (summary st) = ''running''"
    and inv: "run_inv st" using start_fresh [OF assms(5,7,8)] by metis
  obtain st' where l: "run_loop ctx st made_before = (st', PlanDone)"
    and ex: "existing st' = map (made ctx (new_run_id ctx)) made_before"
    using fresh_loop [OF assms(6,9) _ fresh(2,1)] ids rid by auto
  have lat: "latest st' = latest_of (existing st')" using run_loop_inv [OF inv l] by (simp add: run_inv_def)
  have keys: "set (map fst (latest st')) = set (map invocation_id made_before)"
    unfolding lat keys_latest_of ex by (simp add: image_image)
  have later: "invocation_id j \<notin> set (map invocation_id made_before)" if "j \<in> set (i # rest)" for j
    using ids that by auto
  then have "map_of (latest st') (invocation_id i) = None"
    unfolding map_of_eq_None_iff set_map [symmetric] keys by simp
  then have new: "\<not> skipped (options ctx) (latest st') i" by (simp add: skipped_def)
  have "outcome_of ctx i = Raised UnicodeDecodeError"
    using assms(4,10,11) by (simp add: outcome_of_def execute_def read_streams_eq)
  then have l': "run_loop ctx st ?plan = (st', Crashed UnicodeDecodeError)"
    using run_loop_append [OF l, of "i # rest"] new assms(6) by (simp add: out_of_time_def)
  have part: "\<not> plan_complete ?plan (latest st')"
    using assms(12) later unfolding plan_complete_def keys by fastforce
  have "run_status (summary st') = ''running''" using run_loop_status [OF l] run by simp
  then have "finish_run ctx seconds dir ?plan st st' (Crashed UnicodeDecodeError) =
      (leave_run seconds dir ?plan st st' (Crashed UnicodeDecodeError), Inl UnicodeDecodeError)"
    "final_status (Crashed UnicodeDecodeError) (plan_complete ?plan (latest st')) (run_status (summary st')) = ''running''"
    using part by (simp_all add: finish_run_def Let_def final_status_def)
  moreover have "smoke ctx \<longrightarrow> smoke_fixture (config ctx) \<noteq> None \<and> fixture ctx \<noteq> None" using assms(4) by simp
  ultimately show ?thesis
    using run_starts [OF assms(3) _ assms(2) s l'] ex fresh(1) assms(7)
    by (simp add: leave_run_def made_def comp_def)
qed

section \<open>Exit codes\<close>

lemma outcome_raised: "outcome_of ctx i = Raised e \<Longrightarrow> e = UnicodeDecodeError"
  by (auto simp: outcome_of_def execute_def read_streams_Inl split: if_splits sum.splits child.splits)

lemma run_loop_crash: "run_loop ctx st is = (st', Crashed e) \<Longrightarrow> e = UnicodeDecodeError"
proof (induction ctx st "is" rule: run_loop.induct)
  case (2 ctx st i "is")
  then show ?case by (auto dest: outcome_raised split: if_splits run_end.splits)
qed simp

lemma run_loop_in_time:
  "run_loop ctx st is = (st', OutOfTime) \<Longrightarrow> max_total_seconds (options ctx) \<noteq> None"
proof (induction ctx st "is" rule: run_loop.induct)
  case (2 ctx st i "is")
  then show ?case by (auto simp: out_of_time_def split: if_splits run_end.splits option.splits)
qed simp

text \<open>Making the rows raises no error of the configuration.\<close>

definition no_config_error :: "'a res \<Rightarrow> bool" where
  "no_config_error r \<longleftrightarrow> (\<forall>m. r \<noteq> Inl (ConfigError m))"

lemma no_config_error_intros [intro]:
  "no_config_error (Inr x)" "no_config_error (Inl (TypeError t))" "no_config_error (Inl (KeyError t))"
  "no_config_error r \<Longrightarrow> (\<And>x. no_config_error (f x)) \<Longrightarrow> no_config_error (rbind r f)"
  by (auto simp: no_config_error_def rbind_Inl_iff)

lemma no_config_error_rmap [intro]: "(\<And>x. no_config_error (f x)) \<Longrightarrow> no_config_error (rmap f xs)"
  by (induction xs) auto

lemma no_config_error_readers [intro]: "no_config_error (subscript v k)" "no_config_error (iterate v)"
  by (auto simp: subscript_def iterate_def split: json.split option.split)

lemma normalized_error: "no_config_error (normalized_records rs)"
proof -
  have "no_config_error (normal_row r c v)" for r c v
    by (simp only: normal_row_def split: if_split) (intro conjI impI no_config_error_intros no_config_error_readers)
  then have "no_config_error (record_rows r)" for r
    by (simp only: record_rows_def split: if_split)
      (intro conjI impI no_config_error_intros no_config_error_readers no_config_error_rmap)
  then show ?thesis by (auto simp: normalized_records_def)
qed

text \<open>An error of the configuration leaves the directory untouched.\<close>

lemma run_config_error:
  assumes "run digest fs fp seconds ctx dir = (dir', Inl (ConfigError m))"
  shows "dir' = dir"
proof (rule ccontr)
  assume "dir' \<noteq> dir"
  then obtain plan st st' e where l: "run_loop ctx st plan = (st', e)"
    and d: "finish_run ctx seconds dir plan st st' e = (dir', Inl (ConfigError m))"
    by (rule run_started [OF assms, OF disjI1])
  have "normalized_records (existing st') \<noteq> Inl (ConfigError m)" using normalized_error [of "existing st'"] by (simp add: no_config_error_def)
  moreover have "e \<noteq> Crashed (ConfigError m)" using run_loop_crash l by blast
  ultimately show False using d by (auto simp: finish_run_def Let_def split: sum.splits loop_end.splits)
qed

text \<open>The status of the summary when a run returns.\<close>

lemma run_status_end:
  assumes "config_wf (config ctx)" "run digest fs fp seconds ctx dir = (dir', Inr e)"
  shows "\<exists>s. summary_file dir' = Some s \<and>
    (if e = Interrupted then run_status s = ''interrupted''
     else if max_total_seconds (options ctx) = None then run_status s = ''completed''
     else run_status s \<in> {''completed'', ''failed''})"
proof -
  from run_started [OF assms(2)] obtain plan st st' where p: "invocations (config ctx) = Inr plan"
    and s: "start_run fp ctx dir plan = Inr st" and l: "run_loop ctx st plan = (st', e)"
    and d: "finish_run ctx seconds dir plan st st' e = (dir', Inr e)" using finish_run_Inr by metis
  have inv: "run_inv st" using start_run_Inr [OF s] by simp
  have "plan_complete plan (latest st')" if "e = PlanDone"
  proof -
    have lat: "latest st' = latest_of (existing st')" using run_loop_inv [OF inv l] by (simp add: run_inv_def)
    show ?thesis
      using run_loop_records [OF l [unfolded that] plan_ids_distinct [OF assms(1) p]] inv
      unfolding plan_complete_def lat keys_latest_of run_inv_def by blast
  qed
  moreover have "run_status (summary st') = (if e = OutOfTime then ''failed'' else ''running'')"
    using run_loop_status [OF l] start_run_Inr [OF s] by simp
  moreover have "e = OutOfTime \<Longrightarrow> max_total_seconds (options ctx) \<noteq> None" using run_loop_in_time l by blast
  ultimately show ?thesis
    using finish_run_files(2) [OF d] finish_run_Inr [OF d] by (cases e) (auto simp: leave_run_def final_status_def)
qed


section \<open>Sample runs\<close>

text \<open>The plan of the sample configuration: a warm-up run and two measured ones.\<close>

lemma sample_plan:
  "\<exists>w a b. invocations sample_config = Inr [w, a, b] \<and> warmup w \<and> \<not> warmup a \<and> \<not> warmup b \<and>
     number w = 1 \<and> number a = 2"
proof -
  have c: "explicit_cases sample_config = None" "threads_axis sample_config = [2]" "prompt_tokens_axis sample_config = [8]"
    "generated_tokens_axis sample_config = [4]" "batch_sizes sample_config = [32]" "context_sizes sample_config = [16]"
    "ubatch_sizes sample_config = [512]" "kv_cache_variants sample_config = [(''f16'', ''f16'')]"
    "repetitions sample_config = 2" "warmup_runs sample_config = 1" "models sample_config = [legacy_model (path_of ''m'')]"
    by (simp_all add: sample_config_def config_of_def sample_raw_def ints_of_def variants_of_def variant_pair_def
        jget_default_JObj)
  obtain k where k: "all_cases sample_config = [k]" by (simp add: all_cases_def base_cases_def c)
  obtain plan where p: "invocations sample_config = Inr plan" using sample_invocations ..
  have "plan_specs sample_config [k] = [(legacy_model (path_of ''m''), k, True, 1),
      (legacy_model (path_of ''m''), k, False, 1), (legacy_model (path_of ''m''), k, False, 2)]"
    by (simp add: plan_specs_def c upto.simps)
  with p [unfolded invocations_Inr] have "\<exists>w a b. plan = [w, a, b] \<and> warmup w \<and> \<not> warmup a \<and> \<not> warmup b \<and>
      number w = 1 \<and> number a = 2"
    by (simp add: k enumerate1_def upt_rec)
  with p show ?thesis by auto
qed

lemma sample_models_unchecked: "verify_models d fs sample_config = None"
  by (simp add: verify_models_def sample_config_def config_of_def sample_raw_def legacy_model_def)

lemma sample_wf: "config_wf sample_config"
  by (rule loaded_wf [OF sample_loaded])

definition sample_turn :: turn where
  "sample_turn = \<lparr>elapsed_before = Fin 0, started_at = ''a'', completed_at = ''b'',
     child_end = Finished [] [] 1, child_seconds = Fin 1, elapsed_after = Fin 1\<rparr>"

text \<open>A first run that is interrupted in its second invocation, and the run that resumes it.\<close>

definition first_context :: bench_context where
  "first_context = \<lparr>config = sample_config,
     options = \<lparr>resume = False, retry_failures = False, force_resume = False, allow_partial_analysis = False,
       write_csv = False, max_total_seconds = None\<rparr>,
     environment = JNull, new_run_id = ''r'', smoke = False, fixture = None,
     turn_of = \<lambda>i. if number i = 2 then sample_turn\<lparr>child_end := Stopped\<rparr> else sample_turn\<rparr>"

definition second_context :: bench_context where
  "second_context = first_context\<lparr>options := (options first_context)\<lparr>resume := True\<rparr>, turn_of := \<lambda>_. sample_turn\<rparr>"

abbreviation empty_dir :: run_dir where
  "empty_dir \<equiv> \<lparr>raw_lines = None, summary_file = None, csv_file = None\<rparr>"

lemma first_context_fields [simp]:
  "config first_context = sample_config" "\<not> resume (options first_context)" "max_total_seconds (options first_context) = None"
  "\<not> smoke first_context" "new_run_id first_context = ''r''" "\<not> retry_failures (options first_context)"
  by (simp_all add: first_context_def)

lemma second_context_fields [simp]:
  "config second_context = sample_config" "resume (options second_context)" "max_total_seconds (options second_context) = None"
  "\<not> smoke second_context" "\<not> retry_failures (options second_context)"
  by (simp_all add: second_context_def)

lemma sample_turn_ends: "\<exists>r. execute (child_end sample_turn) (child_seconds sample_turn) = Ended r"
  by (simp add: sample_turn_def execute_def read_streams_eq)

text \<open>The rows of records the program wrote can always be made.\<close>

lemma latest_of_subset: "snd ` set (latest_of rs) \<subseteq> set rs"
proof (induction rs rule: rev_induct)
  case (snoc r rs)
  have put: "p \<in> set (al_put k v d) \<Longrightarrow> p \<in> set d \<or> snd p = v" for p k v d
    by (induction d) (auto split: if_splits)
  show ?case
  proof
    fix x assume "x \<in> snd ` set (latest_of (rs @ [r]))"
    then obtain p where "p \<in> set (al_put (record_id r) r (latest_of rs))" "x = snd p" by auto
    with put snoc show "x \<in> set (rs @ [r])" by (metis Un_iff imageI insert_iff list.set(2) set_append subsetD)
  qed
qed simp

definition own_record :: "json \<Rightarrow> bool" where
  "own_record r \<longleftrightarrow> (\<exists>ctx rid i x. r = record_of ctx rid i x)"

lemma own_made [simp]: "own_record (made ctx rid i)"
  unfolding own_record_def made_def by blast

lemma finish_own:
  assumes "\<forall>r \<in> set (existing st'). own_record r" "\<And>x. e \<noteq> Crashed x"
  shows "\<exists>dir'. finish_run ctx seconds dir plan st st' e = (dir', Inr e)"
proof -
  have "\<exists>rows. record_rows r = Inr rows" if "own_record r" for r
    using that record_rows_own unfolding own_record_def by auto
  moreover have "own_record r" if "r \<in> set (map snd (latest_of (existing st')))" for r
    using that assms(1) latest_of_subset [of "existing st'"] by auto
  ultimately have "\<forall>r \<in> set (map snd (latest_of (existing st'))). \<exists>rows. record_rows r = Inr rows" by simp
  then have "\<forall>r \<in> set (map snd (latest_of (existing st'))). record_rows r = Inr (projr (record_rows r))"
    by (metis sum.sel(2))
  from rmap_Inr_id [OF this] obtain rows where "normalized_records (existing st') = Inr rows"
    by (simp add: normalized_records_def)
  with assms(2) show ?thesis by (cases e) (auto simp: finish_run_def Let_def)
qed

lemma run_leaves_lines:
  assumes "run digest fs fp seconds ctx dir = (dir', Inr e)"
  shows "raw_lines dir' \<noteq> None"
proof -
  obtain plan st st' e' where "finish_run ctx seconds dir plan st st' e' = (dir', Inr e)"
    by (rule run_started [OF assms]) auto
  from finish_run_files(1) [OF this] show ?thesis by (simp add: leave_run_def)
qed

lemma first_run: "\<exists>dir. run d fs ''f'' (Fin 1) first_context empty_dir = (dir, Inr Interrupted)"
proof -
  obtain w a b where p: "invocations sample_config = Inr [w, a, b]" and n: "number w = 1" "number a = 2"
    using sample_plan by blast
  have ids: "distinct (map invocation_id [w, a, b])" by (rule plan_ids_distinct [OF sample_wf p])
  obtain st where s: "start_run ''f'' first_context empty_dir [w, a, b] = Inr st"
    and fresh: "existing st = []" "latest st = []" "run_inv st"
    using start_fresh [of first_context empty_dir "''f''" "[w, a, b]"] by auto
  have "\<exists>r. outcome_of first_context w = Ended r"
    using sample_turn_ends n by (simp add: outcome_of_def first_context_def)
  then obtain st' where l: "run_loop first_context st [w] = (st', PlanDone)"
    and ex: "existing st' = map (made first_context (summary_run_id (summary st))) [w]"
    using fresh_loop [of first_context "[w]" st] fresh by auto
  have "latest st' = latest_of (existing st')" using run_loop_inv [OF fresh(3) l] by (simp add: run_inv_def)
  then have "map_of (latest st') (invocation_id a) = None" using ids ex by (auto simp: map_of_latest_None)
  moreover have "outcome_of first_context a = Interrupt"
    using n by (simp add: outcome_of_def first_context_def execute_def)
  ultimately have "run_loop first_context st ([w] @ [a, b]) = (st', Interrupted)"
    unfolding run_loop_append [OF l] by (simp add: skipped_def out_of_time_def)
  with finish_own [of st' Interrupted] ex run_starts [OF _ _ _ s, of d fs st' Interrupted "Fin 1"] p sample_models_unchecked
  show ?thesis by simp
qed

lemma second_run:
  assumes "run d fs ''f'' (Fin 1) first_context empty_dir = (dir, Inr Interrupted)"
  shows "\<exists>dir'. run d fs ''f'' (Fin 2) second_context dir = (dir', Inr PlanDone)"
proof -
  obtain plan where p: "invocations sample_config = Inr plan" using sample_invocations ..
  note ids = plan_ids_distinct [OF sample_wf p]
  obtain st where s: "start_run ''f'' second_context dir plan = Inr st"
    using resume_starts [OF _ assms, of second_context plan] sample_wf p by auto
  obtain st' where l: "run_loop second_context st plan = (st', PlanDone)"
    using run_loop_ends [of second_context plan st] sample_turn_ends
    by (auto simp: second_context_def outcome_of_def first_context_def)
  from run_started [OF assms] p obtain su su' e where s1: "start_run ''f'' first_context empty_dir plan = Inr su"
    and l1: "run_loop first_context su plan = (su', e)"
    and d1: "finish_run first_context (Fin 1) empty_dir plan su su' e = (dir, Inr Interrupted)"
    by (metis first_context_fields(1) sum.inject(2))
  have "\<exists>is. existing su' = map (made first_context (summary_run_id (summary su))) is"
    using run_loop_todo [OF l1 ids] start_run_Inr [OF s1] by auto
  moreover have "existing st = existing su'"
    using start_run_Inr [OF s] run_lines [OF s1 l1 ids] finish_run_files(1) [OF d1] calculation read_jsonl_made by auto
  ultimately have "\<forall>r \<in> set (existing st'). own_record r"
    using run_loop_todo [OF l ids] by auto
  from finish_own [OF this, of PlanDone] run_starts [OF _ _ _ s l] p sample_models_unchecked
  show ?thesis by simp
qed

lemma run_repeats_nothing_witness:
  "\<exists>dir new. run (\<lambda>c. c) Map.empty ''f'' (Fin 1) first_context empty_dir = (dir, Inr Interrupted) \<and>
     raw_lines dir = Some (map Some new) \<and> distinct (map record_id new)"
proof -
  obtain dir where r: "run (\<lambda>c. c) Map.empty ''f'' (Fin 1) first_context empty_dir = (dir, Inr Interrupted)"
    using first_run by blast
  have "raw_lines dir \<noteq> None"
    by (rule run_leaves_lines [OF r])
  then have "dir \<noteq> empty_dir" by auto
  from run_repeats_nothing [OF _ r this] r sample_wf show ?thesis by auto
qed

lemma resumed_run_completes_plan_witness:
  "\<exists>dir1 dir2 plan rs. run (\<lambda>c. c) Map.empty ''f'' (Fin 1) first_context empty_dir = (dir1, Inr Interrupted) \<and>
     run (\<lambda>c. c) Map.empty ''f'' (Fin 2) second_context dir1 = (dir2, Inr PlanDone) \<and>
     invocations sample_config = Inr plan \<and> raw_lines dir2 = Some (map Some rs) \<and>
     map record_id rs = map invocation_id plan"
proof -
  obtain dir1 where r1: "run (\<lambda>c. c) Map.empty ''f'' (Fin 1) first_context empty_dir = (dir1, Inr Interrupted)"
    using first_run by blast
  obtain dir2 where r2: "run (\<lambda>c. c) Map.empty ''f'' (Fin 2) second_context dir1 = (dir2, Inr PlanDone)"
    using second_run [OF r1] ..
  have "raw_lines dir1 \<noteq> None"
    by (rule run_leaves_lines [OF r1])
  with resumed_run_completes_plan [OF _ r1 _ r2] r1 r2 sample_wf show ?thesis by simp metis
qed


text \<open>The second invocation prints a byte that is no UTF-8.\<close>

definition crash_context :: bench_context where
  "crash_context = first_context\<lparr>turn_of := \<lambda>i. if number i = 2
     then sample_turn\<lparr>child_end := Finished [CHR 0xFF] [] 0\<rparr> else sample_turn\<rparr>"

lemma crash_keeps_records_witness:
  "\<exists>dir s r. run (\<lambda>c. c) Map.empty ''f'' (Fin 1) crash_context empty_dir = (dir, Inl UnicodeDecodeError) \<and>
     raw_lines dir = Some [Some r] \<and> summary_file dir = Some s \<and> run_status s = ''running''"
proof -
  obtain w a b where p: "invocations sample_config = Inr [w, a, b]" and n: "number w = 1" "number a = 2" "\<not> warmup a"
    using sample_plan by blast
  have c: "config crash_context = sample_config" "\<not> smoke crash_context" "\<not> resume (options crash_context)"
    "max_total_seconds (options crash_context) = None" by (simp_all add: crash_context_def)
  have "invocations (config crash_context) = Inr ([w] @ a # [b])" using p c by simp
  moreover have "\<forall>j \<in> set [w]. \<exists>r. outcome_of crash_context j = Ended r"
    using sample_turn_ends n by (simp add: outcome_of_def crash_context_def)
  moreover have "child_end (turn_of crash_context a) = Finished [CHR 0xFF] [] 0"
    using n by (simp add: crash_context_def)
  moreover have "\<not> (utf8_valid [CHR 0xFF] \<and> utf8_valid [])" by (simp add: utf8_lead_def)
  moreover have "\<exists>j \<in> set (a # [b]). \<not> warmup j" using n by simp
  ultimately show ?thesis
    using crash_keeps_records [of crash_context "[w]" a "[b]" "\<lambda>c. c" Map.empty empty_dir "[CHR 0xFF]" "[]" 0 "''f''" "Fin 1"]
      c sample_wf sample_models_unchecked by auto
qed

text \<open>Every child prints a table of one measurement.\<close>

definition sample_result :: run_result where
  "sample_result = \<lparr>out_text = print_bench [] [] [] [sample_decode\<lparr>ms_further := []\<rparr>], err_text = [], exit_code = Some 0,
     run_seconds = Fin 1, timed_out = False\<rparr>"

definition good_context :: bench_context where
  "good_context = first_context\<lparr>turn_of := \<lambda>_. sample_turn\<lparr>child_end := Finished (out_text sample_result) [] 0\<rparr>\<rparr>"

lemma sample_output: "utf8_valid (out_text sample_result)" "newlines (out_text sample_result) = out_text sample_result"
  by code_simp+

lemma complete_run_reports_every_measurement_witness:
  "\<exists>dir a b s. run (\<lambda>c. c) Map.empty ''f'' (Fin 1) good_context empty_dir = (dir, Inr PlanDone) \<and>
     csv_file dir = Some (False, [csv_row good_context a sample_result (group_row [sample_decode\<lparr>ms_further := []\<rparr>]),
       csv_row good_context b sample_result (group_row [sample_decode\<lparr>ms_further := []\<rparr>])]) \<and>
     summary_file dir = Some s \<and> successful_invocations s = 3"
proof -
  let ?e = "sample_decode\<lparr>ms_further := []\<rparr>"
  obtain w a b where p: "invocations sample_config = Inr [w, a, b]" and n: "warmup w" "\<not> warmup a" "\<not> warmup b"
    using sample_plan by blast
  have c: "config good_context = sample_config" "\<not> smoke good_context" "\<not> resume (options good_context)"
    "max_total_seconds (options good_context) = None" by (simp_all add: good_context_def)
  have out: "outcome_of good_context i = Ended sample_result" for i
    using sample_output
    by (simp add: outcome_of_def good_context_def execute_def read_streams_eq sample_turn_def) (simp add: sample_result_def)
  have "printable_table [] [?e]"
    using sample_printable(1) by (simp add: printable_table_def sample_decode_def)
  then have "parse_llama_bench (out_text sample_result) = Inr [group_row [?e]]"
    using printed_table_parses [of "[]" "[?e]" "[]" "[]"]
    by (simp add: sample_result_def no_table_def in_first_order_def group_of_def)
  then have j: "judge sample_result = (''success'', [group_row [?e]], None)"
    by (simp add: judge_def) (simp add: sample_result_def)
  show ?thesis
    using complete_run_reports_every_measurement [of good_context "[w, a, b]" "\<lambda>c. c" Map.empty empty_dir
        "\<lambda>_. sample_result" "\<lambda>_. [group_row [?e]]" "''f''" "Fin 1"] p n c out j sample_wf sample_models_unchecked
    by (simp add: numeral_3_eq_3) metis
qed

end
