(* ===== verification/Spec2Isabelle.thy ===== *)
theory Spec2Isabelle
  imports Serving_Metrics Workload Perf_Probe Build_Verification Model_Config Bench_Run
begin

text \<open>
  A verification development for the Python program of the LLM inference optimization lab: the
  scripts that fetch models and check the machine (\<open>scripts/\<close>), and the contracts of the serving
  benchmark (\<open>benchmarks/serving_common.py\<close>) and the durable run of a llama-bench matrix
  (\<open>benchmarks/run_llama_bench.py\<close>).

  \<^bold>\<open>The program\<close>

  The lab downloads quantized models (\<open>scripts/download_model.py\<close>), checks that a llama.cpp build has
  its executables (\<open>scripts/verify_llama_cpp_build.py\<close>) and which \<open>perf\<close> events the machine supports
  (\<open>scripts/probe_perf_events.py\<close>). Its serving benchmark generates workloads, runs a native simulator
  on them, and validates and analyses the stream of records the simulator prints; the contracts
  between these steps are in \<open>benchmarks/serving_common.py\<close>. \<open>run_llama_bench.py\<close> plans a matrix of invocations
  and runs it so that it can be stopped and resumed. The scripts share no code with the
  benchmarks.

  \<^bold>\<open>Theories\<close>

  \<^item> \<open>Prelude\<close>: Python's exceptions, checks and results, decimal rendering, and the locale
    \<open>unique_scan\<close> of the loops that reject duplicates.
  \<^item> \<open>Py_Float\<close>, \<open>Py_Json\<close>, \<open>Py_Text\<close>: binary64 numbers, JSON values with Python's equality, and texts
    as their UTF-8 bytes (paths, \<open>strip\<close>, \<open>lower\<close>, \<open>int\<close>, decoding, \<open>json.dumps\<close>).
  \<^item> \<open>Py_Process\<close>: ends of processes, the map of files, and the locale \<open>roster\<close>: one probe per name of
    a table, in order, the first exception ends the loop. It is interpreted on \<open>probe_event\<close> and on
    \<open>verify_executable\<close>.
  \<^item> \<open>Model_Download\<close>: \<open>sha256_file\<close>, \<open>source_url\<close>, \<open>metadata_for\<close>, \<open>_write_metadata\<close>, \<open>download_model\<close>. The
    state is the map of files; \<open>fetch\<close> is the \<open>try\<close> block of a transfer, \<open>download_existing\<close> and
    \<open>download_fresh\<close> the two branches. The network, the digest, the JSON reader and the clock are the
    record \<open>world\<close>.
  \<^item> \<open>Model_Config\<close>: \<open>load_model_config\<close>, \<open>download_config\<close> and \<open>main\<close> of the same script.
  \<^item> \<open>Build_Verification\<close>: \<open>verify_executable\<close>, \<open>verify_build\<close>, \<open>print_result\<close>, \<open>parse_args\<close>, \<open>main\<close> of
    \<open>scripts/verify_llama_cpp_build.py\<close>.
  \<^item> \<open>Perf_Probe\<close>: \<open>classify_probe\<close>, \<open>probe_event\<close>, \<open>run_probe\<close>, \<open>render_markdown\<close>, \<open>main\<close> of
    \<open>scripts/probe_perf_events.py\<close>.
  \<^item> \<open>Serving_Schema\<close>, \<open>Serving_Config\<close>: schema constants, field checkers, \<open>validate_serving_config\<close>,
    \<open>resolve_repo_path\<close> and the provenance checks.
  \<^item> \<open>Native_Request\<close>, \<open>Native_Iteration\<close>, \<open>Native_Summary\<close>: \<open>validate_native_records\<close>, one theory per
    kind of record; \<open>Request_Lifecycle\<close> is the abstract state machine of a request, with the request
    checks as its refinement; \<open>Native_Stream\<close> and \<open>Native_Results\<close> hold what an accepted stream promises.
  \<^item> \<open>Serving_Metrics\<close>: \<open>nearest_rank\<close>, \<open>safe_rate\<close>, the queue sweep, the objectives, \<open>analyze_records\<close>.
  \<^item> \<open>Bench_Plan\<close>, \<open>Bench_Parse\<close>, \<open>Bench_Records\<close>, \<open>Bench_Run\<close>: \<open>load_config\<close>, \<open>cases\<close>, \<open>invocations\<close>,
    \<open>build_command\<close>; the parsers of the program's output with Python's \<open>float\<close> and \<open>splitlines\<close>;
    \<open>execute\<close>, the records and the rows of the CSV file; \<open>run\<close> with its record file, its summary and its
    resumption, and \<open>main\<close>. The state of a run is a \<open>run_state\<close>, that of its output directory a \<open>run_dir\<close>;
    what happens in one invocation is a \<open>turn\<close>.
  \<^item> \<open>Workload\<close>: \<open>_arrival_times\<close>, \<open>generate_records\<close>, \<open>validate_workload_record\<close>, \<open>read_workload\<close>.

  \<^bold>\<open>What is shown\<close>

  \<^item> Download: a download that returns leaves a verified, nonempty model with exactly its metadata
    beside it; one that raises damages nothing and leaves no unverified model (with one exception
    that is stated); an interrupted transfer that is run again ends as one that was not
    interrupted; a second run changes only the time stamp; an accepted URL determines the request;
    a configuration is accepted exactly when it names three compatible quantizations, and when
    its download returns every model is in place. A complete partial file is never promoted.
  \<^item> Build and probe scripts: the exit codes mean what they say; the reports have one entry per
    executable and per event; classification follows a table of precedence; which exceptions
    escape; nothing but the named executables is run.
  \<^item> llama-bench matrix: an accepted configuration is well formed (\<open>loaded_wf\<close>); its plan is complete and its
    identifiers are unique; a run never repeats a success; a stopped run that is resumed makes exactly the
    plan; the summary agrees with the record file; the table that llama-bench prints is read back; when
    every child succeeds the CSV file has exactly the measured rows; the exit codes mean what they say; an
    undecodable output ends the program and leaves the summary at running.
  \<^item> Serving benchmark: an accepted request record is the trace of a run of the request life cycle
    and conversely; requests, iterations and summary of an accepted stream agree (tokens, KV
    blocks, counts, order); the metrics are those of the accepted stream (order statistics, queue
    depth as an integral, objectives, totality); generated workloads are valid and are read back.

  \<^bold>\<open>Bounds and conventions\<close>

  Python integers are \<open>int\<close>, floats are exact rationals rounded as binary64 does, dictionaries are
  association lists in insertion order. No definition uses fuel: every loop is a structural
  recursion, or has a measure (the chunks of a file). A text is represented by its UTF-8 bytes,
  which is what the locale of the processes is taken to be. An exception carries its message
  without the parts that only render the offending value.

  \<^bold>\<open>Not modelled\<close>

  Directories, permissions and disk errors outside a transfer; \<open>argparse\<close> (the scripts' \<open>main\<close> take
  the parsed arguments); the text on standard error; YAML values that are no JSON values; the text
  of a float (an argument where it is printed). Of \<open>run_llama_bench.py\<close>: the fingerprint of a
  configuration and the metadata of the machine (arguments), the bytes of the JSON and CSV files, the
  unused \<open>write_results\<close>, and an interrupt between two invocations.
  Of the serving benchmark: the manifest and run-record
  checks, the runners of external programs, the result analyses of the earlier experiments and
  the plots. The C++ simulator and kernels, the shell scripts, the build files and the tests are
  outside this development.
\<close>

end
